(* ===== verification/Prelude.thy ===== *)
theory Prelude
  imports Main "HOL-Library.Word"
begin

text \<open>
  What every component of the development shares: bytes and C++ integer conversions, the
  exceptions the sources throw, the objects of OpenSSL and liboqs that have to be freed by
  hand, and the effect type of the library wrappers (a result or an exception, and a new
  process state), with a small calculus for "every path frees exactly what it allocated".
\<close>

unbundle bit_operations_syntax

section \<open>Bytes, strings and integer conversions\<close>

type_synonym byte = "8 word"
type_synonym bytes = "8 word list"

text \<open>\<open>std::string\<close> and \<open>std::vector<uint8_t>\<close> hold the same bytes; the sources copy between them.\<close>

definition bytes_of :: "string \<Rightarrow> bytes" where
  "bytes_of s = map of_char s"

definition string_of :: "bytes \<Rightarrow> string" where
  "string_of bs = map (\<lambda>b. char_of (unat b)) bs"

text \<open>\<open>(int)v.size()\<close> and \<open>static_cast<int>(v.size())\<close>: the low 32 bits, read as two's complement.\<close>

definition c_int :: "nat \<Rightarrow> int" where
  "c_int n = signed_take_bit 31 (int n)"

text \<open>\<open>static_cast<uint32_t>(v.size())\<close>: the low 32 bits.\<close>

definition c_uint32 :: "nat \<Rightarrow> 32 word" where
  "c_uint32 n = word_of_nat n"

text \<open>
  A buffer of a fixed size, zero-initialised by \<open>std::vector<uint8_t> v(n)\<close> or
  \<open>v.resize(n)\<close> of an empty vector, after a library call wrote \<open>out\<close> at its start.
\<close>

definition fill :: "nat \<Rightarrow> bytes \<Rightarrow> bytes" where
  "fill n out = take n (out @ replicate n 0)"

text \<open>What \<open>v.resize(n)\<close> leaves in a vector that holds \<open>v\<close>.\<close>

definition resize_bytes :: "nat \<Rightarrow> bytes \<Rightarrow> bytes" where
  "resize_bytes n v = take n (v @ replicate n 0)"

text \<open>A buffer that already holds \<open>buf\<close> after a call wrote \<open>out\<close> at its start.\<close>

definition write_buf :: "bytes \<Rightarrow> bytes \<Rightarrow> bytes" where
  "write_buf buf out = take (length buf) (out @ drop (length out) buf)"

section \<open>Exceptions\<close>

text \<open>
  \<open>RuntimeError\<close> and \<open>InvalidArgument\<close> are \<open>std::runtime_error\<close> and
  \<open>std::invalid_argument\<close>. \<open>EarlyReturn m\<close> is the statement pair
  \<open>errorOut = m; return false;\<close> of a member function that reports errors through its
  out-parameter: like a throw it leaves the function at once and runs the destructors.
\<close>

datatype exn =
    RuntimeError string
  | InvalidArgument string
  | EarlyReturn string

fun what :: "exn \<Rightarrow> string" where
  "what (RuntimeError m) = m"
| "what (InvalidArgument m) = m"
| "what (EarlyReturn m) = m"

section \<open>The process state seen by the library wrappers\<close>

text \<open>
  \<open>live\<close> lists the library objects that are allocated and not yet freed, newest first.
  \<open>double_freed\<close> records that a free hit an object that was not live (undefined
  behaviour in the program). \<open>env\<close> is everything outside the process: randomness,
  memory, the clock, the file system and the network, as the library calls see it.
  The record is extensible: a component adds its own fields.
\<close>

datatype resource = CipherCtx | PkeyCtx | Pkey | MdCtx | OqsKem

record 'e world =
  live :: "resource list"
  double_freed :: bool
  env :: 'e

type_synonym ('s, 'a) io = "'s \<Rightarrow> (exn + 'a) \<times> 's"

definition ret_io :: "'a \<Rightarrow> ('s, 'a) io" where
  "ret_io x = (\<lambda>w. (Inr x, w))"

definition throw_io :: "exn \<Rightarrow> ('s, 'a) io" where
  "throw_io e = (\<lambda>w. (Inl e, w))"

definition bind_io :: "('s, 'a) io \<Rightarrow> ('a \<Rightarrow> ('s, 'b) io) \<Rightarrow> ('s, 'b) io" where
  "bind_io m k = (\<lambda>w. case m w of (Inl e, w') \<Rightarrow> (Inl e, w') | (Inr x, w') \<Rightarrow> k x w')"

text \<open>\<open>try m catch (...) h\<close>; \<open>h\<close> receives the exception and may rethrow it.\<close>

definition try_io :: "('s, 'a) io \<Rightarrow> (exn \<Rightarrow> ('s, 'a) io) \<Rightarrow> ('s, 'a) io" where
  "try_io m h = (\<lambda>w. case m w of (Inl e, w') \<Rightarrow> h e w' | (Inr x, w') \<Rightarrow> (Inr x, w'))"

text \<open>A destructor \<open>c\<close> that runs when the scope of \<open>m\<close> is left, normally or by an exception.\<close>

definition finally_io :: "('s, 'a) io \<Rightarrow> ('s \<Rightarrow> 's) \<Rightarrow> ('s, 'a) io" where
  "finally_io m c = (\<lambda>w. case m w of (r, w') \<Rightarrow> (r, c w'))"

definition guard_io :: "bool \<Rightarrow> exn \<Rightarrow> ('s, unit) io" where
  "guard_io b e = (if b then ret_io () else throw_io e)"

text \<open>A call into the outside world, and a change of the process's own fields.\<close>

definition env_io :: "('e \<Rightarrow> 'a \<times> 'e) \<Rightarrow> (('e, 'x) world_scheme, 'a) io" where
  "env_io f = (\<lambda>w. case f (env w) of (x, e') \<Rightarrow> (Inr x, w\<lparr>env := e'\<rparr>))"

definition modify_io :: "('s \<Rightarrow> 's) \<Rightarrow> ('s, unit) io" where
  "modify_io f = (\<lambda>w. (Inr (), f w))"

definition get_io :: "('s \<Rightarrow> 'a) \<Rightarrow> ('s, 'a) io" where
  "get_io f = (\<lambda>w. (Inr (f w), w))"

text \<open>
  A \<open>..._new\<close> function: a null result allocates nothing. A \<open>..._free\<close> function:
  freeing an object that is not live is the double free.
\<close>

definition acquire_io ::
  "resource \<Rightarrow> ('e \<Rightarrow> 'h option \<times> 'e) \<Rightarrow> (('e, 'x) world_scheme, 'h option) io" where
  "acquire_io r f = (\<lambda>w. case f (env w) of
       (None, e') \<Rightarrow> (Inr None, w\<lparr>env := e'\<rparr>)
     | (Some h, e') \<Rightarrow> (Inr (Some h), w\<lparr>env := e', live := r # live w\<rparr>))"

text \<open>An object handed over through an out-parameter (\<open>EVP_PKEY_keygen(ctx, &pkey)\<close>).\<close>

definition own_io :: "resource \<Rightarrow> (('e, 'x) world_scheme, unit) io" where
  "own_io r = modify_io (\<lambda>w. w\<lparr>live := r # live w\<rparr>)"

definition release :: "resource \<Rightarrow> ('e, 'x) world_scheme \<Rightarrow> ('e, 'x) world_scheme" where
  "release r w = (if r \<in> set (live w) then w\<lparr>live := remove1 r (live w)\<rparr>
                  else w\<lparr>double_freed := True\<rparr>)"

definition free_io :: "resource \<Rightarrow> (('e, 'x) world_scheme, unit) io" where
  "free_io r = modify_io (release r)"

text \<open>
  The pattern \<open>if (EVP_...(ctx, ...) != 1) throw ...\<close>: the call returns a code and the
  context's new state; \<open>ok\<close> is the test of the code.
\<close>

definition check_rc :: "(int \<Rightarrow> bool) \<Rightarrow> string \<Rightarrow> int \<times> 'h \<Rightarrow> ('s, 'h) io" where
  "check_rc ok msg r = (if ok (fst r) then ret_io (snd r) else throw_io (RuntimeError msg))"

text \<open>The same, freeing the listed objects before the throw: \<open>{ EVP_..._free(x); throw ...; }\<close>.\<close>

fun free_all :: "resource list \<Rightarrow> (('e, 'x) world_scheme, unit) io" where
  "free_all [] = ret_io ()"
| "free_all (r # rs) = bind_io (free_io r) (\<lambda>_. free_all rs)"

definition check_or_free ::
  "resource list \<Rightarrow> bool \<Rightarrow> string \<Rightarrow> (('e, 'x) world_scheme, unit) io" where
  "check_or_free rs b msg =
     (if b then ret_io () else bind_io (free_all rs) (\<lambda>_. throw_io (RuntimeError msg)))"

section \<open>Evaluating effects\<close>

named_theorems io_run \<open>evaluation of the effect combinators on a state\<close>

lemma ret_io_run [io_run]: "ret_io x w = (Inr x, w)"
  by (simp add: ret_io_def)

lemma throw_io_run [io_run]: "throw_io e w = (Inl e, w)"
  by (simp add: throw_io_def)

lemma bind_io_run [io_run]:
  "bind_io m k w = (case m w of (Inl e, w') \<Rightarrow> (Inl e, w') | (Inr x, w') \<Rightarrow> k x w')"
  by (simp add: bind_io_def)

lemma try_io_run [io_run]:
  "try_io m h w = (case m w of (Inl e, w') \<Rightarrow> h e w' | (Inr x, w') \<Rightarrow> (Inr x, w'))"
  by (simp add: try_io_def)

lemma finally_io_run [io_run]: "finally_io m c w = (fst (m w), c (snd (m w)))"
  by (simp add: finally_io_def split: prod.splits)

lemma guard_io_run [io_run]: "guard_io b e w = (if b then (Inr (), w) else (Inl e, w))"
  by (simp add: guard_io_def io_run)

lemma env_io_run [io_run]: "env_io f w = (Inr (fst (f (env w))), w\<lparr>env := snd (f (env w))\<rparr>)"
  by (simp add: env_io_def split: prod.splits)

lemma modify_io_run [io_run]: "modify_io f w = (Inr (), f w)"
  by (simp add: modify_io_def)

lemma get_io_run [io_run]: "get_io f w = (Inr (f w), w)"
  by (simp add: get_io_def)

lemma acquire_io_run [io_run]:
  "acquire_io r f w = (Inr (fst (f (env w))),
     (case fst (f (env w)) of
        None \<Rightarrow> w\<lparr>env := snd (f (env w))\<rparr>
      | Some h \<Rightarrow> w\<lparr>env := snd (f (env w)), live := r # live w\<rparr>))"
  by (simp add: acquire_io_def split: prod.splits option.splits)

lemma free_io_run [io_run]: "free_io r w = (Inr (), release r w)"
  by (simp add: free_io_def io_run)

lemma own_io_run [io_run]: "own_io r w = (Inr (), w\<lparr>live := r # live w\<rparr>)"
  by (simp add: own_io_def io_run)

lemma check_rc_run [io_run]:
  "check_rc ok msg r w = (if ok (fst r) then (Inr (snd r), w) else (Inl (RuntimeError msg), w))"
  by (simp add: check_rc_def io_run)

lemma bind_ret_io [simp]: "bind_io (ret_io x) k = k x"
  by (simp add: bind_io_def ret_io_def)

lemma bind_throw_io [simp]: "bind_io (throw_io e) k = throw_io e"
  by (simp add: bind_io_def throw_io_def fun_eq_iff)

lemma bind_bind_io [simp]: "bind_io (bind_io m k) l = bind_io m (\<lambda>x. bind_io (k x) l)"
  by (auto simp: bind_io_def fun_eq_iff split: prod.splits sum.splits)

lemma bind_io_Inr:
  "bind_io m k w = (Inr y, w') \<longleftrightarrow> (\<exists>x w1. m w = (Inr x, w1) \<and> k x w1 = (Inr y, w'))"
  by (auto simp: bind_io_def split: prod.splits sum.splits)

lemma guard_Inr: "guard_io b e w = (Inr u, w') \<longleftrightarrow> b \<and> w' = w"
  by (auto simp: io_run)

lemma get_Inr: "get_io f w = (Inr x, w') \<longleftrightarrow> x = f w \<and> w' = w"
  by (auto simp: io_run)

lemma modify_Inr: "modify_io f w = (Inr u, w') \<longleftrightarrow> w' = f w"
  by (auto simp: io_run)

lemma ret_Inr: "ret_io y w = (Inr x, w') \<longleftrightarrow> x = y \<and> w' = w"
  by (auto simp: io_run)

lemma release_head [simp]: "live w = r # L \<Longrightarrow> release r w = w\<lparr>live := L\<rparr>"
  by (simp add: release_def)

section \<open>Accounting for library objects\<close>

text \<open>
  \<open>heap_run A m B C\<close>: started with the objects \<open>A\<close> on top of any others, \<open>m\<close>
  returns with \<open>B\<close> in their place, or throws with \<open>C\<close> in their place, and never
  frees an object twice. \<open>heap_run [] m [] []\<close> says that \<open>m\<close> neither leaks nor
  double-frees on any path.
\<close>

definition heap_run ::
  "resource list \<Rightarrow> (('e, 'x) world_scheme, 'a) io \<Rightarrow> resource list \<Rightarrow> resource list \<Rightarrow> bool" where
  "heap_run A m B C \<longleftrightarrow>
     (\<forall>w L. live w = A @ L \<longrightarrow>
        live (snd (m w)) = (case fst (m w) of Inl _ \<Rightarrow> C @ L | Inr _ \<Rightarrow> B @ L) \<and>
        double_freed (snd (m w)) = double_freed w)"

named_theorems heap_intros \<open>rules of the library-object accounting\<close>

lemma heap_run_ret [heap_intros]: "heap_run A (ret_io x) A C"
  by (simp add: heap_run_def io_run)

lemma heap_run_throw [heap_intros]: "heap_run A (throw_io e) B A"
  by (simp add: heap_run_def io_run)

lemma heap_run_guard [heap_intros]: "heap_run A (guard_io b e) A A"
  by (simp add: heap_run_def io_run)

lemma heap_run_check_rc [heap_intros]: "heap_run A (check_rc ok msg r) A A"
  by (simp add: heap_run_def io_run)

lemma heap_run_env [heap_intros]: "heap_run A (env_io f) A C"
  by (simp add: heap_run_def io_run)

lemma heap_run_get [heap_intros]: "heap_run A (get_io f) A C"
  by (simp add: heap_run_def io_run)

lemma heap_run_modify:
  "(\<And>w. live (f w) = live w) \<Longrightarrow> (\<And>w. double_freed (f w) = double_freed w)
    \<Longrightarrow> heap_run A (modify_io f) A C"
  by (simp add: heap_run_def io_run)

lemma heap_run_bind:
  fixes m :: "(('e, 'x) world_scheme, 'a) io"
  assumes "heap_run A m B C" and "\<And>x. heap_run B (k x) D C"
  shows "heap_run A (bind_io m k) D C"
  unfolding heap_run_def
proof (intro allI impI)
  fix w :: "('e, 'x) world_scheme" and L
  assume live_w: "live w = A @ L"
  obtain r w1 where m: "m w = (r, w1)" by (cases "m w")
  show "live (snd (bind_io m k w)) =
          (case fst (bind_io m k w) of Inl _ \<Rightarrow> C @ L | Inr _ \<Rightarrow> D @ L) \<and>
        double_freed (snd (bind_io m k w)) = double_freed w"
  proof (cases r)
    case (Inl e)
    with m live_w assms(1) show ?thesis
      by (fastforce simp: heap_run_def io_run)
  next
    case (Inr x)
    with m live_w assms(1) have "live w1 = B @ L" and "double_freed w1 = double_freed w"
      by (fastforce simp: heap_run_def)+
    with assms(2)[of x] m Inr show ?thesis
      by (fastforce simp: heap_run_def io_run)
  qed
qed

lemma heap_run_acquire:
  fixes k :: "'h option \<Rightarrow> (('e, 'x) world_scheme, 'a) io"
  assumes "heap_run A (k None) B C" and "\<And>h. heap_run (r # A) (k (Some h)) B C"
  shows "heap_run A (bind_io (acquire_io r f) k) B C"
  unfolding heap_run_def
proof (intro allI impI)
  fix w :: "('e, 'x) world_scheme" and L
  assume live_w: "live w = A @ L"
  show "live (snd (bind_io (acquire_io r f) k w)) =
          (case fst (bind_io (acquire_io r f) k w) of Inl _ \<Rightarrow> C @ L | Inr _ \<Rightarrow> B @ L) \<and>
        double_freed (snd (bind_io (acquire_io r f) k w)) = double_freed w"
  proof (cases "fst (f (env w))")
    case None
    with live_w assms(1) show ?thesis
      by (simp add: heap_run_def io_run)
  next
    case (Some h)
    with live_w assms(2)[of h] show ?thesis
      by (simp add: heap_run_def io_run)
  qed
qed

lemma heap_run_free [heap_intros]: "heap_run (r # A) (free_io r) A C"
  by (simp add: heap_run_def io_run)

lemma heap_run_own [heap_intros]: "heap_run A (own_io r) (r # A) C"
  by (simp add: heap_run_def io_run)

lemma heap_run_free_any: "r \<in> set A \<Longrightarrow> heap_run A (free_io r) (remove1 r A) C"
  by (simp add: heap_run_def io_run release_def remove1_append)

lemma heap_run_free_all: "heap_run (rs @ A) (free_all rs) A C"
proof (induction rs)
  case Nil
  show ?case by (simp add: heap_run_ret)
next
  case (Cons r rs)
  have "heap_run (r # (rs @ A)) (free_io r) (rs @ A) C"
    by (rule heap_run_free)
  then show ?case using Cons by (auto intro: heap_run_bind)
qed

lemma heap_run_check_or_free [heap_intros]:
  "heap_run (rs @ A) (check_or_free rs b msg) (rs @ A) A"
proof (cases b)
  case True
  then show ?thesis by (simp add: check_or_free_def heap_run_ret)
next
  case False
  have "heap_run (rs @ A) (bind_io (free_all rs) (\<lambda>_. throw_io (RuntimeError msg))) (rs @ A) A"
    by (rule heap_run_bind [OF heap_run_free_all heap_run_throw])
  with False show ?thesis by (simp add: check_or_free_def)
qed

lemma heap_run_check_or_free1 [heap_intros]:
  "heap_run [r] (check_or_free [r] b msg) [r] []"
  using heap_run_check_or_free [where rs = "[r]" and A = "[]"] by simp

lemma heap_run_if [heap_intros]:
  "(b \<Longrightarrow> heap_run A m B C) \<Longrightarrow> (\<not> b \<Longrightarrow> heap_run A n B C)
    \<Longrightarrow> heap_run A (if b then m else n) B C"
  by simp

lemma heap_run_try:
  fixes m :: "(('e, 'x) world_scheme, 'a) io"
  assumes "heap_run A m B C" and "\<And>e. heap_run C (h e) B D"
  shows "heap_run A (try_io m h) B D"
  unfolding heap_run_def
proof (intro allI impI)
  fix w :: "('e, 'x) world_scheme" and L
  assume live_w: "live w = A @ L"
  obtain r w1 where m: "m w = (r, w1)" by (cases "m w")
  show "live (snd (try_io m h w)) =
          (case fst (try_io m h w) of Inl _ \<Rightarrow> D @ L | Inr _ \<Rightarrow> B @ L) \<and>
        double_freed (snd (try_io m h w)) = double_freed w"
  proof (cases r)
    case (Inl e)
    with m live_w assms(1) have "live w1 = C @ L" and "double_freed w1 = double_freed w"
      by (fastforce simp: heap_run_def)+
    with assms(2)[of e] m Inl show ?thesis
      by (fastforce simp: heap_run_def io_run)
  next
    case (Inr x)
    with m live_w assms(1) show ?thesis
      by (fastforce simp: heap_run_def io_run)
  qed
qed

lemma heap_run_finally:
  fixes m :: "(('e, 'x) world_scheme, 'a) io"
  assumes "heap_run A m B B"
    and "\<And>w L. live w = B @ L \<Longrightarrow> live (c w) = D @ L"
    and "\<And>w L. live w = B @ L \<Longrightarrow> double_freed (c w) = double_freed w"
  shows "heap_run A (finally_io m c) D D"
  unfolding heap_run_def
proof (intro allI impI)
  fix w :: "('e, 'x) world_scheme" and L
  assume "live w = A @ L"
  with assms(1) have *: "live (snd (m w)) = B @ L" "double_freed (snd (m w)) = double_freed w"
    by (auto simp: heap_run_def split: sum.splits)
  show "live (snd (finally_io m c w)) =
          (case fst (finally_io m c w) of Inl _ \<Rightarrow> D @ L | Inr _ \<Rightarrow> D @ L) \<and>
        double_freed (snd (finally_io m c w)) = double_freed w"
    using assms(2,3)[OF *(1)] *(2) by (simp add: io_run split: sum.splits)
qed

text \<open>A balanced computation may run while other objects are held.\<close>

lemma heap_run_frame: "heap_run [] m [] [] \<Longrightarrow> heap_run A m A A"
  by (simp add: heap_run_def)

lemma heap_run_finally_same:
  "heap_run A m B B \<Longrightarrow> (\<And>w. live (c w) = live w \<and> double_freed (c w) = double_freed w)
    \<Longrightarrow> heap_run A (finally_io m c) B B"
  by (rule heap_run_finally) auto

lemma finally_io_Inr: "finally_io m c w = (Inr y, w') \<longleftrightarrow> (\<exists>w1. m w = (Inr y, w1) \<and> w' = c w1)"
  by (cases "m w") (auto simp: finally_io_def)

lemma heap_run_liveD:
  assumes "heap_run [] m [] []"
  shows "live (snd (m w)) = live w" and "double_freed (snd (m w)) = double_freed w"
  using assms by (auto simp: heap_run_def split: sum.splits)

section \<open>What a computation leaves alone, and what it adds to a log\<close>

text \<open>
  \<open>g\<close> observes the state: a log kept by the outside world, say, or a component's own fields.
  \<open>keeps g m\<close>: no path of \<open>m\<close> changes it. An observer is \<open>heap_blind\<close> when it does not see
  the accounting of library objects, and a library call \<open>f\<close> is \<open>silent\<close> for it when the call
  changes only what the observer does not see. \<open>appends tr m\<close>: \<open>m\<close> only adds to the log \<open>tr\<close>.
\<close>

definition heap_blind :: "(('e, 'x) world_scheme \<Rightarrow> 't) \<Rightarrow> bool" where
  "heap_blind g \<longleftrightarrow> (\<forall>w l b. g (w\<lparr>live := l\<rparr>) = g w \<and> g (w\<lparr>double_freed := b\<rparr>) = g w)"

definition silent :: "(('e, 'x) world_scheme \<Rightarrow> 't) \<Rightarrow> ('e \<Rightarrow> 'a \<times> 'e) \<Rightarrow> bool" where
  "silent g f \<longleftrightarrow> heap_blind g \<and> (\<forall>w. g (w\<lparr>env := snd (f (env w))\<rparr>) = g w)"

definition keeps :: "('s \<Rightarrow> 't) \<Rightarrow> ('s, 'a) io \<Rightarrow> bool" where
  "keeps g m \<longleftrightarrow> (\<forall>w. g (snd (m w)) = g w)"

definition appends :: "('e \<Rightarrow> 'v list) \<Rightarrow> (('e, 'x) world_scheme, 'a) io \<Rightarrow> bool" where
  "appends tr m \<longleftrightarrow> (\<forall>w. \<exists>ev. tr (env (snd (m w))) = tr (env w) @ ev)"

named_theorems keeps_intros \<open>rules of the frame conditions\<close>

lemma env_release [simp]: "env (release r w) = env w"
  by (simp add: release_def)

lemma more_release [simp]: "world.more (release r w) = world.more w"
  by (simp add: release_def)

lemma heap_blind_more [intro, simp]: "heap_blind world.more"
  by (simp add: heap_blind_def)

lemma heap_blind_env [intro, simp]: "heap_blind (\<lambda>w. g (env w))"
  by (simp add: heap_blind_def)

lemma silent_more [intro, simp]: "silent world.more f"
  by (simp add: silent_def)

lemma silent_blind: "silent g f \<Longrightarrow> heap_blind g"
  by (simp add: silent_def)

lemma heap_blind_release: "heap_blind g \<Longrightarrow> g (release r w) = g w"
  by (simp add: heap_blind_def release_def)

lemma keeps_ret [keeps_intros]: "keeps g (ret_io x)"
  by (simp add: keeps_def io_run)

lemma keeps_throw [keeps_intros]: "keeps g (throw_io x)"
  by (simp add: keeps_def io_run)

lemma keeps_guard [keeps_intros]: "keeps g (guard_io b x)"
  by (simp add: keeps_def io_run)

lemma keeps_check_rc [keeps_intros]: "keeps g (check_rc ok msg r)"
  by (simp add: keeps_def io_run)

lemma keeps_get [keeps_intros]: "keeps g (get_io f)"
  by (simp add: keeps_def io_run)

lemma keeps_free [keeps_intros]: "heap_blind g \<Longrightarrow> keeps g (free_io r)"
  by (simp add: keeps_def io_run heap_blind_release)

lemma keeps_own [keeps_intros]: "heap_blind g \<Longrightarrow> keeps g (own_io r)"
  by (simp add: keeps_def io_run heap_blind_def)

lemma keeps_modify: "(\<And>w. g (f w) = g w) \<Longrightarrow> keeps g (modify_io f)"
  by (simp add: keeps_def io_run)

lemma keeps_env [keeps_intros]: "silent g f \<Longrightarrow> keeps g (env_io f)"
  by (simp add: keeps_def silent_def io_run)

lemma keeps_acquire [keeps_intros]: "silent g f \<Longrightarrow> keeps g (acquire_io r f)"
  by (simp add: keeps_def silent_def heap_blind_def io_run split: option.splits)

lemma keeps_bind [keeps_intros]: "keeps g m \<Longrightarrow> (\<And>x. keeps g (k x)) \<Longrightarrow> keeps g (bind_io m k)"
  by (auto simp: keeps_def io_run split: prod.splits sum.splits) (metis snd_conv)+

lemma keeps_try [keeps_intros]: "keeps g m \<Longrightarrow> (\<And>x. keeps g (h x)) \<Longrightarrow> keeps g (try_io m h)"
  by (auto simp: keeps_def io_run split: prod.splits sum.splits) (metis snd_conv)+

lemma keeps_finally [keeps_intros]:
  "keeps g m \<Longrightarrow> (\<And>w. g (c w) = g w) \<Longrightarrow> keeps g (finally_io m c)"
  by (simp add: keeps_def io_run)

lemma keeps_if [keeps_intros]: "keeps g m \<Longrightarrow> keeps g n \<Longrightarrow> keeps g (if b then m else n)"
  by simp

lemma keeps_case_option [keeps_intros]:
  "keeps g m \<Longrightarrow> (\<And>x. keeps g (n x)) \<Longrightarrow> keeps g (case r of None \<Rightarrow> m | Some x \<Rightarrow> n x)"
  by (simp split: option.splits)

lemma keeps_free_all [keeps_intros]: "heap_blind g \<Longrightarrow> keeps g (free_all rs)"
  by (induction rs) (simp_all add: keeps_ret keeps_bind keeps_free)

lemma keeps_check_or_free [keeps_intros]: "heap_blind g \<Longrightarrow> keeps g (check_or_free rs b msg)"
  by (simp add: check_or_free_def keeps_ret keeps_bind keeps_free_all keeps_throw)

lemma keepsD: "keeps g m \<Longrightarrow> m w = (r, w') \<Longrightarrow> g w' = g w"
  by (metis keeps_def snd_conv)

lemma keeps_appends: "keeps (\<lambda>w. tr (env w)) m \<Longrightarrow> appends tr m"
  by (simp add: keeps_def appends_def)

lemma appends_bind:
  assumes "appends tr m" and "\<And>x. appends tr (k x)"
  shows "appends tr (bind_io m k)"
  unfolding appends_def
proof
  fix w
  obtain r w1 where m: "m w = (r, w1)" by (cases "m w")
  then obtain ev where ev: "tr (env w1) = tr (env w) @ ev"
    using assms(1) by (metis appends_def snd_conv)
  show "\<exists>ev. tr (env (snd (bind_io m k w))) = tr (env w) @ ev"
  proof (cases r)
    case (Inl e)
    with m ev show ?thesis by (simp add: io_run)
  next
    case (Inr x)
    obtain ev' where "tr (env (snd (k x w1))) = tr (env w1) @ ev'"
      using assms(2) by (metis appends_def)
    with m ev Inr show ?thesis by (simp add: io_run)
  qed
qed

lemma appends_finally:
  "appends tr m \<Longrightarrow> (\<And>w. env (c w) = env w) \<Longrightarrow> appends tr (finally_io m c)"
  by (simp add: appends_def io_run)

section \<open>Lemmas on bytes\<close>

lemma length_bytes_of [simp]: "length (bytes_of s) = length s"
  by (simp add: bytes_of_def)

lemma bytes_of_append: "bytes_of (s @ t) = bytes_of s @ bytes_of t"
  by (simp add: bytes_of_def)

lemma length_fill [simp]: "length (fill n out) = n"
  by (simp add: fill_def)

lemma fill_exact [simp]: "length out = n \<Longrightarrow> fill n out = out"
  by (simp add: fill_def)

lemma length_write_buf [simp]: "length (write_buf buf out) = length buf"
  by (simp add: write_buf_def)

lemma write_buf_exact [simp]: "length out = length buf \<Longrightarrow> write_buf buf out = out"
  by (simp add: write_buf_def)

lemma resize_exact [simp]: "resize_bytes (length v) v = v"
  by (simp add: resize_bytes_def)

lemma length_resize [simp]: "length (resize_bytes n v) = n"
  by (simp add: resize_bytes_def)

lemma c_int_small [simp]: "n < 2 ^ 31 \<Longrightarrow> c_int n = int n"
  by (simp add: c_int_def signed_take_bit_int_eq_self)

lemma unat_of_char [simp]: "unat (of_char c :: 8 word) = of_char c"
proof -
  have "(of_char c :: nat) < 256" by simp
  moreover have "(of_char c :: 8 word) = word_of_nat (of_char c)"
    by (metis of_nat_of_char)
  ultimately show ?thesis
    by (simp add: unat_of_nat)
qed

lemma string_of_bytes_of [simp]: "string_of (bytes_of s) = s"
  by (simp add: string_of_def bytes_of_def comp_def map_idI)

lemma bytes_of_inject [simp]: "bytes_of s = bytes_of t \<longleftrightarrow> s = t"
  by (metis string_of_bytes_of)

end
