(* ===== verification/Key_Exchange.thy ===== *)
theory Key_Exchange
  imports Prelude
begin

text \<open>
  \<^verbatim>\<open>hkdf.cpp\<close> (HKDF-SHA256 through EVP_PKEY) and \<^verbatim>\<open>kem_kyber.cpp\<close> (class KyberKEM over liboqs). The library
  functions are the fields of \<open>evp_hkdf\<close> and \<open>oqs_kem\<close>.
\<close>

section \<open>HKDF-SHA256\<close>

record ('e, 'h) evp_hkdf =
  hkdf_ctx_new :: "'e \<Rightarrow> 'h option \<times> 'e"
  derive_init :: "'h \<Rightarrow> int \<times> 'h"
  set_hkdf_md :: "'h \<Rightarrow> int \<times> 'h"
  set1_hkdf_salt :: "bytes \<Rightarrow> int \<Rightarrow> 'h \<Rightarrow> int \<times> 'h"
  set1_hkdf_key :: "bytes \<Rightarrow> int \<Rightarrow> 'h \<Rightarrow> int \<times> 'h"
  add1_hkdf_info :: "bytes \<Rightarrow> int \<Rightarrow> 'h \<Rightarrow> int \<times> 'h"
  pkey_derive :: "nat \<Rightarrow> 'h \<Rightarrow> int \<times> bytes \<times> 'h"

text \<open>
  \<open>if (EVP_...(pctx, ...) <= 0) { EVP_PKEY_CTX_free(pctx); throw ...; }\<close>, where the call is
  made only if \<open>call\<close> holds (the short-circuit of \<open>!salt.empty() && ...\<close>).
\<close>

definition hkdf_step ::
  "bool \<Rightarrow> string \<Rightarrow> ('h \<Rightarrow> int \<times> 'h) \<Rightarrow> 'h \<Rightarrow> (('e, 'x) world_scheme, 'h) io" where
  "hkdf_step call msg f h =
     (if call
      then bind_io (check_or_free [PkeyCtx] (fst (f h) > 0) msg) (\<lambda>_. ret_io (snd (f h)))
      else ret_io h)"

definition hkdf_sha256 ::
  "('e, 'h) evp_hkdf \<Rightarrow> bytes \<Rightarrow> bytes \<Rightarrow> bytes \<Rightarrow> nat \<Rightarrow> (('e, 'x) world_scheme, bytes) io" where
  "hkdf_sha256 L ikm salt info out_len =
     bind_io (acquire_io PkeyCtx (hkdf_ctx_new L)) (\<lambda>r. case r of
       None \<Rightarrow> throw_io (RuntimeError ''HKDF: ctx new failed'')
     | Some pctx \<Rightarrow>
         bind_io (hkdf_step True ''HKDF: derive_init failed'' (derive_init L) pctx) (\<lambda>pctx.
         bind_io (hkdf_step True ''HKDF: set md failed'' (set_hkdf_md L) pctx) (\<lambda>pctx.
         bind_io (hkdf_step (salt \<noteq> []) ''HKDF: set salt failed''
                    (set1_hkdf_salt L salt (c_int (length salt))) pctx) (\<lambda>pctx.
         bind_io (hkdf_step True ''HKDF: set key failed''
                    (set1_hkdf_key L ikm (c_int (length ikm))) pctx) (\<lambda>pctx.
         bind_io (hkdf_step (info \<noteq> []) ''HKDF: set info failed''
                    (add1_hkdf_info L info (c_int (length info))) pctx) (\<lambda>pctx.
         (let (rc, out, _) = pkey_derive L out_len pctx in
          bind_io (check_or_free [PkeyCtx] (\<not> (rc \<le> 0 \<or> length out \<noteq> out_len))
                     ''HKDF: derive failed'') (\<lambda>_.
          bind_io (free_io PkeyCtx) (\<lambda>_.
          ret_io (fill out_len out))))))))))"

section \<open>KyberKEM\<close>

record ('e, 'h) oqs_kem =
  oqs_kem_new :: "'e \<Rightarrow> 'h option \<times> 'e"
  length_public_key :: "'h \<Rightarrow> nat"
  length_secret_key :: "'h \<Rightarrow> nat"
  length_ciphertext :: "'h \<Rightarrow> nat"
  length_shared_secret :: "'h \<Rightarrow> nat"
  oqs_keypair :: "'h \<Rightarrow> 'e \<Rightarrow> (int \<times> bytes \<times> bytes) \<times> 'e"
  oqs_encaps :: "'h \<Rightarrow> bytes \<Rightarrow> 'e \<Rightarrow> (int \<times> bytes \<times> bytes) \<times> 'e"
  oqs_decaps :: "'h \<Rightarrow> bytes \<Rightarrow> bytes \<Rightarrow> int \<times> bytes"

definition OQS_SUCCESS :: int where "OQS_SUCCESS = 0"

text \<open>The object is its \<open>kem_\<close> pointer: \<open>None\<close> until \<open>init\<close>.\<close>

definition kyber_init :: "('e, 'h) oqs_kem \<Rightarrow> (('e, 'x) world_scheme, 'h option) io" where
  "kyber_init K =
     bind_io (acquire_io OqsKem (oqs_kem_new K)) (\<lambda>r. case r of
       None \<Rightarrow> throw_io (RuntimeError ''OQS_KEM_new kyber_512 failed'')
     | Some k \<Rightarrow> ret_io (Some k))"

definition kyber_destroy :: "'h option \<Rightarrow> ('e, 'x) world_scheme \<Rightarrow> ('e, 'x) world_scheme" where
  "kyber_destroy kem = (case kem of None \<Rightarrow> id | Some _ \<Rightarrow> release OqsKem)"

definition kyber_keypair ::
  "('e, 'h) oqs_kem \<Rightarrow> 'h option \<Rightarrow> (('e, 'x) world_scheme, bytes \<times> bytes) io" where
  "kyber_keypair K kem = (case kem of
     None \<Rightarrow> throw_io (RuntimeError ''KEM not initialized'')
   | Some k \<Rightarrow>
       bind_io (env_io (oqs_keypair K k)) (\<lambda>(rc, pk, sk).
         if rc \<noteq> OQS_SUCCESS then throw_io (RuntimeError ''OQS_KEM_keypair failed'')
         else ret_io (fill (length_public_key K k) pk, fill (length_secret_key K k) sk)))"

definition kyber_encapsulate ::
  "('e, 'h) oqs_kem \<Rightarrow> 'h option \<Rightarrow> bytes \<Rightarrow> (('e, 'x) world_scheme, bytes \<times> bytes) io" where
  "kyber_encapsulate K kem peer_pk = (case kem of
     None \<Rightarrow> throw_io (RuntimeError ''KEM not initialized'')
   | Some k \<Rightarrow>
       if length peer_pk \<noteq> length_public_key K k
       then throw_io (RuntimeError ''peer pk size mismatch'')
       else bind_io (env_io (oqs_encaps K k peer_pk)) (\<lambda>(rc, ct, ss).
         if rc \<noteq> OQS_SUCCESS then throw_io (RuntimeError ''OQS_KEM_encaps failed'')
         else ret_io (fill (length_ciphertext K k) ct, fill (length_shared_secret K k) ss)))"

definition kyber_decapsulate ::
  "('e, 'h) oqs_kem \<Rightarrow> 'h option \<Rightarrow> bytes \<Rightarrow> bytes \<Rightarrow> ('s, bytes) io" where
  "kyber_decapsulate K kem ct sk = (case kem of
     None \<Rightarrow> throw_io (RuntimeError ''KEM not initialized'')
   | Some k \<Rightarrow>
       if length ct \<noteq> length_ciphertext K k \<or> length sk \<noteq> length_secret_key K k
       then throw_io (RuntimeError ''ct/sk size mismatch'')
       else (let (rc, ss) = oqs_decaps K k ct sk in
         if rc \<noteq> OQS_SUCCESS then throw_io (RuntimeError ''OQS_KEM_decaps failed'')
         else ret_io (fill (length_shared_secret K k) ss)))"

text \<open>\<open>KyberKEM kem; kem.init(); ...\<close> in a scope: the destructor runs however the scope is left.\<close>

definition with_kyber ::
  "('e, 'h) oqs_kem \<Rightarrow> ('h option \<Rightarrow> (('e, 'x) world_scheme, 'a) io) \<Rightarrow> (('e, 'x) world_scheme, 'a) io" where
  "with_kyber K body = bind_io (kyber_init K) (\<lambda>kem. finally_io (body kem) (kyber_destroy kem))"

section \<open>Both free what they allocate\<close>

lemma hkdf_step_heap: "heap_run [PkeyCtx] (hkdf_step call msg f h) [PkeyCtx] []"
  unfolding hkdf_step_def
  by (intro heap_run_if heap_run_ret heap_run_bind [OF heap_run_check_or_free1])

lemma hkdf_sha256_heap: "heap_run [] (hkdf_sha256 L ikm salt info n) [] []"
proof -
  have last: "heap_run [PkeyCtx]
     (let (rc, out, _) = pkey_derive L n h in
          bind_io (check_or_free [PkeyCtx] (\<not> (rc \<le> 0 \<or> length out \<noteq> n)) ''HKDF: derive failed'')
            (\<lambda>_. bind_io (free_io PkeyCtx) (\<lambda>_. ret_io (fill n out)))) [] []" for h
    unfolding Let_def split_def
    by (intro heap_run_bind [OF heap_run_check_or_free1] heap_run_bind [OF heap_run_free] heap_run_ret)
  show ?thesis
    unfolding hkdf_sha256_def
  proof (rule heap_run_acquire, goal_cases)
    case 1
    show ?case by (simp add: heap_run_throw)
  next
    case (2 h)
    show ?case
      unfolding option.case by (intro heap_run_bind [OF hkdf_step_heap] last)
  qed
qed

lemma kyber_init_result:
  "fst (kyber_init K w) = Inr kem \<Longrightarrow> \<exists>k. kem = Some k"
  by (cases "fst (oqs_kem_new K (env w))") (auto simp: kyber_init_def io_run)

lemma kyber_keypair_heap: "heap_run A (kyber_keypair K kem) A A"
  unfolding kyber_keypair_def split_def
  by (cases kem) (auto intro!: heap_run_bind [OF heap_run_env] heap_run_throw heap_run_ret heap_run_if)

lemma kyber_encapsulate_heap: "heap_run A (kyber_encapsulate K kem pk) A A"
  unfolding kyber_encapsulate_def split_def
  by (cases kem) (auto intro!: heap_run_bind [OF heap_run_env] heap_run_throw heap_run_ret heap_run_if)

lemma kyber_decapsulate_heap: "heap_run A (kyber_decapsulate K kem ct sk) A A"
  unfolding kyber_decapsulate_def split_def Let_def
  by (cases kem) (auto intro!: heap_run_throw heap_run_ret heap_run_if)

text \<open>The scope of a KEM object keeps the accounting of its body, exceptions included.\<close>

lemma with_kyber_heap:
  assumes "\<And>k. heap_run [OqsKem] (body (Some k)) [OqsKem] [OqsKem]"
  shows "heap_run [] (with_kyber K body) [] []"
proof -
  have scope: "heap_run [OqsKem] (finally_io (body (Some k)) (kyber_destroy (Some k))) [] []" for k
    by (rule heap_run_finally [OF assms]) (simp_all add: kyber_destroy_def)
  show ?thesis
    unfolding with_kyber_def kyber_init_def bind_bind_io
    by (rule heap_run_acquire) (auto intro: heap_run_throw scope)
qed

section \<open>The documented behaviour of the HKDF context\<close>

text \<open>
  What a context has been told: whether the digest is set, the salt, the input key and the
  accumulated info. \<open>H salt key info n\<close> is HKDF itself (RFC 5869, at most \<open>255 * 32\<close> bytes).
\<close>

type_synonym hkdf_view = "(bool \<times> bytes \<times> bytes \<times> bytes) option"

definition hkdf_contract ::
  "('e, 'h) evp_hkdf \<Rightarrow> ('h \<Rightarrow> hkdf_view) \<Rightarrow> (bytes \<Rightarrow> bytes \<Rightarrow> bytes \<Rightarrow> nat \<Rightarrow> bytes) \<Rightarrow> bool" where
  "hkdf_contract L view H \<longleftrightarrow>
     (\<forall>e. fst (hkdf_ctx_new L e) \<noteq> None) \<and>
     (\<forall>e h. fst (hkdf_ctx_new L e) = Some h \<longrightarrow>
        fst (derive_init L h) > 0 \<and> view (snd (derive_init L h)) = Some (False, [], [], [])) \<and>
     (\<forall>h m s k i. view h = Some (m, s, k, i) \<longrightarrow>
        fst (set_hkdf_md L h) > 0 \<and> view (snd (set_hkdf_md L h)) = Some (True, s, k, i)) \<and>
     (\<forall>h m s k i s'. view h = Some (m, s, k, i) \<longrightarrow>
        fst (set1_hkdf_salt L s' (int (length s')) h) > 0 \<and>
        view (snd (set1_hkdf_salt L s' (int (length s')) h)) = Some (m, s', k, i)) \<and>
     (\<forall>h m s k i k'. view h = Some (m, s, k, i) \<longrightarrow> k' \<noteq> [] \<longrightarrow>
        fst (set1_hkdf_key L k' (int (length k')) h) > 0 \<and>
        view (snd (set1_hkdf_key L k' (int (length k')) h)) = Some (m, s, k', i)) \<and>
     (\<forall>h m s k i i'. view h = Some (m, s, k, i) \<longrightarrow>
        fst (add1_hkdf_info L i' (int (length i')) h) > 0 \<and>
        view (snd (add1_hkdf_info L i' (int (length i')) h)) = Some (m, s, k, i @ i')) \<and>
     (\<forall>h s k i n. view h = Some (True, s, k, i) \<longrightarrow> 0 < n \<longrightarrow> n \<le> 255 * 32 \<longrightarrow>
        fst (pkey_derive L n h) > 0 \<and> fst (snd (pkey_derive L n h)) = H s k i n \<and>
        length (H s k i n) = n)"

lemma hkdf_sha256_ok:
  assumes C: "hkdf_contract L view H" and ikm: "ikm \<noteq> []" "length ikm < 2 ^ 31"
    and s: "length salt < 2 ^ 31" and i: "length info < 2 ^ 31" and n: "0 < n" "n \<le> 255 * 32"
  shows "hkdf_sha256 L ikm salt info n w =
           (Inr (H salt ikm info n), w\<lparr>env := snd (hkdf_ctx_new L (env w))\<rparr>)"
proof -
  note laws = C [unfolded hkdf_contract_def]
  note memory = laws [THEN conjunct1, rule_format]
  note laws = laws [THEN conjunct2]
  note init_law = laws [THEN conjunct1, rule_format]
  note laws = laws [THEN conjunct2]
  note md_law = laws [THEN conjunct1, rule_format]
  note laws = laws [THEN conjunct2]
  note salt_law = laws [THEN conjunct1, rule_format]
  note laws = laws [THEN conjunct2]
  note key_law = laws [THEN conjunct1, rule_format]
  note laws = laws [THEN conjunct2]
  note info_law = laws [THEN conjunct1, rule_format]
  note derive_law = laws [THEN conjunct2, rule_format]
  obtain h where h: "fst (hkdf_ctx_new L (env w)) = Some h"
    using memory by blast
  let ?h1 = "snd (set_hkdf_md L (snd (derive_init L h)))"
  let ?h2 = "if salt \<noteq> [] then snd (set1_hkdf_salt L salt (int (length salt)) ?h1) else ?h1"
  let ?h3 = "snd (set1_hkdf_key L ikm (int (length ikm)) ?h2)"
  let ?h4 = "if info \<noteq> [] then snd (add1_hkdf_info L info (int (length info)) ?h3) else ?h3"
  note init = init_law [OF h, THEN conjunct1] init_law [OF h, THEN conjunct2]
  note md = md_law [OF init(2), THEN conjunct1] md_law [OF init(2), THEN conjunct2]
  note salt = salt_law [OF md(2), of salt, THEN conjunct1]
  have salt_view: "view ?h2 = Some (True, salt, [], [])"
    using md(2) salt_law [OF md(2), of salt] by simp
  note key = key_law [OF salt_view ikm(1), THEN conjunct1] key_law [OF salt_view ikm(1), THEN conjunct2]
  note info = info_law [OF key(2), of info, THEN conjunct1]
  have info_view: "view ?h4 = Some (True, salt, ikm, info)"
    using key(2) info_law [OF key(2), of info] by simp
  note out = derive_law [OF info_view n]
  show ?thesis
    using h init(1) md(1) salt key(1) info out ikm s i
    by (cases "salt = []"; cases "info = []")
       (simp_all add: hkdf_sha256_def hkdf_step_def check_or_free_def io_run Let_def split_def not_le)
qed

section \<open>The documented behaviour of the KEM\<close>

text \<open>
  Every Kyber-512 instance has the same lengths; a key pair it generates decapsulates what
  any instance encapsulated to its public key. \<open>is_kem\<close> picks the handles that
  \<open>OQS_KEM_new\<close> returns.
\<close>

definition is_kem :: "('e, 'h) oqs_kem \<Rightarrow> 'h \<Rightarrow> bool" where
  "is_kem K k \<longleftrightarrow> (\<exists>e. fst (oqs_kem_new K e) = Some k)"

definition kem_contract :: "('e, 'h) oqs_kem \<Rightarrow> bool" where
  "kem_contract K \<longleftrightarrow>
     (\<forall>k k'. is_kem K k \<longrightarrow> is_kem K k' \<longrightarrow>
        length_public_key K k = length_public_key K k' \<and>
        length_secret_key K k = length_secret_key K k' \<and>
        length_ciphertext K k = length_ciphertext K k' \<and>
        length_shared_secret K k = length_shared_secret K k' \<and>
        0 < length_shared_secret K k \<and> length_shared_secret K k < 2 ^ 31) \<and>
     (\<forall>k e pk sk e1. is_kem K k \<longrightarrow> oqs_keypair K k e = ((OQS_SUCCESS, pk, sk), e1) \<longrightarrow>
        length pk = length_public_key K k \<and> length sk = length_secret_key K k \<and>
        (\<forall>k' e' ct ss e2. is_kem K k' \<longrightarrow> oqs_encaps K k' pk e' = ((OQS_SUCCESS, ct, ss), e2) \<longrightarrow>
           length ct = length_ciphertext K k' \<and> length ss = length_shared_secret K k' \<and>
           oqs_decaps K k ct sk = (OQS_SUCCESS, ss)))"

text \<open>What a successful call of the wrappers says about the library calls behind it.\<close>

lemma kyber_init_Inr:
  "kyber_init K w = (Inr kem, w') \<longleftrightarrow>
     (\<exists>k. kem = Some k \<and> fst (oqs_kem_new K (env w)) = Some k \<and>
        w' = w\<lparr>env := snd (oqs_kem_new K (env w)), live := OqsKem # live w\<rparr>)"
  by (cases "fst (oqs_kem_new K (env w))") (auto simp: kyber_init_def io_run)

lemma kyber_keypair_Inr:
  "kyber_keypair K kem w = (Inr (pk, sk), w') \<longleftrightarrow>
     (\<exists>k pk0 sk0. kem = Some k \<and>
        oqs_keypair K k (env w) = ((OQS_SUCCESS, pk0, sk0), env w') \<and>
        pk = fill (length_public_key K k) pk0 \<and> sk = fill (length_secret_key K k) sk0 \<and>
        w' = w\<lparr>env := env w'\<rparr>)"
  by (auto simp: kyber_keypair_def io_run split_def split: option.splits if_splits)
     (metis prod.collapse)+

lemma kyber_encapsulate_Inr:
  "kyber_encapsulate K kem pk w = (Inr (ct, ss), w') \<longleftrightarrow>
     (\<exists>k ct0 ss0. kem = Some k \<and> length pk = length_public_key K k \<and>
        oqs_encaps K k pk (env w) = ((OQS_SUCCESS, ct0, ss0), env w') \<and>
        ct = fill (length_ciphertext K k) ct0 \<and> ss = fill (length_shared_secret K k) ss0 \<and>
        w' = w\<lparr>env := env w'\<rparr>)"
  by (auto simp: kyber_encapsulate_def io_run split_def split: option.splits if_splits)
     (metis prod.collapse)+

lemma kyber_decapsulate_Inr:
  "kyber_decapsulate K kem ct sk w = (Inr ss, w') \<longleftrightarrow>
     (\<exists>k ss0. kem = Some k \<and> length ct = length_ciphertext K k \<and>
        length sk = length_secret_key K k \<and> oqs_decaps K k ct sk = (OQS_SUCCESS, ss0) \<and>
        ss = fill (length_shared_secret K k) ss0 \<and> w' = w)"
  by (auto simp: kyber_decapsulate_def io_run split_def Let_def split: option.splits if_splits)
     (metis prod.collapse)+

text \<open>The two ends of an encapsulation agree on the secret.\<close>

lemma kem_agreement:
  assumes C: "kem_contract K"
    and kc: "is_kem K kc" and ks: "is_kem K ks"
    and gen: "kyber_keypair K (Some kc) w1 = (Inr (pk, sk), w1')"
    and enc: "kyber_encapsulate K (Some ks) pk w2 = (Inr (ct, ss), w2')"
    and dec: "kyber_decapsulate K (Some kc) ct sk w3 = (Inr ss', w3')"
  shows "ss' = ss"
proof -
  obtain pk0 sk0 where g: "oqs_keypair K kc (env w1) = ((OQS_SUCCESS, pk0, sk0), env w1')"
    "pk = fill (length_public_key K kc) pk0" "sk = fill (length_secret_key K kc) sk0"
    using gen by (auto simp: kyber_keypair_Inr)
  have pk: "pk = pk0" "sk = sk0"
    using C kc g unfolding kem_contract_def by (metis fill_exact)+
  obtain ct0 ss0 where e: "oqs_encaps K ks pk (env w2) = ((OQS_SUCCESS, ct0, ss0), env w2')"
    "ct = fill (length_ciphertext K ks) ct0" "ss = fill (length_shared_secret K ks) ss0"
    using enc by (auto simp: kyber_encapsulate_Inr)
  have out: "length ct0 = length_ciphertext K ks" "length ss0 = length_shared_secret K ks"
    "oqs_decaps K kc ct0 sk = (OQS_SUCCESS, ss0)"
    using C kc ks g(1) e(1) pk unfolding kem_contract_def by metis+
  have "length_shared_secret K kc = length_shared_secret K ks"
    using C kc ks unfolding kem_contract_def by metis
  with dec e(2,3) out show ?thesis
    by (auto simp: kyber_decapsulate_Inr)
qed

end
