(* ===== verification/Crypto.thy ===== *)
theory Crypto
  imports Prelude
begin

text \<open>
  \<^verbatim>\<open>crypto.h\<close> (class AESGCMCrypto), \<^verbatim>\<open>session.h\<close> (class Session) and \<^verbatim>\<open>protocol.h\<close>. OpenSSL is not part of the repository: the
  EVP functions the class calls are the fields of the parameter record \<open>evp_cipher\<close>, whose
  context handles have the type \<open>'h\<close>. What the class relies on is the predicate
  \<open>gcm_contract\<close>: the documented behaviour of an EVP context in GCM mode.
\<close>

section \<open>Protocol constants\<close>

definition kVersion :: "32 word" where
  "kVersion = 1"

definition hkdf_salt :: bytes where
  "hkdf_salt = bytes_of ''E2EE-v1''"

definition hkdf_info :: bytes where
  "hkdf_info = bytes_of ''AES-256-GCM''"

section \<open>The EVP cipher interface\<close>

text \<open>
  Every function returns its code and the new state of the context. \<open>encrypt_update\<close>,
  \<open>encrypt_final\<close> and their decrypting twins also return the bytes written through the
  output pointer; the number of these bytes is the value left in \<open>*outl\<close>.
\<close>

record ('e, 'h) evp_cipher =
  cipher_ctx_new :: "'e \<Rightarrow> 'h option \<times> 'e"
  encrypt_init_cipher :: "'h \<Rightarrow> int \<times> 'h"
  decrypt_init_cipher :: "'h \<Rightarrow> int \<times> 'h"
  ctrl_set_ivlen :: "int \<Rightarrow> 'h \<Rightarrow> int \<times> 'h"
  encrypt_init_key :: "bytes \<Rightarrow> bytes \<Rightarrow> 'h \<Rightarrow> int \<times> 'h"
  decrypt_init_key :: "bytes \<Rightarrow> bytes \<Rightarrow> 'h \<Rightarrow> int \<times> 'h"
  encrypt_update :: "bytes \<Rightarrow> int \<Rightarrow> 'h \<Rightarrow> int \<times> bytes \<times> 'h"
  decrypt_update :: "bytes \<Rightarrow> int \<Rightarrow> 'h \<Rightarrow> int \<times> bytes \<times> 'h"
  encrypt_final :: "'h \<Rightarrow> int \<times> bytes \<times> 'h"
  decrypt_final :: "'h \<Rightarrow> int \<times> bytes \<times> 'h"
  ctrl_get_tag :: "nat \<Rightarrow> 'h \<Rightarrow> int \<times> bytes \<times> 'h"
  ctrl_set_tag :: "bytes \<Rightarrow> 'h \<Rightarrow> int \<times> 'h"
  rand_bytes :: "int \<Rightarrow> 'e \<Rightarrow> (int \<times> bytes) \<times> 'e"

section \<open>AESGCMCrypto\<close>

definition KEY_SIZE :: nat where "KEY_SIZE = 32"

definition NONCE_SIZE :: nat where "NONCE_SIZE = 12"

definition TAG_SIZE :: nat where "TAG_SIZE = 16"

text \<open>The object is its \<open>key_\<close>. The default constructor's demo key, and the checked constructor.\<close>

definition AESGCM_default :: bytes where
  "AESGCM_default = map word_of_nat [0..<32]"

definition AESGCM_new :: "bytes \<Rightarrow> ('s, bytes) io" where
  "AESGCM_new key =
     (if length key \<noteq> KEY_SIZE
      then throw_io (InvalidArgument ''AESGCMCrypto: key must be 32 bytes'')
      else ret_io key)"

lemma AESGCM_new_Inr:
  "AESGCM_new k w = (Inr x, w') \<longleftrightarrow> length k = KEY_SIZE \<and> x = k \<and> w' = w"
  by (auto simp: AESGCM_new_def io_run)

text \<open>
  \<open>encrypt\<close>. The body of its \<open>try\<close> block is \<open>encrypt_body\<close>; the handler frees
  the context and rethrows. The body's last action on success is the free.
\<close>

definition encrypt_body ::
  "('e, 'h) evp_cipher \<Rightarrow> bytes \<Rightarrow> bytes \<Rightarrow> bytes \<Rightarrow> 'h
    \<Rightarrow> (('e, 'x) world_scheme, bytes \<times> bytes) io" where
  "encrypt_body L key plaintext nonce ctx =
     bind_io (check_rc (\<lambda>r. r = 1) ''EncryptInit (cipher) failed''
                (encrypt_init_cipher L ctx)) (\<lambda>ctx.
     bind_io (check_rc (\<lambda>r. r = 1) ''SET_IVLEN failed''
                (ctrl_set_ivlen L (c_int (length nonce)) ctx)) (\<lambda>ctx.
     bind_io (check_rc (\<lambda>r. r = 1) ''EncryptInit (key/iv) failed''
                (encrypt_init_key L key nonce ctx)) (\<lambda>ctx.
     bind_io (check_rc (\<lambda>r. r = 1) ''EncryptUpdate failed''
                (encrypt_update L plaintext (c_int (length plaintext)) ctx)) (\<lambda>(out1, ctx).
     bind_io (check_rc (\<lambda>r. r = 1) ''EncryptFinal failed''
                (encrypt_final L ctx)) (\<lambda>(out2, ctx).
     bind_io (check_rc (\<lambda>r. r = 1) ''GET_TAG failed''
                (ctrl_get_tag L TAG_SIZE ctx)) (\<lambda>(tag, ctx).
     bind_io (free_io CipherCtx) (\<lambda>_.
     ret_io (out1 @ out2, fill TAG_SIZE tag))))))))"

definition aes_encrypt ::
  "('e, 'h) evp_cipher \<Rightarrow> bytes \<Rightarrow> bytes \<Rightarrow> bytes \<Rightarrow> (('e, 'x) world_scheme, bytes) io" where
  "aes_encrypt L key plaintext nonce =
     (if length nonce \<noteq> NONCE_SIZE
      then throw_io (InvalidArgument ''AESGCMCrypto::encrypt: nonce must be 12 bytes'')
      else
        bind_io (acquire_io CipherCtx (cipher_ctx_new L)) (\<lambda>r. case r of
          None \<Rightarrow> throw_io (RuntimeError ''EVP_CIPHER_CTX_new failed'')
        | Some ctx \<Rightarrow>
            bind_io (try_io (encrypt_body L key plaintext nonce ctx)
                       (\<lambda>e. bind_io (free_io CipherCtx) (\<lambda>_. throw_io e)))
              (\<lambda>(ciphertext, tag). ret_io (ciphertext @ tag))))"

text \<open>
  \<open>decrypt\<close>. The branch on the code of \<open>EVP_DecryptFinal_ex\<close> frees the context and
  throws inside the \<open>try\<close> block, whose handler frees the context again.
\<close>

definition decrypt_body ::
  "('e, 'h) evp_cipher \<Rightarrow> bytes \<Rightarrow> bytes \<Rightarrow> bytes \<Rightarrow> bytes \<Rightarrow> 'h
    \<Rightarrow> (('e, 'x) world_scheme, bytes) io" where
  "decrypt_body L key ct tag nonce ctx =
     bind_io (check_rc (\<lambda>r. r = 1) ''DecryptInit (cipher) failed''
                (decrypt_init_cipher L ctx)) (\<lambda>ctx.
     bind_io (check_rc (\<lambda>r. r = 1) ''SET_IVLEN failed''
                (ctrl_set_ivlen L (c_int (length nonce)) ctx)) (\<lambda>ctx.
     bind_io (check_rc (\<lambda>r. r = 1) ''DecryptInit (key/iv) failed''
                (decrypt_init_key L key nonce ctx)) (\<lambda>ctx.
     bind_io (check_rc (\<lambda>r. r = 1) ''DecryptUpdate failed''
                (decrypt_update L ct (c_int (length ct)) ctx)) (\<lambda>(out1, ctx).
     bind_io (check_rc (\<lambda>r. r = 1) ''SET_TAG failed''
                (ctrl_set_tag L tag ctx)) (\<lambda>ctx.
     case decrypt_final L ctx of (ret, out2, ctx) \<Rightarrow>
       if ret \<le> 0
       then bind_io (free_io CipherCtx) (\<lambda>_.
              throw_io (RuntimeError ''GCM tag verification failed''))
       else bind_io (free_io CipherCtx) (\<lambda>_. ret_io (out1 @ out2)))))))"

definition aes_decrypt ::
  "('e, 'h) evp_cipher \<Rightarrow> bytes \<Rightarrow> bytes \<Rightarrow> bytes \<Rightarrow> (('e, 'x) world_scheme, bytes) io" where
  "aes_decrypt L key ct_tag nonce =
     (if length nonce \<noteq> NONCE_SIZE
      then throw_io (InvalidArgument ''AESGCMCrypto::decrypt: nonce must be 12 bytes'')
      else if length ct_tag < TAG_SIZE
      then throw_io (InvalidArgument ''AESGCMCrypto::decrypt: input too short'')
      else
        (let ct_len = length ct_tag - TAG_SIZE in
         bind_io (acquire_io CipherCtx (cipher_ctx_new L)) (\<lambda>r. case r of
           None \<Rightarrow> throw_io (RuntimeError ''EVP_CIPHER_CTX_new failed'')
         | Some ctx \<Rightarrow>
             try_io (decrypt_body L key (take ct_len ct_tag) (drop ct_len ct_tag) nonce ctx)
               (\<lambda>e. bind_io (free_io CipherCtx) (\<lambda>_. throw_io e)))))"

definition random_nonce :: "('e, 'h) evp_cipher \<Rightarrow> (('e, 'x) world_scheme, bytes) io" where
  "random_nonce L =
     bind_io (env_io (rand_bytes L (c_int NONCE_SIZE))) (\<lambda>(rc, out).
       if rc \<noteq> 1 then throw_io (RuntimeError ''RAND_bytes failed'')
       else ret_io (fill NONCE_SIZE out))"

section \<open>Session\<close>

text \<open>A Session is its \<open>key_\<close>, empty until \<open>set_key\<close>.\<close>

definition session_encrypt ::
  "('e, 'h) evp_cipher \<Rightarrow> bytes \<Rightarrow> bytes \<Rightarrow> bytes \<Rightarrow> (('e, 'x) world_scheme, bytes) io" where
  "session_encrypt L skey plaintext nonce =
     (if skey = [] then throw_io (RuntimeError ''Session key not set'')
      else bind_io (AESGCM_new skey) (\<lambda>crypto. aes_encrypt L crypto plaintext nonce))"

definition session_decrypt ::
  "('e, 'h) evp_cipher \<Rightarrow> bytes \<Rightarrow> bytes \<Rightarrow> bytes \<Rightarrow> (('e, 'x) world_scheme, bytes) io" where
  "session_decrypt L skey ct_tag nonce =
     (if skey = [] then throw_io (RuntimeError ''Session key not set'')
      else bind_io (AESGCM_new skey) (\<lambda>crypto. aes_decrypt L crypto ct_tag nonce))"

section \<open>The documented behaviour of an EVP context in GCM mode\<close>

text \<open>
  \<open>gcm_view\<close> is the part of a context's state that the documentation speaks of: what it
  has been told so far, in which direction. \<open>E\<close>, \<open>D\<close> and \<open>T\<close> are the cipher
  itself: encryption, decryption and the tag of a ciphertext.
\<close>

datatype dir = Enc | Dec

datatype gcm_view =
    GNew
  | GCipher dir
  | GIv dir int
  | GReady dir bytes bytes
  | GData dir bytes bytes bytes
  | GTagged bytes bytes bytes bytes
  | GDone bytes bytes bytes

record gcm_cipher =
  gcm_E :: "bytes \<Rightarrow> bytes \<Rightarrow> bytes \<Rightarrow> bytes"
  gcm_D :: "bytes \<Rightarrow> bytes \<Rightarrow> bytes \<Rightarrow> bytes"
  gcm_T :: "bytes \<Rightarrow> bytes \<Rightarrow> bytes \<Rightarrow> bytes"

definition gcm_cipher_ok :: "gcm_cipher \<Rightarrow> bool" where
  "gcm_cipher_ok G \<longleftrightarrow>
     (\<forall>k n p. length k = KEY_SIZE \<longrightarrow> length n = NONCE_SIZE \<longrightarrow>
        gcm_D G k n (gcm_E G k n p) = p \<and>
        length (gcm_E G k n p) = length p \<and>
        length (gcm_T G k n p) = TAG_SIZE)"

definition gcm_setup_contract ::
  "('e, 'h) evp_cipher \<Rightarrow> ('h \<Rightarrow> gcm_view) \<Rightarrow> bool" where
  "gcm_setup_contract L view \<longleftrightarrow>
     (\<forall>e h. fst (cipher_ctx_new L e) = Some h \<longrightarrow> view h = GNew) \<and>
     (\<forall>h. view h = GNew \<longrightarrow>
        fst (encrypt_init_cipher L h) = 1 \<and> view (snd (encrypt_init_cipher L h)) = GCipher Enc \<and>
        fst (decrypt_init_cipher L h) = 1 \<and> view (snd (decrypt_init_cipher L h)) = GCipher Dec) \<and>
     (\<forall>h d. view h = GCipher d \<longrightarrow>
        fst (ctrl_set_ivlen L 12 h) = 1 \<and> view (snd (ctrl_set_ivlen L 12 h)) = GIv d 12) \<and>
     (\<forall>h k n. view h = GIv Enc 12 \<longrightarrow> length k = KEY_SIZE \<longrightarrow> length n = NONCE_SIZE \<longrightarrow>
        fst (encrypt_init_key L k n h) = 1 \<and> view (snd (encrypt_init_key L k n h)) = GReady Enc k n) \<and>
     (\<forall>h k n. view h = GIv Dec 12 \<longrightarrow> length k = KEY_SIZE \<longrightarrow> length n = NONCE_SIZE \<longrightarrow>
        fst (decrypt_init_key L k n h) = 1 \<and> view (snd (decrypt_init_key L k n h)) = GReady Dec k n)"

definition gcm_data_contract ::
  "('e, 'h) evp_cipher \<Rightarrow> ('h \<Rightarrow> gcm_view) \<Rightarrow> gcm_cipher \<Rightarrow> bool" where
  "gcm_data_contract L view G \<longleftrightarrow>
     (\<forall>h k n p. view h = GReady Enc k n \<longrightarrow>
        fst (encrypt_update L p (int (length p)) h) = 1 \<and>
        fst (snd (encrypt_update L p (int (length p)) h)) = gcm_E G k n p \<and>
        view (snd (snd (encrypt_update L p (int (length p)) h))) = GData Enc k n p) \<and>
     (\<forall>h k n p. view h = GData Enc k n p \<longrightarrow>
        fst (encrypt_final L h) = 1 \<and> fst (snd (encrypt_final L h)) = [] \<and>
        view (snd (snd (encrypt_final L h))) = GDone k n p) \<and>
     (\<forall>h k n p. view h = GDone k n p \<longrightarrow>
        fst (ctrl_get_tag L TAG_SIZE h) = 1 \<and>
        fst (snd (ctrl_get_tag L TAG_SIZE h)) = gcm_T G k n (gcm_E G k n p)) \<and>
     (\<forall>h k n c. view h = GReady Dec k n \<longrightarrow>
        fst (decrypt_update L c (int (length c)) h) = 1 \<and>
        fst (snd (decrypt_update L c (int (length c)) h)) = gcm_D G k n c \<and>
        view (snd (snd (decrypt_update L c (int (length c)) h))) = GData Dec k n c) \<and>
     (\<forall>h k n c t. view h = GData Dec k n c \<longrightarrow> length t = TAG_SIZE \<longrightarrow>
        fst (ctrl_set_tag L t h) = 1 \<and> view (snd (ctrl_set_tag L t h)) = GTagged k n c t) \<and>
     (\<forall>h k n c t. view h = GTagged k n c t \<longrightarrow>
        (fst (decrypt_final L h) > 0 \<longleftrightarrow> t = gcm_T G k n c) \<and>
        fst (snd (decrypt_final L h)) = [])"

text \<open>\<open>EVP_CIPHER_CTX_new\<close> returns null only when memory is exhausted.\<close>

definition cipher_memory_ok :: "('e, 'h) evp_cipher \<Rightarrow> bool" where
  "cipher_memory_ok L \<longleftrightarrow> (\<forall>e. fst (cipher_ctx_new L e) \<noteq> None)"

definition gcm_contract ::
  "('e, 'h) evp_cipher \<Rightarrow> ('h \<Rightarrow> gcm_view) \<Rightarrow> gcm_cipher \<Rightarrow> bool" where
  "gcm_contract L view G \<longleftrightarrow>
     gcm_cipher_ok G \<and> gcm_setup_contract L view \<and> gcm_data_contract L view G \<and>
     cipher_memory_ok L"

lemma gcm_contractD:
  assumes "gcm_contract L view G"
  shows "gcm_cipher_ok G" "gcm_setup_contract L view" "gcm_data_contract L view G"
    "cipher_memory_ok L"
  using assms by (simp_all add: gcm_contract_def)

section \<open>Encryption and decryption under the contract\<close>

lemma cipher_ctx_obtained:
  assumes "gcm_contract L view G"
  obtains h e' where "cipher_ctx_new L e = (Some h, e')" and "view h = GNew"
proof -
  obtain h where "fst (cipher_ctx_new L e) = Some h"
    using gcm_contractD(4)[OF assms] by (auto simp: cipher_memory_ok_def)
  moreover from this have "view h = GNew"
    using gcm_contractD(2)[OF assms] by (auto simp: gcm_setup_contract_def)
  ultimately show ?thesis
    using that by (metis prod.collapse)
qed

lemma c_int_NONCE_SIZE [simp]: "c_int NONCE_SIZE = 12"
  by (simp add: NONCE_SIZE_def)

lemma encrypt_body_ok:
  assumes C: "gcm_contract L view G" and h: "view h = GNew"
    and k: "length k = KEY_SIZE" and n: "length n = NONCE_SIZE" and p: "length p < 2 ^ 31"
  shows "encrypt_body L k p n h w =
           (Inr (gcm_E G k n p, gcm_T G k n (gcm_E G k n p)), release CipherCtx w)"
  using gcm_contractD(1-3)[OF C] h k n p
  by (simp add: encrypt_body_def io_run gcm_setup_contract_def gcm_data_contract_def
      gcm_cipher_ok_def split_def)

lemma decrypt_body_ok:
  assumes C: "gcm_contract L view G" and h: "view h = GNew"
    and k: "length k = KEY_SIZE" and n: "length n = NONCE_SIZE"
    and c: "length c < 2 ^ 31" and t: "length t = TAG_SIZE"
  shows "decrypt_body L k c t n h w =
           (if t = gcm_T G k n c then Inr (gcm_D G k n c)
            else Inl (RuntimeError ''GCM tag verification failed''), release CipherCtx w)"
proof -
  let ?h1 = "snd (decrypt_init_key L k n (snd (ctrl_set_ivlen L 12 (snd (decrypt_init_cipher L h)))))"
  let ?h2 = "snd (snd (decrypt_update L c (int (length c)) ?h1))"
  let ?h3 = "snd (ctrl_set_tag L t ?h2)"
  note contract = gcm_contractD(2,3)[OF C]
  have ready: "fst (decrypt_init_cipher L h) = 1"
    "fst (ctrl_set_ivlen L 12 (snd (decrypt_init_cipher L h))) = 1"
    "fst (decrypt_init_key L k n (snd (ctrl_set_ivlen L 12 (snd (decrypt_init_cipher L h))))) = 1"
    "view ?h1 = GReady Dec k n"
    using contract(1) h k n by (simp_all add: gcm_setup_contract_def)
  then have data: "fst (decrypt_update L c (int (length c)) ?h1) = 1"
    "fst (snd (decrypt_update L c (int (length c)) ?h1)) = gcm_D G k n c"
    "fst (ctrl_set_tag L t ?h2) = 1" "view ?h3 = GTagged k n c t"
    using contract(2) t by (simp_all add: gcm_data_contract_def)
  then have "fst (decrypt_final L ?h3) > 0 \<longleftrightarrow> t = gcm_T G k n c"
    and "fst (snd (decrypt_final L ?h3)) = []"
    using contract(2) by (simp_all add: gcm_data_contract_def)
  with ready data n c show ?thesis
    by (auto simp add: decrypt_body_def io_run split_def not_le)
qed

lemma aes_encrypt_ok:
  assumes C: "gcm_contract L view G"
    and k: "length k = KEY_SIZE" and n: "length n = NONCE_SIZE" and p: "length p < 2 ^ 31"
  shows "aes_encrypt L k p n w =
           (Inr (gcm_E G k n p @ gcm_T G k n (gcm_E G k n p)),
            w\<lparr>env := snd (cipher_ctx_new L (env w))\<rparr>)"
proof -
  obtain h e' where h: "cipher_ctx_new L (env w) = (Some h, e')" "view h = GNew"
    using cipher_ctx_obtained[OF C] .
  show ?thesis
    using n h(1)
    by (simp add: aes_encrypt_def io_run encrypt_body_ok[OF C h(2) k n p])
qed

lemma aes_decrypt_ok:
  assumes C: "gcm_contract L view G"
    and k: "length k = KEY_SIZE" and n: "length n = NONCE_SIZE"
    and c: "length c < 2 ^ 31"
  shows "aes_decrypt L k (c @ gcm_T G k n c) n w =
           (Inr (gcm_D G k n c), w\<lparr>env := snd (cipher_ctx_new L (env w))\<rparr>)"
proof -
  obtain h e' where h: "cipher_ctx_new L (env w) = (Some h, e')" "view h = GNew"
    using cipher_ctx_obtained[OF C] .
  have t: "length (gcm_T G k n c) = TAG_SIZE"
    using gcm_contractD(1)[OF C] k n by (simp add: gcm_cipher_ok_def)
  show ?thesis
    using n h(1) t
    by (simp add: aes_decrypt_def io_run decrypt_body_ok[OF C h(2) k n c t] Let_def)
qed

lemma aes_decrypt_forged:
  assumes C: "gcm_contract L view G"
    and k: "length k = KEY_SIZE" and n: "length n = NONCE_SIZE"
    and c: "length c < 2 ^ 31" and t: "length t = TAG_SIZE" and bad: "t \<noteq> gcm_T G k n c"
    and none: "CipherCtx \<notin> set (live w)"
  shows "aes_decrypt L k (c @ t) n w =
           (Inl (RuntimeError ''GCM tag verification failed''),
            w\<lparr>env := snd (cipher_ctx_new L (env w)), double_freed := True\<rparr>)"
proof -
  obtain h e' where h: "cipher_ctx_new L (env w) = (Some h, e')" "view h = GNew"
    using cipher_ctx_obtained[OF C] .
  show ?thesis
    using n h(1) t bad none
    by (simp add: aes_decrypt_def io_run decrypt_body_ok[OF C h(2) k n c t] Let_def release_def)
qed

text \<open>What is accepted: exactly the inputs that end in their own tag.\<close>

lemma aes_decrypt_accepts:
  assumes C: "gcm_contract L view G"
    and k: "length k = KEY_SIZE" and n: "length n = NONCE_SIZE" and x: "length x < 2 ^ 31"
  shows "fst (aes_decrypt L k x n w) = Inr p \<longleftrightarrow>
           (\<exists>c. x = c @ gcm_T G k n c \<and> p = gcm_D G k n c)"
proof (cases "length x < TAG_SIZE")
  case True
  have "length (gcm_T G k n c) = TAG_SIZE" for c
    using gcm_contractD(1)[OF C] k n by (simp add: gcm_cipher_ok_def)
  with True n show ?thesis
    by (auto simp: aes_decrypt_def io_run)
next
  case False
  let ?m = "length x - TAG_SIZE"
  obtain h e' where h: "cipher_ctx_new L (env w) = (Some h, e')" "view h = GNew"
    using cipher_ctx_obtained[OF C] .
  have T: "length (gcm_T G k n c) = TAG_SIZE" for c
    using gcm_contractD(1)[OF C] k n by (simp add: gcm_cipher_ok_def)
  have c: "length (take ?m x) < 2 ^ 31" and t: "length (drop ?m x) = TAG_SIZE"
    using x False by auto
  have "fst (aes_decrypt L k x n w) = Inr p \<longleftrightarrow>
          drop ?m x = gcm_T G k n (take ?m x) \<and> p = gcm_D G k n (take ?m x)"
    using n h(1) False
    by (auto simp add: aes_decrypt_def io_run decrypt_body_ok[OF C h(2) k n c t] Let_def)
  also have "\<dots> \<longleftrightarrow> (\<exists>c. x = c @ gcm_T G k n c \<and> p = gcm_D G k n c)"
    using T by (metis append_take_drop_id append_eq_conv_conj diff_add_inverse2 length_append)
  finally show ?thesis .
qed

section \<open>What the context's owner frees\<close>

lemma heap_run_rethrow [heap_intros]:
  "heap_run (r # A) (bind_io (free_io r) (\<lambda>_. throw_io e)) B A"
  by (rule heap_run_bind [OF heap_run_free heap_run_throw])

lemma encrypt_body_heap: "heap_run [CipherCtx] (encrypt_body L k p n h) [] [CipherCtx]"
  unfolding encrypt_body_def split_def
  by (intro heap_run_bind [OF heap_run_check_rc] heap_run_bind [OF heap_run_free] heap_run_ret)

lemma aes_encrypt_heap: "heap_run [] (aes_encrypt L k p n) [] []"
proof -
  have "heap_run [CipherCtx]
          (bind_io (try_io (encrypt_body L k p n h)
                     (\<lambda>e. bind_io (free_io CipherCtx) (\<lambda>_. throw_io e)))
             (\<lambda>(ciphertext, tag). ret_io (ciphertext @ tag))) [] []" for h
    by (intro heap_run_bind [OF heap_run_try [OF encrypt_body_heap heap_run_rethrow]])
       (simp add: split_def heap_run_ret)
  then show ?thesis
    unfolding aes_encrypt_def
    by (intro heap_run_if heap_run_throw heap_run_acquire) (simp_all add: heap_run_throw)
qed

text \<open>
  Decryption does not leak either, but it frees its context twice on one path: when the tag
  does not verify. \<open>GCM tag verification failed\<close> is the only way to reach the double free.
\<close>

lemma decrypt_body_cases:
  "live w = CipherCtx # R \<Longrightarrow>
     (decrypt_body L k c t n h w = (Inl (RuntimeError ''GCM tag verification failed''), w\<lparr>live := R\<rparr>)) \<or>
     (\<exists>m. decrypt_body L k c t n h w = (Inl (RuntimeError m), w) \<and> m \<noteq> ''GCM tag verification failed'') \<or>
     (\<exists>p. decrypt_body L k c t n h w = (Inr p, w\<lparr>live := R\<rparr>))"
  by (simp add: decrypt_body_def io_run split_def)

lemma aes_decrypt_heap:
  assumes none: "CipherCtx \<notin> set (live w)"
  shows "live (snd (aes_decrypt L k x n w)) = live w"
    and "double_freed (snd (aes_decrypt L k x n w)) \<longleftrightarrow>
           double_freed w \<or>
           fst (aes_decrypt L k x n w) = Inl (RuntimeError ''GCM tag verification failed'')"
proof -
  let ?c = "take (length x - TAG_SIZE) x" and ?t = "drop (length x - TAG_SIZE) x"
  have "live (snd (aes_decrypt L k x n w)) = live w \<and>
        (double_freed (snd (aes_decrypt L k x n w)) \<longleftrightarrow>
           double_freed w \<or>
           fst (aes_decrypt L k x n w) = Inl (RuntimeError ''GCM tag verification failed''))"
  proof (cases "length n \<noteq> NONCE_SIZE \<or> length x < TAG_SIZE")
    case True
    then show ?thesis by (auto simp: aes_decrypt_def io_run)
  next
    case False
    show ?thesis
    proof (cases "fst (cipher_ctx_new L (env w))")
      case None
      with False show ?thesis by (simp add: aes_decrypt_def io_run Let_def)
    next
      case (Some h)
      let ?w = "w\<lparr>env := snd (cipher_ctx_new L (env w)), live := CipherCtx # live w\<rparr>"
      have "live ?w = CipherCtx # live w" by simp
      from decrypt_body_cases[OF this, of L k ?c ?t n h] False Some none show ?thesis
        by (auto simp: aes_decrypt_def io_run Let_def release_def)
    qed
  qed
  then show "live (snd (aes_decrypt L k x n w)) = live w"
    and "double_freed (snd (aes_decrypt L k x n w)) \<longleftrightarrow>
           double_freed w \<or>
           fst (aes_decrypt L k x n w) = Inl (RuntimeError ''GCM tag verification failed'')"
    by blast+
qed

section \<open>Sessions\<close>

lemma random_nonce_length: "fst (random_nonce L w) = Inr n \<Longrightarrow> length n = NONCE_SIZE"
  by (auto simp: random_nonce_def io_run split_def split: if_splits)

lemma random_nonce_heap: "heap_run [] (random_nonce L) [] []"
  unfolding random_nonce_def split_def
  by (intro heap_run_bind [OF heap_run_env] heap_run_if heap_run_throw heap_run_ret)

lemma AESGCM_new_heap: "heap_run A (AESGCM_new key) A A"
  unfolding AESGCM_new_def by (intro heap_run_if heap_run_throw heap_run_ret)

lemma session_encrypt_heap: "heap_run [] (session_encrypt L key p n) [] []"
  unfolding session_encrypt_def
  by (intro heap_run_if heap_run_throw heap_run_bind [OF AESGCM_new_heap] aes_encrypt_heap)

lemma session_encrypt_eq:
  "length key = KEY_SIZE \<Longrightarrow> session_encrypt L key p n = aes_encrypt L key p n"
  by (auto simp: session_encrypt_def AESGCM_new_def KEY_SIZE_def)

lemma session_decrypt_eq:
  "length key = KEY_SIZE \<Longrightarrow> session_decrypt L key x n = aes_decrypt L key x n"
  by (auto simp: session_decrypt_def AESGCM_new_def KEY_SIZE_def)

lemma session_encrypt_Inr_key:
  "fst (session_encrypt L key p n w) = Inr x \<Longrightarrow> length key = KEY_SIZE"
  by (auto simp: session_encrypt_def AESGCM_new_def io_run split: if_splits)

lemma session_encrypt_Inr_nonce:
  "fst (session_encrypt L key p n w) = Inr x \<Longrightarrow> length n = NONCE_SIZE"
  by (auto simp: session_encrypt_def AESGCM_new_def aes_encrypt_def io_run split: if_splits)

end
