(* ===== verification/Identity.thy ===== *)
theory Identity
  imports Crypto
begin

text \<open>
  The Ed25519 part of \<^verbatim>\<open>identity.cpp\<close>: key generation, signing, verification,
  fingerprints, and the password key derivation. The EVP_PKEY functions are the fields of
  \<open>evp_pkey\<close>. The struct Identity is the pair of fields \<open>id_pub\<close>, \<open>id_priv\<close> of the
  process state: the sources have one Identity object per process, the engine's, and pass
  it by reference, so that its changes survive an exception.
\<close>

record ('e, 'h) evp_pkey =
  keygen_ctx_new :: "'e \<Rightarrow> 'h option \<times> 'e"
  keygen_init :: "'h \<Rightarrow> int \<times> 'h"
  pkey_keygen :: "'h \<Rightarrow> 'e \<Rightarrow> (int \<times> 'h) \<times> 'e"
  raw_public_key_len :: "'h \<Rightarrow> int \<times> nat"
  raw_private_key_len :: "'h \<Rightarrow> int \<times> nat"
  raw_public_key :: "'h \<Rightarrow> int \<times> bytes"
  raw_private_key :: "'h \<Rightarrow> int \<times> bytes"
  pbkdf2_hmac :: "bytes \<Rightarrow> int \<Rightarrow> bytes \<Rightarrow> int \<Rightarrow> int \<Rightarrow> int \<Rightarrow> int \<times> bytes"
  new_raw_private_key :: "bytes \<Rightarrow> nat \<Rightarrow> 'e \<Rightarrow> 'h option \<times> 'e"
  new_raw_public_key :: "bytes \<Rightarrow> nat \<Rightarrow> 'e \<Rightarrow> 'h option \<times> 'e"
  md_ctx_new :: "'e \<Rightarrow> 'h option \<times> 'e"
  digest_sign_init :: "'h \<Rightarrow> 'h \<Rightarrow> int \<times> 'h"
  digest_sign_len :: "bytes \<Rightarrow> 'h \<Rightarrow> int \<times> nat \<times> 'h"
  digest_sign :: "bytes \<Rightarrow> nat \<Rightarrow> 'h \<Rightarrow> int \<times> bytes \<times> 'h"
  digest_verify_init :: "'h \<Rightarrow> 'h \<Rightarrow> int \<times> 'h"
  digest_verify :: "bytes \<Rightarrow> bytes \<Rightarrow> 'h \<Rightarrow> int"
  sha256 :: "bytes \<Rightarrow> bytes"

record 'e ident_world = "'e world" +
  id_pub :: bytes
  id_priv :: bytes

definition is_loaded :: "('e, 'x) ident_world_scheme \<Rightarrow> bool" where
  "is_loaded w \<longleftrightarrow> id_pub w \<noteq> [] \<and> id_priv w \<noteq> []"

section \<open>Random bytes and password keys\<close>

definition random_bytes :: "('e, 'h) evp_cipher \<Rightarrow> nat \<Rightarrow> (('e, 'x) world_scheme, bytes) io" where
  "random_bytes L n =
     bind_io (env_io (rand_bytes L (c_int n))) (\<lambda>(rc, out).
       if rc \<noteq> 1 then throw_io (RuntimeError ''RAND_bytes failed'')
       else ret_io (fill n out))"

definition pbkdf2_sha256 ::
  "('e, 'h) evp_pkey \<Rightarrow> bytes \<Rightarrow> bytes \<Rightarrow> 32 word \<Rightarrow> nat \<Rightarrow> ('s, bytes) io" where
  "pbkdf2_sha256 P password salt iters out_len =
     (let (rc, out) = pbkdf2_hmac P password (c_int (length password)) salt (c_int (length salt))
                        (sint iters) (c_int out_len) in
      if rc \<noteq> 1 then throw_io (RuntimeError ''PBKDF2 failed'')
      else ret_io (fill out_len out))"

section \<open>Key generation\<close>

definition gen_ed25519 :: "('e, 'h) evp_pkey \<Rightarrow> (('e, 'x) ident_world_scheme, unit) io" where
  "gen_ed25519 P =
     bind_io (acquire_io PkeyCtx (keygen_ctx_new P)) (\<lambda>r. case r of
       None \<Rightarrow> throw_io (RuntimeError ''EVP_PKEY_CTX_new_id ED25519 failed'')
     | Some kctx \<Rightarrow>
         (let (rc, kctx) = keygen_init P kctx in
          bind_io (check_or_free [PkeyCtx] (rc > 0) ''keygen_init failed'') (\<lambda>_.
          bind_io (env_io (pkey_keygen P kctx)) (\<lambda>(rc, pkey).
          bind_io (check_or_free [PkeyCtx] (rc > 0) ''keygen failed'') (\<lambda>_.
          bind_io (own_io Pkey) (\<lambda>_.
          bind_io (free_io PkeyCtx) (\<lambda>_.
          (let (rc, pub_len) = raw_public_key_len P pkey in
           bind_io (check_or_free [Pkey] (rc > 0) ''get_raw_public_key len failed'') (\<lambda>_.
          (let (rc, priv_len) = raw_private_key_len P pkey in
           bind_io (check_or_free [Pkey] (rc > 0) ''get_raw_private_key len failed'') (\<lambda>_.
           bind_io (modify_io (\<lambda>w. w\<lparr>id_pub := resize_bytes pub_len (id_pub w),
                                     id_priv := resize_bytes priv_len (id_priv w)\<rparr>)) (\<lambda>_.
          (let (rc, out) = raw_public_key P pkey in
           bind_io (modify_io (\<lambda>w. w\<lparr>id_pub := write_buf (id_pub w) out\<rparr>)) (\<lambda>_.
           bind_io (check_or_free [Pkey] (rc > 0) ''get_raw_public_key failed'') (\<lambda>_.
          (let (rc, out) = raw_private_key P pkey in
           bind_io (modify_io (\<lambda>w. w\<lparr>id_priv := write_buf (id_priv w) out\<rparr>)) (\<lambda>_.
           bind_io (check_or_free [Pkey] (rc > 0) ''get_raw_private_key failed'') (\<lambda>_.
           free_io Pkey))))))))))))))))))"

section \<open>Signing and verification\<close>

definition ed_sign :: "('e, 'h) evp_pkey \<Rightarrow> bytes \<Rightarrow> bytes \<Rightarrow> (('e, 'x) world_scheme, bytes) io" where
  "ed_sign P priv32 msg =
     bind_io (acquire_io Pkey (new_raw_private_key P priv32 (length priv32))) (\<lambda>r. case r of
       None \<Rightarrow> throw_io (RuntimeError ''new_raw_private_key failed'')
     | Some sk \<Rightarrow>
         bind_io (acquire_io MdCtx (md_ctx_new P)) (\<lambda>r. case r of
           None \<Rightarrow> bind_io (free_io Pkey) (\<lambda>_. throw_io (RuntimeError ''MD_CTX_new failed''))
         | Some mdctx \<Rightarrow>
             (let (rc1, md1) = digest_sign_init P mdctx sk;
                  (rc2, siglen, md2) = digest_sign_len P msg md1 in
              bind_io (check_or_free [MdCtx, Pkey] (\<not> (rc1 \<le> 0 \<or> rc2 \<le> 0)) ''sign precompute failed'') (\<lambda>_.
              (let (rc3, out, _) = digest_sign P msg siglen md2 in
               bind_io (check_or_free [MdCtx, Pkey] (rc3 > 0) ''sign failed'') (\<lambda>_.
               bind_io (free_io MdCtx) (\<lambda>_.
               bind_io (free_io Pkey) (\<lambda>_.
               ret_io (resize_bytes (length out) (fill siglen out))))))))))"

definition ed_verify ::
  "('e, 'h) evp_pkey \<Rightarrow> bytes \<Rightarrow> bytes \<Rightarrow> bytes \<Rightarrow> (('e, 'x) world_scheme, bool) io" where
  "ed_verify P pub32 msg sig =
     bind_io (acquire_io Pkey (new_raw_public_key P pub32 (length pub32))) (\<lambda>r. case r of
       None \<Rightarrow> ret_io False
     | Some pk \<Rightarrow>
         bind_io (acquire_io MdCtx (md_ctx_new P)) (\<lambda>r. case r of
           None \<Rightarrow> bind_io (free_io Pkey) (\<lambda>_. ret_io False)
         | Some mdctx \<Rightarrow>
             (let (rc1, md1) = digest_verify_init P mdctx pk;
                  ok = (rc1 > 0 \<and> digest_verify P sig msg md1 > 0) in
              bind_io (free_io MdCtx) (\<lambda>_.
              bind_io (free_io Pkey) (\<lambda>_.
              ret_io ok)))))"

section \<open>Fingerprints\<close>

definition HEX :: string where "HEX = ''0123456789abcdef''"

definition hex_byte :: "byte \<Rightarrow> string" where
  "hex_byte b = [HEX ! unat (drop_bit 4 b), HEX ! unat (b AND 15)]"

definition fingerprint_hex :: "('e, 'h) evp_pkey \<Rightarrow> bytes \<Rightarrow> string" where
  "fingerprint_hex P pub32 = concat (map hex_byte (fill 32 (sha256 P pub32)))"

section \<open>Every path frees what it allocated\<close>

lemma heap_run_check_or_free2 [heap_intros]:
  "heap_run [r, r'] (check_or_free [r, r'] b msg) [r, r'] []"
  using heap_run_check_or_free [where rs = "[r, r']" and A = "[]"] by simp

lemma random_bytes_heap: "heap_run [] (random_bytes L n) [] []"
  unfolding random_bytes_def split_def
  by (intro heap_run_bind [OF heap_run_env] heap_run_if heap_run_throw heap_run_ret)

lemma random_bytes_length: "random_bytes L n w = (Inr bs, w') \<Longrightarrow> length bs = n"
  by (auto simp: random_bytes_def io_run split_def split: if_splits)

lemma pbkdf2_heap: "heap_run [] (pbkdf2_sha256 P pw salt iters n) [] []"
  unfolding pbkdf2_sha256_def split_def Let_def
  by (intro heap_run_if heap_run_throw heap_run_ret)

lemma gen_ed25519_heap: "heap_run [] (gen_ed25519 P) [] []"
proof -
  have free_kctx: "heap_run [Pkey, PkeyCtx] (free_io PkeyCtx) [Pkey] C" for C
    using heap_run_free_any [of PkeyCtx "[Pkey, PkeyCtx]"] by simp
  show ?thesis
    unfolding gen_ed25519_def
  proof (rule heap_run_acquire, goal_cases)
    case 1
    show ?case by (simp add: heap_run_throw)
  next
    case (2 h)
    show ?case
      unfolding option.case Let_def split_def
      by (intro heap_run_bind [OF heap_run_check_or_free1] heap_run_bind [OF heap_run_env]
          heap_run_bind [OF heap_run_own] heap_run_bind [OF free_kctx]
          heap_run_bind [OF heap_run_modify] heap_run_free) simp_all
  qed
qed

lemma ed_sign_heap: "heap_run [] (ed_sign P priv32 msg) [] []"
  unfolding ed_sign_def
proof (rule heap_run_acquire, goal_cases)
  case 1
  show ?case by (simp add: heap_run_throw)
next
  case (2 sk)
  show ?case
    unfolding option.case
  proof (rule heap_run_acquire, goal_cases)
    case 1
    show ?case by (simp add: heap_run_rethrow)
  next
    case (2 md)
    show ?case
      unfolding option.case Let_def split_def
      by (intro heap_run_bind [OF heap_run_check_or_free2] heap_run_bind [OF heap_run_free]
          heap_run_ret)
  qed
qed

lemma ed_verify_heap: "heap_run [] (ed_verify P pub32 msg sig) [] []"
  unfolding ed_verify_def
proof (rule heap_run_acquire, goal_cases)
  case 1
  show ?case by (simp add: heap_run_ret)
next
  case (2 pk)
  show ?case
    unfolding option.case
  proof (rule heap_run_acquire, goal_cases)
    case 1
    show ?case by (auto intro: heap_run_bind [OF heap_run_free] heap_run_ret)
  next
    case (2 md)
    show ?case
      unfolding option.case Let_def split_def
      by (intro heap_run_bind [OF heap_run_free] heap_run_ret)
  qed
qed

text \<open>Verification never throws.\<close>

lemma ed_verify_total: "\<exists>b. fst (ed_verify P pub32 msg sig w) = Inr b"
  by (auto simp: ed_verify_def io_run Let_def split_def split: option.splits)

section \<open>Hexadecimal fingerprints\<close>

lemma hex_byte_length [simp]: "length (hex_byte b) = 2"
  by (simp add: hex_byte_def)

lemma fingerprint_length: "length (fingerprint_hex P pub) = 64"
proof -
  have "length (concat (map hex_byte bs)) = 2 * length bs" for bs
    by (induction bs) simp_all
  then show ?thesis by (simp add: fingerprint_hex_def)
qed

lemma unat_byte_bound [simp]: "unat b < 256" for b :: "8 word"
  using unsigned_less [of b] by simp

lemma unat_high_nibble: "unat (drop_bit 4 b) = unat b div 16" for b :: "8 word"
  by (simp only: unat_drop_bit_eq drop_bit_eq_div) (simp add: unat_div)

lemma unat_low_nibble: "unat (b AND 15) = unat b mod 16" for b :: "8 word"
proof -
  have "(15::nat) = mask 4" by (simp add: mask_eq_exp_minus_1)
  then have "unat b AND 15 = unat b mod 16"
    using take_bit_eq_mask [of 4 "unat b"] by (simp add: take_bit_eq_mod)
  then show ?thesis by (simp add: unsigned_and_eq)
qed

lemma HEX_nth_eq: "i < 16 \<Longrightarrow> j < 16 \<Longrightarrow> HEX ! i = HEX ! j \<longleftrightarrow> i = j"
  by (rule nth_eq_iff_index_eq) (simp_all add: HEX_def)

text \<open>Two digits name one byte.\<close>

lemma hex_byte_inject: "hex_byte b = hex_byte c \<longleftrightarrow> b = c"
proof
  assume eq: "hex_byte b = hex_byte c"
  have "unat b div 16 < 16" "unat c div 16 < 16"
    using unat_byte_bound [of b] unat_byte_bound [of c] by linarith+
  with eq have "unat b div 16 = unat c div 16" and "unat b mod 16 = unat c mod 16"
    by (simp_all add: hex_byte_def unat_high_nibble unat_low_nibble HEX_nth_eq)
  then have "unat b = unat c"
    by (metis div_mult_mod_eq)
  then show "b = c" by (simp add: word_unat_eq_iff)
qed simp

lemma hex_string_inject:
  "length bs = length cs \<Longrightarrow> concat (map hex_byte bs) = concat (map hex_byte cs) \<longleftrightarrow> bs = cs"
  by (induction bs cs rule: list_induct2) (simp_all add: hex_byte_inject)

lemma fingerprint_eq_iff:
  "fingerprint_hex P a = fingerprint_hex P b \<longleftrightarrow> fill 32 (sha256 P a) = fill 32 (sha256 P b)"
  by (simp add: fingerprint_hex_def hex_string_inject)

lemma hex_byte_digits: "set (hex_byte b) \<subseteq> set HEX"
proof -
  have "unat b div 16 < 16" using unat_byte_bound [of b] by linarith
  moreover have "length HEX = 16" by (simp add: HEX_def)
  ultimately show ?thesis
    by (simp add: hex_byte_def unat_high_nibble unat_low_nibble)
qed

lemma fingerprint_digits: "set (fingerprint_hex P a) \<subseteq> set HEX"
  using hex_byte_digits by (auto simp: fingerprint_hex_def)

section \<open>The documented behaviour of Ed25519 in EVP\<close>

text \<open>
  \<open>ed_view\<close> is what an object of the library holds: a private or a public key, or a
  digest context initialised for signing or verifying with one. \<open>S\<close>, \<open>V\<close> and
  \<open>pub_of\<close> are the signature scheme (RFC 8032): keys of 32 bytes, signatures of 64.
\<close>

datatype ed_view = EdPriv bytes | EdPub bytes | MdSign bytes | MdVerify bytes | EdOther

record ed_scheme =
  ed_S :: "bytes \<Rightarrow> bytes \<Rightarrow> bytes"
  ed_V :: "bytes \<Rightarrow> bytes \<Rightarrow> bytes \<Rightarrow> bool"
  ed_pub_of :: "bytes \<Rightarrow> bytes"

definition ed_scheme_ok :: "ed_scheme \<Rightarrow> bool" where
  "ed_scheme_ok Z \<longleftrightarrow>
     (\<forall>s. length s = 32 \<longrightarrow> length (ed_pub_of Z s) = 32 \<and>
        (\<forall>m. length (ed_S Z s m) = 64 \<and> ed_V Z (ed_pub_of Z s) m (ed_S Z s m)))"

definition ed_sign_contract ::
  "('e, 'h) evp_pkey \<Rightarrow> ('h \<Rightarrow> ed_view) \<Rightarrow> ed_scheme \<Rightarrow> bool" where
  "ed_sign_contract P view Z \<longleftrightarrow>
     (\<forall>s e. length s = 32 \<longrightarrow>
        (\<exists>h. fst (new_raw_private_key P s 32 e) = Some h \<and> view h = EdPriv s)) \<and>
     (\<forall>md sk s. view sk = EdPriv s \<longrightarrow>
        fst (digest_sign_init P md sk) > 0 \<and> view (snd (digest_sign_init P md sk)) = MdSign s) \<and>
     (\<forall>md m s. view md = MdSign s \<longrightarrow>
        fst (digest_sign_len P m md) > 0 \<and> fst (snd (digest_sign_len P m md)) = 64 \<and>
        view (snd (snd (digest_sign_len P m md))) = MdSign s) \<and>
     (\<forall>md m s. view md = MdSign s \<longrightarrow>
        fst (digest_sign P m 64 md) > 0 \<and> fst (snd (digest_sign P m 64 md)) = ed_S Z s m)"

definition ed_verify_contract ::
  "('e, 'h) evp_pkey \<Rightarrow> ('h \<Rightarrow> ed_view) \<Rightarrow> ed_scheme \<Rightarrow> bool" where
  "ed_verify_contract P view Z \<longleftrightarrow>
     (\<forall>p e. length p = 32 \<longrightarrow>
        (\<exists>h. fst (new_raw_public_key P p 32 e) = Some h \<and> view h = EdPub p)) \<and>
     (\<forall>p n e. length p \<noteq> 32 \<longrightarrow> fst (new_raw_public_key P p n e) = None) \<and>
     (\<forall>md pk p. view pk = EdPub p \<longrightarrow>
        fst (digest_verify_init P md pk) > 0 \<and> view (snd (digest_verify_init P md pk)) = MdVerify p) \<and>
     (\<forall>md p m sig. view md = MdVerify p \<longrightarrow> (digest_verify P sig m md > 0 \<longleftrightarrow> ed_V Z p m sig))"

definition ed_keygen_contract ::
  "('e, 'h) evp_pkey \<Rightarrow> ('h \<Rightarrow> ed_view) \<Rightarrow> ed_scheme \<Rightarrow> bool" where
  "ed_keygen_contract P view Z \<longleftrightarrow>
     (\<forall>e h. fst (keygen_ctx_new P e) = Some h \<longrightarrow>
        fst (keygen_init P h) > 0 \<and>
        (\<forall>e'. fst (fst (pkey_keygen P (snd (keygen_init P h)) e')) > 0 \<longrightarrow>
           (\<exists>s. length s = 32 \<and> view (snd (fst (pkey_keygen P (snd (keygen_init P h)) e'))) = EdPriv s))) \<and>
     (\<forall>k s. view k = EdPriv s \<longrightarrow>
        raw_public_key_len P k = (1, 32) \<and> raw_private_key_len P k = (1, 32) \<and>
        raw_public_key P k = (1, ed_pub_of Z s) \<and> raw_private_key P k = (1, s))"

definition ed_contract ::
  "('e, 'h) evp_pkey \<Rightarrow> ('h \<Rightarrow> ed_view) \<Rightarrow> ed_scheme \<Rightarrow> bool" where
  "ed_contract P view Z \<longleftrightarrow>
     ed_scheme_ok Z \<and> ed_sign_contract P view Z \<and> ed_verify_contract P view Z \<and>
     ed_keygen_contract P view Z \<and> (\<forall>e. fst (md_ctx_new P e) \<noteq> None)"

lemma ed_contractD:
  assumes "ed_contract P view Z"
  shows "ed_scheme_ok Z" "ed_sign_contract P view Z" "ed_verify_contract P view Z"
    "ed_keygen_contract P view Z" "fst (md_ctx_new P e) \<noteq> None"
  using assms by (simp_all add: ed_contract_def)

lemma ed_sign_ok:
  assumes C: "ed_contract P view Z" and s: "length s = 32"
  shows "fst (ed_sign P s m w) = Inr (ed_S Z s m)"
proof -
  obtain sk where sk: "fst (new_raw_private_key P s 32 (env w)) = Some sk" "view sk = EdPriv s"
    using ed_contractD(2)[OF C] s unfolding ed_sign_contract_def by blast
  let ?e = "snd (new_raw_private_key P s 32 (env w))"
  obtain md where md: "fst (md_ctx_new P ?e) = Some md"
    using ed_contractD(5)[OF C] by blast
  let ?md1 = "snd (digest_sign_init P md sk)"
  let ?md2 = "snd (snd (digest_sign_len P m ?md1))"
  have i: "fst (digest_sign_init P md sk) > 0" "view ?md1 = MdSign s"
    using ed_contractD(2)[OF C] sk(2) unfolding ed_sign_contract_def by blast+
  have l: "fst (digest_sign_len P m ?md1) > 0" "fst (snd (digest_sign_len P m ?md1)) = 64"
    "view ?md2 = MdSign s"
    using ed_contractD(2)[OF C] i(2) unfolding ed_sign_contract_def by blast+
  have d: "fst (digest_sign P m 64 ?md2) > 0" "fst (snd (digest_sign P m 64 ?md2)) = ed_S Z s m"
    using ed_contractD(2)[OF C] l(3) unfolding ed_sign_contract_def by blast+
  have "length (ed_S Z s m) = 64"
    using ed_contractD(1)[OF C] s by (simp add: ed_scheme_ok_def)
  then show ?thesis
    using sk(1) md i(1) l(1,2) d s
    by (simp add: ed_sign_def io_run Let_def split_def check_or_free_def not_le resize_bytes_def)
qed

lemma ed_verify_ok:
  assumes C: "ed_contract P view Z"
  shows "fst (ed_verify P p m sig w) = Inr (length p = 32 \<and> ed_V Z p m sig)"
proof (cases "length p = 32")
  case False
  then have "fst (new_raw_public_key P p (length p) (env w)) = None"
    using ed_contractD(3)[OF C] unfolding ed_verify_contract_def by blast
  with False show ?thesis by (simp add: ed_verify_def io_run)
next
  case True
  then obtain pk where pk: "fst (new_raw_public_key P p 32 (env w)) = Some pk" "view pk = EdPub p"
    using ed_contractD(3)[OF C] unfolding ed_verify_contract_def by blast
  let ?e = "snd (new_raw_public_key P p 32 (env w))"
  obtain md where md: "fst (md_ctx_new P ?e) = Some md"
    using ed_contractD(5)[OF C] by blast
  let ?md1 = "snd (digest_verify_init P md pk)"
  have i: "fst (digest_verify_init P md pk) > 0" "view ?md1 = MdVerify p"
    using ed_contractD(3)[OF C] pk(2) unfolding ed_verify_contract_def by blast+
  have v: "digest_verify P sig m ?md1 > 0 \<longleftrightarrow> ed_V Z p m sig"
    using ed_contractD(3)[OF C] i(2) unfolding ed_verify_contract_def by blast
  show ?thesis
    using True pk(1) md i(1) v
    by (simp add: ed_verify_def io_run Let_def split_def)
qed

lemma gen_ed25519_ok:
  assumes C: "ed_contract P view Z" and gen: "gen_ed25519 P w = (Inr (), w')"
  shows "length (id_priv w') = 32" and "id_pub w' = ed_pub_of Z (id_priv w')"
proof -
  obtain k where k: "fst (keygen_ctx_new P (env w)) = Some k"
    using gen by (cases "fst (keygen_ctx_new P (env w))") (auto simp: gen_ed25519_def io_run)
  let ?e = "snd (keygen_ctx_new P (env w))"
  let ?g = "pkey_keygen P (snd (keygen_init P k)) ?e"
  have rc: "fst (keygen_init P k) > 0" "fst (fst ?g) > 0"
    using gen k
    by (auto simp: gen_ed25519_def io_run Let_def split_def check_or_free_def split: if_splits)
  obtain s where s: "length s = 32" "view (snd (fst ?g)) = EdPriv s"
    using ed_contractD(4)[OF C] k rc(2) unfolding ed_keygen_contract_def by blast
  have raw: "raw_public_key_len P (snd (fst ?g)) = (1, 32)"
    "raw_private_key_len P (snd (fst ?g)) = (1, 32)"
    "raw_public_key P (snd (fst ?g)) = (1, ed_pub_of Z s)"
    "raw_private_key P (snd (fst ?g)) = (1, s)"
    using ed_contractD(4)[OF C] s(2) unfolding ed_keygen_contract_def by blast+
  have "length (ed_pub_of Z s) = 32"
    using ed_contractD(1)[OF C] s(1) by (simp add: ed_scheme_ok_def)
  with gen k rc raw s(1) have "id_priv w' = s \<and> id_pub w' = ed_pub_of Z s"
    by (auto simp: gen_ed25519_def io_run Let_def split_def check_or_free_def release_def
        split: if_splits)
  with s(1) show "length (id_priv w') = 32" and "id_pub w' = ed_pub_of Z (id_priv w')"
    by simp_all
qed

end
