(* ===== verification/Profile.thy ===== *)
theory Profile
  imports Identity
begin

text \<open>
  The identity file of \<^verbatim>\<open>identity.cpp\<close>: \<open>create_profile\<close> and \<open>load_profile\<close>, with the parts of
  \<open>std::ifstream\<close> they use. \<open>fs\<close> is the file system. The file's layout is the one
  \<^verbatim>\<open>identity.h\<close> documents.
\<close>

section \<open>Network byte order\<close>

text \<open>The four bytes of \<open>htonl(x)\<close> in memory, and \<open>ntohl\<close> of four bytes.\<close>

definition be32 :: "32 word \<Rightarrow> bytes" where
  "be32 x = [ucast (drop_bit 24 x), ucast (drop_bit 16 x), ucast (drop_bit 8 x), ucast x]"

definition ntohl :: "bytes \<Rightarrow> 32 word" where
  "ntohl bs = foldl (\<lambda>acc b. push_bit 8 acc OR ucast b) 0 bs"

section \<open>Input streams\<close>

text \<open>
  An input stream is what is left to read and whether no read has failed. A read of more
  bytes than are left stores those that are left and fails; a read on a failed stream
  stores nothing.
\<close>

record istream =
  is_rest :: bytes
  is_good :: bool

definition stream_read :: "bytes \<Rightarrow> istream \<Rightarrow> bytes \<times> istream" where
  "stream_read buf f =
     (let n = length buf in
      if \<not> is_good f then (buf, f)
      else if n \<le> length (is_rest f)
      then (take n (is_rest f), f\<lparr>is_rest := drop n (is_rest f)\<rparr>)
      else (write_buf buf (is_rest f), f\<lparr>is_rest := [], is_good := False\<rparr>))"

text \<open>\<open>uint32_t v=0; f.read((char*)&v, 4); v = ntohl(v);\<close> and \<open>std::vector<uint8_t> v(n); f.read(...)\<close>.\<close>

definition read_u32 :: "istream \<Rightarrow> 32 word \<times> istream" where
  "read_u32 f = (let (b, f') = stream_read [0, 0, 0, 0] f in (ntohl b, f'))"

definition read_vec :: "nat \<Rightarrow> istream \<Rightarrow> bytes \<times> istream" where
  "read_vec n f = stream_read (replicate n 0) f"

section \<open>Writing and reading a profile\<close>

definition FILE_VERSION :: "32 word" where "FILE_VERSION = 1"

definition PBKDF2_ITERS :: "32 word" where "PBKDF2_ITERS = 200000"

definition profile_magic :: bytes where "profile_magic = bytes_of ''E2EEID01''"

record 'e fs =
  fs_exists :: "string \<Rightarrow> 'e \<Rightarrow> (string + bool) \<times> 'e"
  fs_open_read :: "string \<Rightarrow> 'e \<Rightarrow> bytes option \<times> 'e"
  fs_open_trunc :: "string \<Rightarrow> 'e \<Rightarrow> bool \<times> 'e"
  fs_write :: "string \<Rightarrow> bytes \<Rightarrow> 'e \<Rightarrow> bool \<times> 'e"

text \<open>
  The bytes \<open>create_profile\<close> passes to \<open>f.write\<close>, in its order. \<open>fs_write\<close> is the
  stream after these writes: whether it is still good, and the file once it is closed.
\<close>

definition profile_bytes :: "32 word \<Rightarrow> bytes \<Rightarrow> bytes \<Rightarrow> bytes \<Rightarrow> bytes \<Rightarrow> bytes" where
  "profile_bytes iters salt nonce pub ct =
     profile_magic @ be32 FILE_VERSION @ be32 iters @
     be32 (c_uint32 (length salt)) @ salt @
     be32 (c_uint32 (length nonce)) @ nonce @
     be32 (c_uint32 (length pub)) @ pub @
     be32 (c_uint32 (length ct)) @ ct"

definition create_profile ::
  "('e, 'h) evp_cipher \<Rightarrow> ('e, 'h) evp_pkey \<Rightarrow> 'e fs \<Rightarrow> string \<Rightarrow> bytes
    \<Rightarrow> (('e, 'x) ident_world_scheme, unit) io" where
  "create_profile L P F path password =
     bind_io (gen_ed25519 P) (\<lambda>_.
     bind_io (random_bytes L 16) (\<lambda>salt.
     bind_io (pbkdf2_sha256 P password salt PBKDF2_ITERS 32) (\<lambda>aes_key.
     bind_io (random_bytes L NONCE_SIZE) (\<lambda>nonce.
     bind_io (AESGCM_new aes_key) (\<lambda>crypto.
     bind_io (get_io id_priv) (\<lambda>priv.
     bind_io (aes_encrypt L crypto priv nonce) (\<lambda>ct.
     bind_io (env_io (fs_open_trunc F path)) (\<lambda>opened.
     bind_io (guard_io opened (RuntimeError ''open profile for write failed'')) (\<lambda>_.
     bind_io (get_io id_pub) (\<lambda>pub.
     bind_io (env_io (fs_write F path (profile_bytes PBKDF2_ITERS salt nonce pub ct))) (\<lambda>good.
     guard_io good (RuntimeError ''write profile failed''))))))))))))"

text \<open>
  \<open>load_profile\<close>. \<open>junk\<close> is what the uninitialised array \<open>magic\<close> holds before the
  first read. \<open>out.pub\<close> is assigned in the middle, before the checks that follow it.
\<close>

definition load_profile ::
  "('e, 'h) evp_cipher \<Rightarrow> ('e, 'h) evp_pkey \<Rightarrow> 'e fs \<Rightarrow> bytes \<Rightarrow> string \<Rightarrow> bytes
    \<Rightarrow> (('e, 'x) ident_world_scheme, unit) io" where
  "load_profile L P F junk path password =
     bind_io (env_io (fs_open_read F path)) (\<lambda>r. case r of
       None \<Rightarrow> throw_io (RuntimeError ''open profile for read failed'')
     | Some content \<Rightarrow>
     (let (magic, f) = stream_read (fill 8 junk) \<lparr>is_rest = content, is_good = True\<rparr> in
      bind_io (guard_io (magic = profile_magic) (RuntimeError ''bad magic'')) (\<lambda>_.
     (let (v, f) = read_u32 f in
      bind_io (guard_io (v = FILE_VERSION) (RuntimeError ''unsupported version'')) (\<lambda>_.
     (let (it, f) = read_u32 f; (sl, f) = read_u32 f in
      bind_io (guard_io (\<not> (sl = 0 \<or> sl > 1024)) (RuntimeError ''profile corrupt (salt)'')) (\<lambda>_.
     (let (salt, f) = read_vec (unat sl) f; (nl, f) = read_u32 f in
      bind_io (guard_io (unat nl = NONCE_SIZE) (RuntimeError ''profile corrupt (nonce)'')) (\<lambda>_.
     (let (nonce, f) = read_vec (unat nl) f; (pl, f) = read_u32 f in
      bind_io (guard_io (pl = 32) (RuntimeError ''profile corrupt (pub)'')) (\<lambda>_.
      bind_io (get_io (\<lambda>w. stream_read (resize_bytes (unat pl) (id_pub w)) f)) (\<lambda>(pub, f).
      bind_io (modify_io (\<lambda>w. w\<lparr>id_pub := pub\<rparr>)) (\<lambda>_.
     (let (cl, f) = read_u32 f in
      bind_io (guard_io (\<not> (unat cl < TAG_SIZE \<or> cl > 4096)) (RuntimeError ''profile corrupt (ct)'')) (\<lambda>_.
     (let (ct, f) = read_vec (unat cl) f in
      bind_io (guard_io (is_good f) (RuntimeError ''read profile failed'')) (\<lambda>_.
      bind_io (pbkdf2_sha256 P password salt it 32) (\<lambda>aes_key.
      bind_io (AESGCM_new aes_key) (\<lambda>crypto.
      bind_io (aes_decrypt L crypto ct nonce) (\<lambda>priv.
      modify_io (\<lambda>w. w\<lparr>id_priv := priv\<rparr>)))))))))))))))))))))"

section \<open>Byte order and stream lemmas\<close>

lemma be32_length [simp]: "length (be32 x) = 4"
  by (simp add: be32_def)

lemma ntohl_be32 [simp]: "ntohl (be32 x) = x"
proof (rule bit_word_eqI)
  fix n
  assume "n < LENGTH(32)"
  then consider "n < 8" | "8 \<le> n" "n < 16" | "16 \<le> n" "n < 24" | "24 \<le> n" "n < 32"
    by fastforce
  then show "bit (ntohl (be32 x)) n \<longleftrightarrow> bit x n"
    by cases (auto simp add: ntohl_def be32_def bit_simps)
qed

lemma be32_ntohl4: "be32 (ntohl [a, b, c, d]) = [a, b, c, d]"
  unfolding ntohl_def be32_def
  by (simp; intro conjI; rule bit_word_eqI) (auto simp add: bit_simps dest: bit_imp_le_length)

lemma be32_ntohl [simp]: "length bs = 4 \<Longrightarrow> be32 (ntohl bs) = bs"
  by (auto simp: numeral_eq_Suc length_Suc_conv be32_ntohl4)

lemma unat_c_uint32 [simp]: "n < 2 ^ 32 \<Longrightarrow> unat (c_uint32 n) = n"
  by (simp add: c_uint32_def unat_of_nat)

lemma c_uint32_unat [simp]: "c_uint32 (unat x) = x"
  by (simp add: c_uint32_def)

lemma stream_read_length [simp]: "length (fst (stream_read buf f)) = length buf"
  by (simp add: stream_read_def Let_def)

lemma stream_read_ok:
  "is_good f \<Longrightarrow> is_rest f = a @ r \<Longrightarrow> length a = length buf \<Longrightarrow>
     stream_read buf f = (a, f\<lparr>is_rest := r\<rparr>)"
  by (simp add: stream_read_def Let_def)

lemma stream_read_goodD:
  "is_good (snd (stream_read buf f)) \<Longrightarrow>
     is_good f \<and> is_rest f = fst (stream_read buf f) @ is_rest (snd (stream_read buf f))"
  by (auto simp: stream_read_def Let_def split: if_splits)

lemma read_u32_ok:
  "is_good f \<Longrightarrow> is_rest f = be32 x @ r \<Longrightarrow> read_u32 f = (x, f\<lparr>is_rest := r\<rparr>)"
  by (simp add: read_u32_def stream_read_ok [where a = "be32 x"])

lemma read_u32_goodD:
  assumes "is_good (snd (read_u32 f))"
  shows "is_good f" and "is_rest f = be32 (fst (read_u32 f)) @ is_rest (snd (read_u32 f))"
proof -
  have *: "is_good (snd (stream_read [0, 0, 0, 0] f))"
    using assms by (simp add: read_u32_def split_def Let_def)
  have "length (fst (stream_read [0, 0, 0, 0] f)) = 4" by simp
  with stream_read_goodD [OF *] show "is_good f"
    and "is_rest f = be32 (fst (read_u32 f)) @ is_rest (snd (read_u32 f))"
    by (simp_all add: read_u32_def split_def Let_def)
qed

lemma read_vec_ok:
  "is_good f \<Longrightarrow> is_rest f = a @ r \<Longrightarrow> length a = n \<Longrightarrow> read_vec n f = (a, f\<lparr>is_rest := r\<rparr>)"
  by (simp add: read_vec_def stream_read_ok)

lemma read_vec_goodD:
  assumes "is_good (snd (read_vec n f))"
  shows "is_good f" and "is_rest f = fst (read_vec n f) @ is_rest (snd (read_vec n f))"
    and "length (fst (read_vec n f)) = n"
  using stream_read_goodD assms by (auto simp: read_vec_def)

section \<open>The format accepted by load-profile\<close>

text \<open>
  \<open>is_profile content it salt nonce pub ct rest\<close>: the file holds one profile with these
  fields, within the bounds the loader checks, followed by \<open>rest\<close>.
\<close>

definition is_profile ::
  "bytes \<Rightarrow> 32 word \<Rightarrow> bytes \<Rightarrow> bytes \<Rightarrow> bytes \<Rightarrow> bytes \<Rightarrow> bytes \<Rightarrow> bool" where
  "is_profile content it salt nonce pub ct rest \<longleftrightarrow>
     content = profile_bytes it salt nonce pub ct @ rest \<and>
     0 < length salt \<and> length salt \<le> 1024 \<and> length nonce = NONCE_SIZE \<and>
     length pub = 32 \<and> TAG_SIZE \<le> length ct \<and> length ct \<le> 4096"

text \<open>What the loader does once the fields are read: the public key is stored before the password is tried.\<close>

definition unlock_profile ::
  "('e, 'h) evp_cipher \<Rightarrow> ('e, 'h) evp_pkey \<Rightarrow> bytes \<Rightarrow> 32 word \<Rightarrow> bytes \<Rightarrow> bytes \<Rightarrow> bytes
    \<Rightarrow> (('e, 'x) ident_world_scheme, unit) io" where
  "unlock_profile L P password it salt nonce ct =
     bind_io (pbkdf2_sha256 P password salt it 32) (\<lambda>aes_key.
     bind_io (AESGCM_new aes_key) (\<lambda>crypto.
     bind_io (aes_decrypt L crypto ct nonce) (\<lambda>priv.
     modify_io (\<lambda>w. w\<lparr>id_priv := priv\<rparr>))))"

lemma c_uint32_le_iff: "n < 2 ^ 32 \<Longrightarrow> m < 2 ^ 32 \<Longrightarrow> c_uint32 n \<le> c_uint32 m \<longleftrightarrow> n \<le> m"
  by (simp add: word_le_nat_alt)

lemma c_uint32_numeral: "c_uint32 (numeral k) = numeral k"
  by (simp add: c_uint32_def)

lemma c_uint32_eq_0_iff: "n < 2 ^ 32 \<Longrightarrow> c_uint32 n = 0 \<longleftrightarrow> n = 0"
  by (simp add: word_unat_eq_iff)

lemma load_profile_parsed:
  assumes opened: "fs_open_read F path (env w) = (Some content, e')"
    and prof: "is_profile content it salt nonce pub ct rest"
  shows "load_profile L P F junk path password w =
           unlock_profile L P password it salt nonce ct (w\<lparr>env := e', id_pub := pub\<rparr>)"
proof -
  have b: "length salt < 2 ^ 32" "length nonce < 2 ^ 32" "length pub < 2 ^ 32" "length ct < 2 ^ 32"
    and content: "content = profile_magic @ be32 FILE_VERSION @ be32 it @
       be32 (c_uint32 (length salt)) @ salt @ be32 (c_uint32 (length nonce)) @ nonce @
       be32 (c_uint32 (length pub)) @ pub @ be32 (c_uint32 (length ct)) @ ct @ rest"
    and lens: "0 < length salt" "length salt \<le> 1024" "length nonce = NONCE_SIZE"
      "length pub = 32" "TAG_SIZE \<le> length ct" "length ct \<le> 4096"
    using prof by (auto simp: is_profile_def profile_bytes_def NONCE_SIZE_def)
  have sl: "c_uint32 (length salt) \<noteq> 0" "c_uint32 (length salt) \<le> 1024"
    using b(1) lens(1,2) c_uint32_le_iff [of "length salt" 1024]
    by (simp_all add: c_uint32_eq_0_iff c_uint32_numeral)
  have pl: "c_uint32 (length pub) = 32"
    using lens(4) by (simp add: c_uint32_def)
  have cl: "c_uint32 (length ct) \<le> 4096"
    using b(4) lens(6) c_uint32_le_iff [of "length ct" 4096] by (simp add: c_uint32_numeral)
  have magic: "length profile_magic = 8"
    by (simp add: profile_magic_def)
  show ?thesis
    unfolding load_profile_def
    using b lens sl pl cl magic
    by (simp add: io_run opened content stream_read_ok [where a = profile_magic] read_u32_ok
        read_vec_ok stream_read_ok [where a = pub] Let_def not_le not_less unlock_profile_def)
qed

text \<open>Every other file is refused, with the private key untouched.\<close>

lemma load_profile_cases:
  obtains (parsed) content e' it salt nonce pub ct rest where
      "fs_open_read F path (env w) = (Some content, e')"
      "is_profile content it salt nonce pub ct rest"
      "load_profile L P F junk path password w =
         unlock_profile L P password it salt nonce ct (w\<lparr>env := e', id_pub := pub\<rparr>)"
  | (refused) e where
      "fst (load_profile L P F junk path password w) = Inl e"
      "id_priv (snd (load_profile L P F junk path password w)) = id_priv w"
      "live (snd (load_profile L P F junk path password w)) = live w"
      "double_freed (snd (load_profile L P F junk path password w)) = double_freed w"
proof -
  let ?r = "load_profile L P F junk path password w"
  obtain fo e' where opened: "fs_open_read F path (env w) = (fo, e')"
    by (cases "fs_open_read F path (env w)")
  show ?thesis
  proof (cases fo)
    case None
    with opened show ?thesis
      by (intro refused) (simp_all add: load_profile_def io_run)
  next
    case (Some content)
    define f0 where "f0 = \<lparr>is_rest = content, is_good = True\<rparr>"
    define rm where "rm = stream_read (fill 8 junk) f0"
    define rv where "rv = read_u32 (snd rm)"
    define ri where "ri = read_u32 (snd rv)"
    define rs where "rs = read_u32 (snd ri)"
    define rsalt where "rsalt = read_vec (unat (fst rs)) (snd rs)"
    define rn where "rn = read_u32 (snd rsalt)"
    define rnonce where "rnonce = read_vec (unat (fst rn)) (snd rn)"
    define rp where "rp = read_u32 (snd rnonce)"
    define rpub where "rpub = stream_read (resize_bytes (unat (fst rp)) (id_pub w)) (snd rp)"
    define rc where "rc = read_u32 (snd rpub)"
    define rct where "rct = read_vec (unat (fst rc)) (snd rc)"
    note reads = f0_def [symmetric] rm_def [symmetric] rv_def [symmetric] ri_def [symmetric]
      rs_def [symmetric] rsalt_def [symmetric] rn_def [symmetric] rnonce_def [symmetric]
      rp_def [symmetric] rpub_def [symmetric] rc_def [symmetric] rct_def [symmetric]
    define ok where "ok \<longleftrightarrow> fst rm = profile_magic \<and> fst rv = FILE_VERSION \<and>
      \<not> (fst rs = 0 \<or> fst rs > 1024) \<and> unat (fst rn) = NONCE_SIZE \<and> fst rp = 32 \<and>
      \<not> (unat (fst rc) < TAG_SIZE \<or> fst rc > 4096) \<and> is_good (snd rct)"
    show ?thesis
    proof (cases ok)
      case False
      have checked: "fst rp = 32 \<Longrightarrow> stream_read (resize_bytes 32 (id_pub w)) (snd rp) = rpub"
        "unat (fst rn) = NONCE_SIZE \<Longrightarrow> read_vec NONCE_SIZE (snd rn) = rnonce"
        by (simp_all add: rpub_def rnonce_def)
      have "(\<exists>e. fst ?r = Inl e) \<and> id_priv (snd ?r) = id_priv w \<and> live (snd ?r) = live w \<and>
            double_freed (snd ?r) = double_freed w"
        using False opened Some unfolding ok_def
        by (auto simp add: load_profile_def io_run reads checked Let_def split_def)
      then show ?thesis by (blast intro: refused)
    next
      case True
      have ct: "is_good (snd rc)" "is_rest (snd rc) = fst rct @ is_rest (snd rct)"
        "length (fst rct) = unat (fst rc)"
        using True read_vec_goodD [of "unat (fst rc)" "snd rc"] by (simp_all add: ok_def rct_def)
      note c = read_u32_goodD [OF ct(1)[unfolded rc_def], folded rc_def]
      have pub: "is_good (snd rp)" "is_rest (snd rp) = fst rpub @ is_rest (snd rpub)"
        "length (fst rpub) = unat (fst rp)"
        using stream_read_goodD [OF c(1)[unfolded rpub_def]] by (simp_all add: rpub_def)
      note p = read_u32_goodD [OF pub(1)[unfolded rp_def], folded rp_def]
      note nonce = read_vec_goodD [OF p(1)[unfolded rnonce_def], folded rnonce_def]
      note n = read_u32_goodD [OF nonce(1)[unfolded rn_def], folded rn_def]
      note salt = read_vec_goodD [OF n(1)[unfolded rsalt_def], folded rsalt_def]
      note s = read_u32_goodD [OF salt(1)[unfolded rs_def], folded rs_def]
      note i = read_u32_goodD [OF s(1)[unfolded ri_def], folded ri_def]
      note v = read_u32_goodD [OF i(1)[unfolded rv_def], folded rv_def]
      have m: "is_rest f0 = fst rm @ is_rest (snd rm)"
        using stream_read_goodD [OF v(1)[unfolded rm_def]] by (simp add: rm_def)
      have lens: "c_uint32 (length (fst rsalt)) = fst rs" "c_uint32 (length (fst rnonce)) = fst rn"
        "c_uint32 (length (fst rpub)) = fst rp" "c_uint32 (length (fst rct)) = fst rc"
        by (simp_all only: salt(3) nonce(3) pub(3) ct(3) c_uint32_unat)
      have "fst rm = profile_magic" "fst rv = FILE_VERSION"
        using True by (simp_all add: ok_def)
      then have "content = profile_bytes (fst ri) (fst rsalt) (fst rnonce) (fst rpub) (fst rct)
              @ is_rest (snd rct)"
        using m v(2) i(2) s(2) salt(2) n(2) nonce(2) p(2) pub(2) c(2) ct(2)
        by (simp add: f0_def profile_bytes_def lens)
      moreover have "unat (fst rs) \<noteq> 0" "unat (fst rs) \<le> 1024" "unat (fst rc) \<le> 4096"
        using True by (auto simp: ok_def word_le_nat_alt word_unat_eq_iff not_less)
      ultimately have "is_profile content (fst ri) (fst rsalt) (fst rnonce) (fst rpub) (fst rct)
                         (is_rest (snd rct))"
        using True salt(3) nonce(3) pub(3) ct(3)
        by (simp add: is_profile_def ok_def not_less)
      with opened Some show ?thesis
        by (auto intro: parsed load_profile_parsed)
    qed
  qed
qed

lemma be32_inject [simp]: "be32 x = be32 y \<longleftrightarrow> x = y"
  by (metis ntohl_be32)

lemma c_uint32_inject: "m < 2 ^ 32 \<Longrightarrow> n < 2 ^ 32 \<Longrightarrow> c_uint32 m = c_uint32 n \<longleftrightarrow> m = n"
  by (metis unat_c_uint32)

text \<open>A file reads as one profile only.\<close>
lemma is_profile_unique:
  assumes "is_profile c it salt nonce pub ct r" and "is_profile c it' salt' nonce' pub' ct' r'"
  shows "it = it' \<and> salt = salt' \<and> nonce = nonce' \<and> pub = pub' \<and> ct = ct' \<and> r = r'"
proof -
  have b: "length salt < 2 ^ 32" "length nonce < 2 ^ 32" "length pub < 2 ^ 32" "length ct < 2 ^ 32"
    "length salt' < 2 ^ 32" "length nonce' < 2 ^ 32" "length pub' < 2 ^ 32" "length ct' < 2 ^ 32"
    using assms by (auto simp: is_profile_def NONCE_SIZE_def)
  have "profile_bytes it salt nonce pub ct @ r = profile_bytes it' salt' nonce' pub' ct' @ r'"
    using assms by (simp add: is_profile_def)
  then show ?thesis
    using b by (auto simp: profile_bytes_def c_uint32_inject)
qed

section \<open>Properties of the identity file\<close>

text \<open>The file system: a successful write is what the next open reads.\<close>

definition fs_contract :: "'e fs \<Rightarrow> ('e \<Rightarrow> string \<Rightarrow> bytes option) \<Rightarrow> bool" where
  "fs_contract F disk \<longleftrightarrow>
     (\<forall>p b e e'. fs_write F p b e = (True, e') \<longrightarrow> disk e' p = Some b) \<and>
     (\<forall>p e. fs_open_read F p e = (disk e p, e))"

lemma random_bytes_frame:
  "random_bytes L n w = (Inr bs, w') \<Longrightarrow> w' = w\<lparr>env := env w'\<rparr>"
  by (auto simp: random_bytes_def io_run split_def split: if_splits)

lemma pbkdf2_Inr:
  assumes "pbkdf2_sha256 P pw salt it n w = (Inr k, w')"
  shows "length k = n" and "w' = w" and "pbkdf2_sha256 P pw salt it n v = (Inr k, v)"
  using assms by (auto simp: pbkdf2_sha256_def io_run Let_def split_def split: if_splits)

text \<open>A successful \<open>create_profile\<close>, read backwards.\<close>

lemma create_profile_Inr:
  fixes w w' :: "('e, 'x) ident_world_scheme"
  assumes C: "gcm_contract L view G" and D: "ed_contract P pview Z"
    and create: "create_profile L P F path pw w = (Inr (), w')"
  obtains salt nonce key e where
    "length salt = 16" "length nonce = NONCE_SIZE" "length key = 32"
    "\<And>v :: ('e, 'x) ident_world_scheme. pbkdf2_sha256 P pw salt PBKDF2_ITERS 32 v = (Inr key, v)"
    "length (id_priv w') = 32" "id_pub w' = ed_pub_of Z (id_priv w')"
    "fs_write F path (profile_bytes PBKDF2_ITERS salt nonce (id_pub w')
        (gcm_E G key nonce (id_priv w') @ gcm_T G key nonce (gcm_E G key nonce (id_priv w')))) e
      = (True, env w')"
proof -
  obtain w1 salt w2 key w3 nonce w4 where
    gen: "gen_ed25519 P w = (Inr (), w1)" and
    salt: "random_bytes L 16 w1 = (Inr salt, w2)" and
    kdf: "pbkdf2_sha256 P pw salt PBKDF2_ITERS 32 w2 = (Inr key, w3)" and
    nonce3: "random_bytes L NONCE_SIZE w3 = (Inr nonce, w4)"
    using create by (auto simp: create_profile_def bind_io_Inr)
  have key: "pbkdf2_sha256 P pw salt PBKDF2_ITERS 32 w2 = (Inr key, w2)"
    and nonce: "random_bytes L NONCE_SIZE w2 = (Inr nonce, w4)"
    using pbkdf2_Inr(2) [OF kdf] kdf nonce3 by simp_all
  note ids = gen_ed25519_ok [OF D gen]
  have lens: "length salt = 16" "length nonce = NONCE_SIZE" "length key = 32"
    using random_bytes_length [OF salt] random_bytes_length [OF nonce] pbkdf2_Inr(1) [OF key] by simp_all
  have same: "id_priv w4 = id_priv w1" "id_pub w4 = id_pub w1"
    using random_bytes_frame [OF salt] random_bytes_frame [OF nonce]
    by (metis ident_world.select_convs ident_world.surjective world.update_convs(3))+
  let ?ct = "gcm_E G key nonce (id_priv w4) @ gcm_T G key nonce (gcm_E G key nonce (id_priv w4))"
  have enc: "aes_encrypt L key (id_priv w4) nonce w4 =
      (Inr ?ct, w4\<lparr>env := snd (cipher_ctx_new L (env w4))\<rparr>)"
    using lens ids(1) same(1) by (intro aes_encrypt_ok [OF C]) (simp_all add: KEY_SIZE_def)
  let ?e = "snd (fs_open_trunc F path (snd (cipher_ctx_new L (env w4))))"
  have "id_priv w' = id_priv w4 \<and> id_pub w' = id_pub w4 \<and>
        fs_write F path (profile_bytes PBKDF2_ITERS salt nonce (id_pub w4) ?ct) ?e = (True, env w')"
    using create gen salt key nonce enc lens
    by (auto simp: create_profile_def io_run AESGCM_new_def KEY_SIZE_def prod_eq_iff split: if_splits)
  then have "length (id_priv w') = 32" "id_pub w' = ed_pub_of Z (id_priv w')"
    "fs_write F path (profile_bytes PBKDF2_ITERS salt nonce (id_pub w')
       (gcm_E G key nonce (id_priv w') @ gcm_T G key nonce (gcm_E G key nonce (id_priv w')))) ?e
     = (True, env w')"
    using ids same by simp_all
  then show ?thesis
    by (rule that [OF lens pbkdf2_Inr(3) [OF key]])
qed

text \<open>C19: creating an identity file and loading it again with the same password, in any later
  state in which the file is unchanged, gives back the identity that was created.\<close>

theorem create_then_load:
  fixes v w w' :: "('e, 'x) ident_world_scheme"
  assumes "gcm_contract L view G" and "ed_contract P pview Z" and "fs_contract F disk"
    and "create_profile L P F path pw w = (Inr (), w')"
    and "disk (env v) path = disk (env w') path"
  shows "\<exists>v'. load_profile L P F junk path pw v = (Inr (), v') \<and>
           id_pub v' = id_pub w' \<and> id_priv v' = id_priv w'"
  using assms(1,2,4)
proof (rule create_profile_Inr)
  fix salt nonce key e
  let ?c = "gcm_E G key nonce (id_priv w')"
  let ?ct = "?c @ gcm_T G key nonce ?c"
  assume lens: "length salt = 16" "length nonce = NONCE_SIZE" "length key = 32"
    and kdf: "\<And>u :: ('e, 'x) ident_world_scheme. pbkdf2_sha256 P pw salt PBKDF2_ITERS 32 u = (Inr key, u)"
    and ids: "length (id_priv w') = 32" "id_pub w' = ed_pub_of Z (id_priv w')"
    and written: "fs_write F path (profile_bytes PBKDF2_ITERS salt nonce (id_pub w') ?ct) e
      = (True, env w')"
  let ?file = "profile_bytes PBKDF2_ITERS salt nonce (id_pub w') ?ct"
  have opened: "fs_open_read F path (env v) = (Some ?file, env v)"
    using assms(3,5) written by (auto simp: fs_contract_def)
  have G: "gcm_D G key nonce ?c = id_priv w'" "length ?c = 32" "length (gcm_T G key nonce ?c) = TAG_SIZE"
    using gcm_contractD(1)[OF assms(1)] lens ids(1) by (simp_all add: gcm_cipher_ok_def KEY_SIZE_def)
  have "length (id_pub w') = 32"
    using ed_contractD(1)[OF assms(2)] ids by (simp add: ed_scheme_ok_def)
  then have prof: "is_profile ?file PBKDF2_ITERS salt nonce (id_pub w') ?ct []"
    using lens G by (simp add: is_profile_def TAG_SIZE_def)
  let ?v = "v\<lparr>env := env v, id_pub := id_pub w'\<rparr>"
  have "aes_decrypt L key ?ct nonce ?v =
      (Inr (id_priv w'), ?v\<lparr>env := snd (cipher_ctx_new L (env ?v))\<rparr>)"
    using aes_decrypt_ok [OF assms(1), of key nonce ?c ?v] lens G by (simp add: KEY_SIZE_def)
  then show "\<exists>v'. load_profile L P F junk path pw v = (Inr (), v') \<and>
           id_pub v' = id_pub w' \<and> id_priv v' = id_priv w'"
    using lens
    by (simp add: load_profile_parsed [OF opened prof] unlock_profile_def io_run kdf AESGCM_new_def
        KEY_SIZE_def)
qed

text \<open>C20: a truncated identity file is always refused, whatever the uninitialised header
  buffer holds, and the private key in memory is left alone.\<close>

theorem truncated_profile_refused:
  assumes prof: "is_profile content it salt nonce pub ct []" and n: "n < length content"
    and opened: "fs_open_read F path (env w) = (Some (take n content), e')"
  shows "(\<exists>e. fst (load_profile L P F junk path pw w) = Inl e) \<and>
           id_priv (snd (load_profile L P F junk path pw w)) = id_priv w"
proof (cases rule: load_profile_cases [of F path w L P junk pw])
  case (parsed content' e'' it' salt' nonce' pub' ct' rest)
  then have "content' = take n content"
    using opened by simp
  then have "is_profile content it' salt' nonce' pub' ct' (rest @ drop n content)"
    using parsed(2) by (simp add: is_profile_def) (metis append_assoc append_take_drop_id)
  then have "rest @ drop n content = []"
    using is_profile_unique [OF prof] by blast
  with n show ?thesis by simp
next
  case (refused e)
  then show ?thesis by simp
qed

text \<open>The file does not authenticate its public key: replacing those 32 bytes in a file
  that loads gives a file that loads too, with the same private key and the new public key.\<close>

theorem public_key_not_authenticated:
  fixes v w :: "('e, 'x) ident_world_scheme"
  assumes "gcm_contract L view G"
    and "is_profile content it salt nonce pub ct rest" and "length pub' = 32"
    and "\<And>e. fs_open_read F path e = (Some content, e)"
    and "\<And>e. fs_open_read F' path e = (Some (profile_bytes it salt nonce pub' ct @ rest), e)"
    and "load_profile L P F junk path pw w = (Inr (), v)"
  shows "load_profile L P F' junk path pw w = (Inr (), v\<lparr>id_pub := pub'\<rparr>)"
proof -
  let ?w = "w\<lparr>id_pub := pub\<rparr>" and ?w' = "w\<lparr>id_pub := pub'\<rparr>"
  have prof': "is_profile (profile_bytes it salt nonce pub' ct @ rest) it salt nonce pub' ct rest"
    using assms(2,3) by (simp add: is_profile_def)
  have "unlock_profile L P pw it salt nonce ct ?w = (Inr (), v)"
    using assms(6) load_profile_parsed [OF assms(4,2), where w = w and L = L and P = P and junk = junk and password = pw] by simp
  then obtain key w1 priv w2 where kdf: "pbkdf2_sha256 P pw salt it 32 ?w = (Inr key, w1)"
    and dec: "aes_decrypt L key ct nonce w1 = (Inr priv, w2)" and v: "v = w2\<lparr>id_priv := priv\<rparr>"
    unfolding unlock_profile_def by (auto simp: bind_io_Inr AESGCM_new_Inr modify_Inr)
  have k: "length key = KEY_SIZE" and w1: "w1 = ?w"
    and kdf': "pbkdf2_sha256 P pw salt it 32 ?w' = (Inr key, ?w')"
    using pbkdf2_Inr [OF kdf] by (simp_all add: KEY_SIZE_def)
  have n: "length nonce = NONCE_SIZE" and len: "length ct < 2 ^ 31"
    using assms(2) by (simp_all add: is_profile_def)
  obtain c where c: "ct = c @ gcm_T G key nonce c" "priv = gcm_D G key nonce c"
    using aes_decrypt_accepts [OF assms(1) k n len, of w1 priv] dec by auto
  then have "length c < 2 ^ 31" using len by simp
  note dec_ok = aes_decrypt_ok [OF assms(1) k n this, folded c]
  have "unlock_profile L P pw it salt nonce ct ?w' = (Inr (), v\<lparr>id_pub := pub'\<rparr>)"
    using dec dec_ok [of ?w'] dec_ok [of ?w] v w1 k
    by (auto simp add: unlock_profile_def io_run kdf' AESGCM_new_def)
  then show ?thesis
    using load_profile_parsed [OF assms(5) prof', where w = w and L = L and P = P and junk = junk and password = pw] by simp
qed

text \<open>With a wrong password (a derived key under which the stored tag does not verify)
  loading fails, and leaves an identity whose public key is the file's and whose private key is
  the one held before; the cipher context has been freed twice.\<close>

theorem wrong_password_mixes_identity:
  fixes w :: "('e, 'x) ident_world_scheme"
  assumes "gcm_contract L view G"
    and "is_profile content it salt nonce pub (c @ t) rest" and "length t = TAG_SIZE"
    and "fs_open_read F path (env w) = (Some content, e')"
    and "pbkdf2_sha256 P pw salt it 32 (w\<lparr>env := e', id_pub := pub\<rparr>) = (Inr key, w\<lparr>env := e', id_pub := pub\<rparr>)"
    and "t \<noteq> gcm_T G key nonce c" and "CipherCtx \<notin> set (live w)"
  shows "fst (load_profile L P F junk path pw w) = Inl (RuntimeError ''GCM tag verification failed'') \<and>
     id_pub (snd (load_profile L P F junk path pw w)) = pub \<and>
     id_priv (snd (load_profile L P F junk path pw w)) = id_priv w \<and>
     double_freed (snd (load_profile L P F junk path pw w))"
proof -
  let ?w = "w\<lparr>env := e', id_pub := pub\<rparr>"
  have k: "length key = KEY_SIZE" and n: "length nonce = NONCE_SIZE" and c: "length c < 2 ^ 31"
    using pbkdf2_Inr(1) [OF assms(5)] assms(2) by (simp_all add: KEY_SIZE_def is_profile_def)
  have "aes_decrypt L key (c @ t) nonce ?w = (Inl (RuntimeError ''GCM tag verification failed''),
            ?w\<lparr>env := snd (cipher_ctx_new L (env ?w)), double_freed := True\<rparr>)"
    using assms(7) by (intro aes_decrypt_forged [OF assms(1) k n c assms(3,6)]) simp
  then show ?thesis
    using k by (simp add: load_profile_parsed [OF assms(4,2)] unlock_profile_def io_run assms(5)
        AESGCM_new_def)
qed

end
