(* ===== verification/Engine.thy ===== *)
theory Engine
  imports Key_Exchange Profile
begin

text \<open>
  \<^verbatim>\<open>connection_engine.cpp\<close>: class ConnectionEngine, the messages of \<^verbatim>\<open>handshake.proto\<close>,
  \<^verbatim>\<open>messages.proto\<close> and \<^verbatim>\<open>envelope.proto\<close>, and the two handshakes. The generated protobuf code, the
  clock and the transport callbacks are parameters.
\<close>

section \<open>Messages\<close>

record handshake_hello =
  hh_kem_public_key :: bytes
  hh_version :: "32 word"
  hh_identity_pub :: bytes
  hh_identity_sig :: bytes

record handshake_response =
  hr_kem_ciphertext :: bytes
  hr_version :: "32 word"
  hr_identity_pub :: bytes
  hr_identity_sig :: bytes

record chat_message =
  cm_sender_id :: string
  cm_encrypted_content :: bytes
  cm_nonce :: bytes
  cm_timestamp_unix :: "64 word"

record envelope =
  ev_version :: "32 word"
  ev_to_username :: string
  ev_sender_pubkey :: bytes
  ev_payload_e2e :: bytes
  ev_client_timestamp :: "64 word"

text \<open>\<open>SerializeToString\<close>, and \<open>ParseFromArray(data, size)\<close> with its \<open>int\<close> size.\<close>

record proto =
  ser_hello :: "handshake_hello \<Rightarrow> bytes option"
  parse_hello :: "bytes \<Rightarrow> int \<Rightarrow> handshake_hello option"
  ser_response :: "handshake_response \<Rightarrow> bytes option"
  parse_response :: "bytes \<Rightarrow> int \<Rightarrow> handshake_response option"
  ser_chat :: "chat_message \<Rightarrow> bytes option"
  parse_chat :: "bytes \<Rightarrow> int \<Rightarrow> chat_message option"
  ser_envelope :: "envelope \<Rightarrow> bytes option"
  parse_envelope :: "bytes \<Rightarrow> int \<Rightarrow> envelope option"

text \<open>The libraries of the process; \<open>lb_junk\<close> is the uninitialised array of \<open>load_profile\<close>.\<close>

record ('e, 'h) libs =
  lb_cipher :: "('e, 'h) evp_cipher"
  lb_hkdf :: "('e, 'h) evp_hkdf"
  lb_pkey :: "('e, 'h) evp_pkey"
  lb_kem :: "('e, 'h) oqs_kem"
  lb_fs :: "'e fs"
  lb_proto :: proto
  lb_clock :: "'e \<Rightarrow> 64 word \<times> 'e"
  lb_junk :: bytes

section \<open>The engine's state and its callbacks\<close>

text \<open>The members \<open>identity_\<close> (inherited fields), \<open>session_\<close> and \<open>sessionReady_\<close>.\<close>

record 'e engine_world = "'e ident_world" +
  session_key :: bytes
  session_ready :: bool

text \<open>\<open>SendFrameFn\<close> and \<open>RecvFrameFn\<close>: a \<open>std::function\<close> may also throw.\<close>

type_synonym 'e send_fn = "bytes \<Rightarrow> 'e \<Rightarrow> (exn + bool) \<times> 'e"
type_synonym 'e recv_fn = "'e \<Rightarrow> (exn + bytes option) \<times> 'e"

definition callback_io :: "('e \<Rightarrow> (exn + 'a) \<times> 'e) \<Rightarrow> (('e, 'x) world_scheme, 'a) io" where
  "callback_io f = bind_io (env_io f) (\<lambda>r. case r of Inl e \<Rightarrow> throw_io e | Inr x \<Rightarrow> ret_io x)"

text \<open>
  \<open>if (!call(x)) { errorOut = msg; return false; }\<close> for a call that leaves its result in
  an out-parameter, and the frame of a member function: \<open>try { ... } catch (const
  std::exception& ex) { errorOut = ex.what(); return false; }\<close>. The result is the text left
  in \<open>errorOut\<close>, or the out-parameters of a call that returned true.
\<close>

definition require_io :: "string \<Rightarrow> 'a option \<Rightarrow> ('s, 'a) io" where
  "require_io msg r = (case r of None \<Rightarrow> throw_io (EarlyReturn msg) | Some x \<Rightarrow> ret_io x)"

definition report :: "('s, 'a) io \<Rightarrow> 's \<Rightarrow> (string + 'a) \<times> 's" where
  "report m w = (case m w of (Inl e, w') \<Rightarrow> (Inl (what e), w') | (Inr x, w') \<Rightarrow> (Inr x, w'))"

text \<open>\<open>concat(prefix, a, b)\<close> and the two messages that are signed.\<close>

definition concat_msg :: "string \<Rightarrow> bytes \<Rightarrow> bytes \<Rightarrow> bytes" where
  "concat_msg prefix a b = bytes_of prefix @ a @ b"

abbreviation client_msg :: "bytes \<Rightarrow> bytes" where
  "client_msg pk \<equiv> concat_msg ''E2EE-HANDSHAKE-v1|client|'' pk []"

abbreviation server_msg :: "bytes \<Rightarrow> bytes \<Rightarrow> bytes" where
  "server_msg ct pk \<equiv> concat_msg ''E2EE-HANDSHAKE-v1|server|'' ct pk"

section \<open>Identity\<close>

definition loadOrCreateIdentity ::
  "('e, 'h) libs \<Rightarrow> string \<Rightarrow> string \<Rightarrow> ('e, 'x) ident_world_scheme
    \<Rightarrow> (string + string \<times> bool) \<times> ('e, 'x) ident_world_scheme" where
  "loadOrCreateIdentity L path password = report (
     bind_io (callback_io (\<lambda>e. case fs_exists (lb_fs L) path e of
        (Inl m, e') \<Rightarrow> (Inl (RuntimeError m), e') | (Inr b, e') \<Rightarrow> (Inr b, e'))) (\<lambda>present.
     bind_io (if \<not> present
              then bind_io (create_profile (lb_cipher L) (lb_pkey L) (lb_fs L) path (bytes_of password))
                     (\<lambda>_. ret_io True)
              else bind_io (load_profile (lb_cipher L) (lb_pkey L) (lb_fs L) (lb_junk L) path (bytes_of password))
                     (\<lambda>_. ret_io False)) (\<lambda>created.
     get_io (\<lambda>w. (fingerprint_hex (lb_pkey L) (id_pub w), created)))))"

section \<open>The client's handshake\<close>

definition clientHandshakeInternal ::
  "('e, 'h) libs \<Rightarrow> 'e send_fn \<Rightarrow> 'e recv_fn
    \<Rightarrow> (('e, 'x) engine_world_scheme, string) io" where
  "clientHandshakeInternal L send recv =
     bind_io (get_io is_loaded) (\<lambda>loaded.
     bind_io (guard_io loaded (EarlyReturn ''Identity not loaded'')) (\<lambda>_.
     with_kyber (lb_kem L) (\<lambda>kem.
       bind_io (kyber_keypair (lb_kem L) kem) (\<lambda>(pk, sk).
       bind_io (get_io id_priv) (\<lambda>priv.
       bind_io (ed_sign (lb_pkey L) priv (client_msg pk)) (\<lambda>sig.
       bind_io (get_io id_pub) (\<lambda>pub.
       bind_io (require_io ''Failed to serialize HandshakeHello''
                  (ser_hello (lb_proto L) \<lparr>hh_kem_public_key = pk, hh_version = kVersion,
                     hh_identity_pub = pub, hh_identity_sig = sig\<rparr>)) (\<lambda>hello_bytes.
       bind_io (callback_io (send hello_bytes)) (\<lambda>sent.
       bind_io (guard_io sent (EarlyReturn ''Failed to send HandshakeHello'')) (\<lambda>_.
       bind_io (callback_io recv) (\<lambda>r.
       bind_io (require_io ''Failed to receive HandshakeResponse'' r) (\<lambda>resp_frame.
       bind_io (require_io ''Failed to parse HandshakeResponse''
                  (parse_response (lb_proto L) resp_frame (c_int (length resp_frame)))) (\<lambda>resp.
       bind_io (ed_verify (lb_pkey L) (hr_identity_pub resp)
                  (server_msg (hr_kem_ciphertext resp) pk) (hr_identity_sig resp)) (\<lambda>ok.
       bind_io (guard_io ok (EarlyReturn ''Server signature verification failed'')) (\<lambda>_.
       bind_io (kyber_decapsulate (lb_kem L) kem (hr_kem_ciphertext resp) sk) (\<lambda>ss.
       bind_io (hkdf_sha256 (lb_hkdf L) ss hkdf_salt hkdf_info 32) (\<lambda>key.
       bind_io (modify_io (\<lambda>w. w\<lparr>session_key := key, session_ready := True\<rparr>)) (\<lambda>_.
       ret_io (fingerprint_hex (lb_pkey L) (hr_identity_pub resp))))))))))))))))))))"

definition runClientHandshake ::
  "('e, 'h) libs \<Rightarrow> 'e send_fn \<Rightarrow> 'e recv_fn \<Rightarrow> ('e, 'x) engine_world_scheme
    \<Rightarrow> (string + string) \<times> ('e, 'x) engine_world_scheme" where
  "runClientHandshake L send recv = report (
     bind_io (modify_io (\<lambda>w. w\<lparr>session_ready := False\<rparr>)) (\<lambda>_.
     clientHandshakeInternal L send recv))"

section \<open>The server's handshake\<close>

text \<open>The scope of the object \<open>kem\<close>, entered once the hello is verified, and the whole function.\<close>

definition server_reply ::
  "('e, 'h) libs \<Rightarrow> 'e send_fn \<Rightarrow> handshake_hello \<Rightarrow> (('e, 'x) engine_world_scheme, string) io" where
  "server_reply L send hello =
     with_kyber (lb_kem L) (\<lambda>kem.
       bind_io (kyber_encapsulate (lb_kem L) kem (hh_kem_public_key hello)) (\<lambda>(ct, ss).
       bind_io (get_io id_priv) (\<lambda>priv.
       bind_io (ed_sign (lb_pkey L) priv (server_msg ct (hh_kem_public_key hello))) (\<lambda>sig.
       bind_io (get_io id_pub) (\<lambda>pub.
       bind_io (require_io ''Failed to serialize HandshakeResponse''
                  (ser_response (lb_proto L) \<lparr>hr_kem_ciphertext = ct, hr_version = kVersion,
                     hr_identity_pub = pub, hr_identity_sig = sig\<rparr>)) (\<lambda>resp_bytes.
       bind_io (callback_io (send resp_bytes)) (\<lambda>sent.
       bind_io (guard_io sent (EarlyReturn ''Failed to send HandshakeResponse'')) (\<lambda>_.
       bind_io (hkdf_sha256 (lb_hkdf L) ss hkdf_salt hkdf_info 32) (\<lambda>key.
       bind_io (modify_io (\<lambda>w. w\<lparr>session_key := key, session_ready := True\<rparr>)) (\<lambda>_.
       ret_io (fingerprint_hex (lb_pkey L) (hh_identity_pub hello))))))))))))"

definition serverHandshakeInternal ::
  "('e, 'h) libs \<Rightarrow> 'e send_fn \<Rightarrow> 'e recv_fn
    \<Rightarrow> (('e, 'x) engine_world_scheme, string) io" where
  "serverHandshakeInternal L send recv =
     bind_io (get_io is_loaded) (\<lambda>loaded.
     bind_io (guard_io loaded (EarlyReturn ''Identity not loaded'')) (\<lambda>_.
     bind_io (callback_io recv) (\<lambda>r.
     bind_io (require_io ''Failed to receive HandshakeHello'' r) (\<lambda>frame.
     bind_io (require_io ''Failed to parse HandshakeHello''
                (parse_hello (lb_proto L) frame (c_int (length frame)))) (\<lambda>hello.
     bind_io (ed_verify (lb_pkey L) (hh_identity_pub hello)
                (client_msg (hh_kem_public_key hello)) (hh_identity_sig hello)) (\<lambda>ok.
     bind_io (guard_io ok (EarlyReturn ''Client signature verification failed'')) (\<lambda>_.
     server_reply L send hello)))))))"

definition runServerHandshake ::
  "('e, 'h) libs \<Rightarrow> 'e send_fn \<Rightarrow> 'e recv_fn \<Rightarrow> ('e, 'x) engine_world_scheme
    \<Rightarrow> (string + string) \<times> ('e, 'x) engine_world_scheme" where
  "runServerHandshake L send recv = report (
     bind_io (modify_io (\<lambda>w. w\<lparr>session_ready := False\<rparr>)) (\<lambda>_.
     serverHandshakeInternal L send recv))"

section \<open>Messages\<close>

definition encryptAndSerializeMessage ::
  "('e, 'h) libs \<Rightarrow> string \<Rightarrow> string \<Rightarrow> string \<Rightarrow> ('e, 'x) engine_world_scheme
    \<Rightarrow> (string + bytes) \<times> ('e, 'x) engine_world_scheme" where
  "encryptAndSerializeMessage L plaintext senderId toUsername = report (
     bind_io (get_io session_ready) (\<lambda>ready.
     bind_io (guard_io ready (EarlyReturn ''Session key not established'')) (\<lambda>_.
     bind_io (random_nonce (lb_cipher L)) (\<lambda>nonce.
     bind_io (get_io session_key) (\<lambda>key.
     bind_io (session_encrypt (lb_cipher L) key (bytes_of plaintext) nonce) (\<lambda>ct_tag.
     bind_io (env_io (lb_clock L)) (\<lambda>now.
     bind_io (require_io ''Failed to serialize ChatMessage''
                (ser_chat (lb_proto L) \<lparr>cm_sender_id = senderId, cm_encrypted_content = ct_tag,
                   cm_nonce = nonce, cm_timestamp_unix = now\<rparr>)) (\<lambda>inner_bytes.
     bind_io (env_io (lb_clock L)) (\<lambda>now.
     require_io ''Failed to serialize Envelope''
       (ser_envelope (lb_proto L) \<lparr>ev_version = kVersion, ev_to_username = toUsername,
          ev_sender_pubkey = [], ev_payload_e2e = inner_bytes,
          ev_client_timestamp = now\<rparr>))))))))))"

definition parseAndDecryptMessage ::
  "('e, 'h) libs \<Rightarrow> bytes \<Rightarrow> ('e, 'x) engine_world_scheme
    \<Rightarrow> (string + string) \<times> ('e, 'x) engine_world_scheme" where
  "parseAndDecryptMessage L frame = report (
     bind_io (get_io session_ready) (\<lambda>ready.
     bind_io (guard_io ready (EarlyReturn ''Session key not established'')) (\<lambda>_.
     bind_io (require_io ''Malformed Envelope''
                (parse_envelope (lb_proto L) frame (c_int (length frame)))) (\<lambda>en.
     bind_io (require_io ''Malformed ChatMessage''
                (parse_chat (lb_proto L) (ev_payload_e2e en) (c_int (length (ev_payload_e2e en))))) (\<lambda>inner.
     bind_io (get_io session_key) (\<lambda>key.
     bind_io (session_decrypt (lb_cipher L) key (cm_encrypted_content inner) (cm_nonce inner)) (\<lambda>plain.
     ret_io (string_of plain))))))))"

section \<open>What the library calls leave alone\<close>

text \<open>
  The library calls of a handshake do not touch the network, nor any field of the engine:
  \<open>libs_silent g L\<close> says that none of the functions of \<open>L\<close> that act on the outside world
  changes what \<open>g\<close> observes.
\<close>

definition libs_silent :: "(('e, 'x) world_scheme \<Rightarrow> 't) \<Rightarrow> ('e, 'h) libs \<Rightarrow> bool" where
  "libs_silent g L \<longleftrightarrow> heap_blind g \<and>
     silent g (cipher_ctx_new (lb_cipher L)) \<and> (\<forall>n. silent g (rand_bytes (lb_cipher L) n)) \<and>
     silent g (hkdf_ctx_new (lb_hkdf L)) \<and>
     (\<forall>b n. silent g (new_raw_private_key (lb_pkey L) b n)) \<and>
     (\<forall>b n. silent g (new_raw_public_key (lb_pkey L) b n)) \<and>
     silent g (md_ctx_new (lb_pkey L)) \<and>
     silent g (oqs_kem_new (lb_kem L)) \<and>
     (\<forall>h. silent g (oqs_keypair (lb_kem L) h)) \<and>
     (\<forall>h b. silent g (oqs_encaps (lb_kem L) h b)) \<and>
     silent g (lb_clock L)"

lemma libs_silent_more [intro, simp]: "libs_silent world.more L"
  by (simp add: libs_silent_def)

lemma hkdf_step_keeps: "heap_blind g \<Longrightarrow> keeps g (hkdf_step call msg f h)"
  unfolding hkdf_step_def by (intro keeps_intros)

lemma hkdf_sha256_keeps: "libs_silent g L \<Longrightarrow> keeps g (hkdf_sha256 (lb_hkdf L) ikm salt info n)"
  unfolding hkdf_sha256_def Let_def split_def
  by (intro keeps_intros hkdf_step_keeps) (simp_all add: libs_silent_def)

lemma kyber_init_keeps: "libs_silent g L \<Longrightarrow> keeps g (kyber_init (lb_kem L))"
  unfolding kyber_init_def by (intro keeps_intros) (simp_all add: libs_silent_def)

lemma kyber_keypair_keeps: "libs_silent g L \<Longrightarrow> keeps g (kyber_keypair (lb_kem L) kem)"
  unfolding kyber_keypair_def split_def by (intro keeps_intros) (simp_all add: libs_silent_def)

lemma kyber_encapsulate_keeps: "libs_silent g L \<Longrightarrow> keeps g (kyber_encapsulate (lb_kem L) kem pk)"
  unfolding kyber_encapsulate_def split_def by (intro keeps_intros) (simp_all add: libs_silent_def)

lemma kyber_decapsulate_keeps: "keeps g (kyber_decapsulate K kem ct sk)"
  unfolding kyber_decapsulate_def split_def Let_def by (intro keeps_intros)

lemma kyber_destroy_blind: "heap_blind g \<Longrightarrow> g (kyber_destroy kem w) = g w"
  by (simp add: kyber_destroy_def heap_blind_release split: option.splits)

lemma ed_sign_keeps: "libs_silent g L \<Longrightarrow> keeps g (ed_sign (lb_pkey L) priv msg)"
  unfolding ed_sign_def Let_def split_def by (intro keeps_intros) (simp_all add: libs_silent_def)

lemma ed_verify_keeps: "libs_silent g L \<Longrightarrow> keeps g (ed_verify (lb_pkey L) pub msg sig)"
  unfolding ed_verify_def Let_def split_def by (intro keeps_intros) (simp_all add: libs_silent_def)

lemma random_nonce_keeps: "libs_silent g L \<Longrightarrow> keeps g (random_nonce (lb_cipher L))"
  unfolding random_nonce_def split_def by (intro keeps_intros) (simp_all add: libs_silent_def)

lemma require_keeps [keeps_intros]: "keeps g (require_io msg r)"
  unfolding require_io_def by (intro keeps_intros)

lemmas silent_calls =
  hkdf_sha256_keeps kyber_init_keeps kyber_keypair_keeps kyber_encapsulate_keeps
  ed_sign_keeps ed_verify_keeps random_nonce_keeps

section \<open>Handshakes free what they allocate\<close>

lemma callback_heap: "heap_run A (callback_io f) A A"
proof -
  have "heap_run A (case r of Inl e \<Rightarrow> throw_io e | Inr x \<Rightarrow> ret_io x) A A" for r
    by (simp add: heap_run_throw heap_run_ret split: sum.splits)
  then show ?thesis
    unfolding callback_io_def by (rule heap_run_bind [OF heap_run_env])
qed

lemma require_heap: "heap_run A (require_io msg r) A A"
  by (simp add: require_io_def heap_run_throw heap_run_ret split: option.splits)

lemma modify_session_heap:
  "heap_run A (modify_io (\<lambda>w. w\<lparr>session_key := key, session_ready := True\<rparr>)) A A"
  by (rule heap_run_modify) simp_all

lemmas engine_heap_rules =
  heap_run_get heap_run_guard callback_heap require_heap modify_session_heap heap_run_ret
  heap_run_frame [OF ed_sign_heap] heap_run_frame [OF ed_verify_heap]
  heap_run_frame [OF hkdf_sha256_heap] kyber_keypair_heap kyber_encapsulate_heap
  kyber_decapsulate_heap

lemma clientHandshake_heap: "heap_run [] (clientHandshakeInternal L send recv) [] []"
  unfolding clientHandshakeInternal_def split_def
  by (intro heap_run_bind [OF heap_run_get] heap_run_bind [OF heap_run_guard] with_kyber_heap)
     ((rule heap_run_bind, rule engine_heap_rules)+, rule heap_run_ret)

lemma serverHandshake_heap: "heap_run [] (serverHandshakeInternal L send recv) [] []"
  unfolding serverHandshakeInternal_def server_reply_def split_def
  by (intro heap_run_bind [OF heap_run_get] heap_run_bind [OF heap_run_guard]
        heap_run_bind [OF callback_heap] heap_run_bind [OF require_heap]
        heap_run_bind [OF ed_verify_heap] with_kyber_heap)
     ((rule heap_run_bind, rule engine_heap_rules)+, rule heap_run_ret)

section \<open>The transport under the callbacks\<close>

text \<open>
  \<open>tr\<close> is the log of the frames that went through: a \<open>send\<close> that reports success adds its
  frame, a \<open>recv\<close> that delivers one adds that, and nothing else does.
\<close>

datatype event = Sent bytes | Received bytes

definition transport_contract ::
  "'e send_fn \<Rightarrow> 'e recv_fn \<Rightarrow> ('e \<Rightarrow> event list) \<Rightarrow> bool" where
  "transport_contract send recv tr \<longleftrightarrow>
     (\<forall>b e. tr (snd (send b e)) = tr e @ (if fst (send b e) = Inr True then [Sent b] else [])) \<and>
     (\<forall>e. tr (snd (recv e)) = tr e @
        (case fst (recv e) of Inr (Some f) \<Rightarrow> [Received f] | _ \<Rightarrow> []))"

definition libs_quiet :: "('e \<Rightarrow> 't) \<Rightarrow> ('e, 'h) libs \<Rightarrow> bool" where
  "libs_quiet tr L \<longleftrightarrow> libs_silent (\<lambda>w :: 'e world. tr (env w)) L"

lemma silent_env: "silent (\<lambda>w :: ('e, 'x) world_scheme. tr (env w)) f \<longleftrightarrow> (\<forall>e. tr (snd (f e)) = tr e)"
proof
  assume s: "silent (\<lambda>w :: ('e, 'x) world_scheme. tr (env w)) f"
  show "\<forall>e. tr (snd (f e)) = tr e"
  proof
    fix e
    show "tr (snd (f e)) = tr e"
      using s [unfolded silent_def, THEN conjunct2, rule_format,
          of "world.extend \<lparr>live = [], double_freed = False, env = e\<rparr> undefined"]
      by (simp add: world.extend_def)
  qed
qed (simp add: silent_def)

lemma libs_quiet_silent: "libs_quiet tr L \<Longrightarrow> libs_silent (\<lambda>w. tr (env w)) L"
  by (simp add: libs_quiet_def libs_silent_def silent_env)

lemma report_Inr: "report m w = (Inr x, w') \<longleftrightarrow> m w = (Inr x, w')"
  by (auto simp: report_def split: prod.splits sum.splits)

lemma report_Inl: "report m w = (Inl s, w') \<longleftrightarrow> (\<exists>e. m w = (Inl e, w') \<and> s = what e)"
  by (auto simp: report_def split: prod.splits sum.splits)

lemma snd_report [simp]: "snd (report m w) = snd (m w)"
  by (simp add: report_def split: prod.splits sum.splits)

lemma require_Inr: "require_io msg r w = (Inr x, w') \<longleftrightarrow> r = Some x \<and> w' = w"
  by (auto simp: require_io_def io_run split: option.splits)

lemma callback_Inr:
  "callback_io f w = (Inr x, w') \<longleftrightarrow> f (env w) = (Inr x, env w') \<and> w' = w\<lparr>env := env w'\<rparr>"
  by (auto simp: callback_io_def io_run split: sum.splits) (metis prod.collapse)+

lemmas io_Inr = bind_io_Inr finally_io_Inr require_Inr guard_Inr get_Inr modify_Inr ret_Inr

lemma more_fields:
  fixes v w :: "('e, 'x) engine_world_scheme"
  assumes "world.more v = world.more w"
  shows "id_pub v = id_pub w" "id_priv v = id_priv w" "session_key v = session_key w"
    "session_ready v = session_ready w"
  using assms by (cases v; cases w; simp)+

lemma callback_more: "callback_io f w = (Inr x, w') \<Longrightarrow> world.more w' = world.more w"
  by (metis callback_Inr world.select_convs(4) world.surjective world.update_convs(3))

lemma send_log:
  "transport_contract send recv tr \<Longrightarrow> callback_io (send b) w = (Inr True, w') \<Longrightarrow>
     tr (env w') = tr (env w) @ [Sent b]"
proof -
  assume T: "transport_contract send recv tr" and r: "callback_io (send b) w = (Inr True, w')"
  have "send b (env w) = (Inr True, env w')"
    using r by (simp add: callback_Inr)
  then show ?thesis
    using T [unfolded transport_contract_def, THEN conjunct1, rule_format, of b "env w"] by simp
qed

lemma recv_log:
  "transport_contract send recv tr \<Longrightarrow> callback_io recv w = (Inr (Some f), w') \<Longrightarrow>
     tr (env w') = tr (env w) @ [Received f]"
proof -
  assume T: "transport_contract send recv tr" and r: "callback_io recv w = (Inr (Some f), w')"
  have "recv (env w) = (Inr (Some f), env w')"
    using r by (simp add: callback_Inr)
  then show ?thesis
    using T [unfolded transport_contract_def, THEN conjunct2, rule_format, of "env w"] by simp
qed

section \<open>Successful handshakes, read backwards\<close>

lemma client_handshake_Inr:
  fixes w w' :: "('e, 'x) engine_world_scheme"
  assumes T: "transport_contract send recv tr" and Q: "libs_quiet tr L"
    and run: "runClientHandshake L send recv w = (Inr fp, w')"
  obtains k pk sk sig hello frame resp ss key and v1 v1' v2 v2' v3 :: "('e, 'x) engine_world_scheme" where
    "is_kem (lb_kem L) k"
    "kyber_keypair (lb_kem L) (Some k) v1 = (Inr (pk, sk), v1')"
    "ser_hello (lb_proto L) \<lparr>hh_kem_public_key = pk, hh_version = kVersion,
        hh_identity_pub = id_pub w, hh_identity_sig = sig\<rparr> = Some hello"
    "parse_response (lb_proto L) frame (c_int (length frame)) = Some resp"
    "ed_verify (lb_pkey L) (hr_identity_pub resp) (server_msg (hr_kem_ciphertext resp) pk)
       (hr_identity_sig resp) v2 = (Inr True, v2')"
    "kyber_decapsulate (lb_kem L) (Some k) (hr_kem_ciphertext resp) sk v2' = (Inr ss, v2')"
    "hkdf_sha256 (lb_hkdf L) ss hkdf_salt hkdf_info 32 v2' = (Inr key, v3)"
    "session_key w' = key" "session_ready w'" "id_pub w' = id_pub w" "id_priv w' = id_priv w"
    "fp = fingerprint_hex (lb_pkey L) (hr_identity_pub resp)"
    "tr (env w') = tr (env w) @ [Sent hello, Received frame]"
proof -
  let ?w0 = "w\<lparr>session_ready := False\<rparr>"
  obtain kem a0 pk sk a1 sig a2 hello a3 frame a4 resp a5 ss a6 key a7 where
    init: "kyber_init (lb_kem L) ?w0 = (Inr kem, a0)" and
    gen: "kyber_keypair (lb_kem L) kem a0 = (Inr (pk, sk), a1)" and
    sign: "ed_sign (lb_pkey L) (id_priv a1) (client_msg pk) a1 = (Inr sig, a2)" and
    ser: "ser_hello (lb_proto L) \<lparr>hh_kem_public_key = pk, hh_version = kVersion,
        hh_identity_pub = id_pub a2, hh_identity_sig = sig\<rparr> = Some hello" and
    snt: "callback_io (send hello) a2 = (Inr True, a3)" and
    rcv: "callback_io recv a3 = (Inr (Some frame), a4)" and
    parse: "parse_response (lb_proto L) frame (c_int (length frame)) = Some resp" and
    ver: "ed_verify (lb_pkey L) (hr_identity_pub resp) (server_msg (hr_kem_ciphertext resp) pk)
       (hr_identity_sig resp) a4 = (Inr True, a5)" and
    dec: "kyber_decapsulate (lb_kem L) kem (hr_kem_ciphertext resp) sk a5 = (Inr ss, a6)" and
    kdf: "hkdf_sha256 (lb_hkdf L) ss hkdf_salt hkdf_info 32 a6 = (Inr key, a7)" and
    fin: "w' = kyber_destroy kem (a7\<lparr>session_key := key, session_ready := True\<rparr>)"
      "fp = fingerprint_hex (lb_pkey L) (hr_identity_pub resp)"
    using run unfolding runClientHandshake_def report_Inr clientHandshakeInternal_def with_kyber_def
    by (auto simp: io_Inr split_def)
  obtain k where kem: "kem = Some k" "is_kem (lb_kem L) k"
    using init unfolding kyber_init_Inr is_kem_def by blast
  have dec': "a6 = a5" using dec by (auto simp: kyber_decapsulate_Inr)
  let ?tr = "\<lambda>w :: ('e, 'x) engine_world_scheme. tr (env w)"
  note quiet = silent_calls [where g = ?tr, OF libs_quiet_silent [OF Q]]
  note still = silent_calls [where g = "world.more", OF libs_silent_more]
  have log: "?tr a0 = ?tr ?w0" "?tr a1 = ?tr a0" "?tr a2 = ?tr a1" "?tr a5 = ?tr a4" "?tr a7 = ?tr a6"
    using keepsD [OF quiet(2) init] keepsD [OF quiet(3) gen] keepsD [OF quiet(5) sign]
      keepsD [OF quiet(6) ver] keepsD [OF quiet(1) kdf] by simp_all
  have more: "world.more a1 = world.more ?w0" "world.more a2 = world.more a1"
    "world.more a7 = world.more a2"
    using keepsD [OF still(2) init] keepsD [OF still(3) gen] keepsD [OF still(5) sign]
      keepsD [OF still(6) ver] keepsD [OF still(1) kdf] callback_more [OF snt] callback_more [OF rcv] dec'
    by simp_all
  note dest = kyber_destroy_blind [OF heap_blind_more] kyber_destroy_blind [where g = ?tr, OF heap_blind_env]
  have w': "tr (env w') = tr (env a7)" "session_key w' = key" "session_ready w'"
    "id_pub w' = id_pub a7" "id_priv w' = id_priv a7"
    using fin(1) dest(2) [of kem "a7\<lparr>session_key := key, session_ready := True\<rparr>"]
      more_fields [OF dest(1) [of kem "a7\<lparr>session_key := key, session_ready := True\<rparr>"]] by simp_all
  have ids: "id_pub a2 = id_pub w" "id_pub a7 = id_pub w" "id_priv a7 = id_priv w"
    using more_fields [OF more(1)] more_fields [OF more(2)] more_fields [OF more(3)] by simp_all
  have "tr (env w') = tr (env w) @ [Sent hello, Received frame]"
    using log w'(1) send_log [OF T snt] recv_log [OF T rcv] dec' by simp
  then show ?thesis
    using that [OF kem(2) gen [unfolded kem(1)] ser [unfolded ids(1)] parse ver
        dec [unfolded kem(1) dec'] kdf [unfolded dec'] w'(2,3) _ _ fin(2)] w'(4,5) ids by simp
qed

lemma server_handshake_Inr:
  fixes w w' :: "('e, 'x) engine_world_scheme"
  assumes T: "transport_contract send recv tr" and Q: "libs_quiet tr L"
    and run: "runServerHandshake L send recv w = (Inr fp, w')"
  obtains k frame hello ct ss sig response key and v1 v1' v2 v2' v3 v3' :: "('e, 'x) engine_world_scheme" where
    "is_kem (lb_kem L) k"
    "parse_hello (lb_proto L) frame (c_int (length frame)) = Some hello"
    "ed_verify (lb_pkey L) (hh_identity_pub hello) (client_msg (hh_kem_public_key hello))
       (hh_identity_sig hello) v1 = (Inr True, v1')"
    "kyber_encapsulate (lb_kem L) (Some k) (hh_kem_public_key hello) v2 = (Inr (ct, ss), v2')"
    "ser_response (lb_proto L) \<lparr>hr_kem_ciphertext = ct, hr_version = kVersion,
        hr_identity_pub = id_pub w, hr_identity_sig = sig\<rparr> = Some response"
    "hkdf_sha256 (lb_hkdf L) ss hkdf_salt hkdf_info 32 v3 = (Inr key, v3')"
    "session_key w' = key" "session_ready w'" "id_pub w' = id_pub w" "id_priv w' = id_priv w"
    "fp = fingerprint_hex (lb_pkey L) (hh_identity_pub hello)"
    "tr (env w') = tr (env w) @ [Received frame, Sent response]"
proof -
  let ?w0 = "w\<lparr>session_ready := False\<rparr>"
  obtain a0 frame hello a1 kem a2 ct ss a3 sig a4 response a5 key a6 where
    rcv: "callback_io recv ?w0 = (Inr (Some frame), a0)" and
    parse: "parse_hello (lb_proto L) frame (c_int (length frame)) = Some hello" and
    ver: "ed_verify (lb_pkey L) (hh_identity_pub hello) (client_msg (hh_kem_public_key hello))
       (hh_identity_sig hello) a0 = (Inr True, a1)" and
    init: "kyber_init (lb_kem L) a1 = (Inr kem, a2)" and
    enc: "kyber_encapsulate (lb_kem L) kem (hh_kem_public_key hello) a2 = (Inr (ct, ss), a3)" and
    sign: "ed_sign (lb_pkey L) (id_priv a3) (server_msg ct (hh_kem_public_key hello)) a3 = (Inr sig, a4)" and
    ser: "ser_response (lb_proto L) \<lparr>hr_kem_ciphertext = ct, hr_version = kVersion,
        hr_identity_pub = id_pub a4, hr_identity_sig = sig\<rparr> = Some response" and
    snt: "callback_io (send response) a4 = (Inr True, a5)" and
    kdf: "hkdf_sha256 (lb_hkdf L) ss hkdf_salt hkdf_info 32 a5 = (Inr key, a6)" and
    fin: "w' = kyber_destroy kem (a6\<lparr>session_key := key, session_ready := True\<rparr>)"
      "fp = fingerprint_hex (lb_pkey L) (hh_identity_pub hello)"
    using run unfolding runServerHandshake_def report_Inr serverHandshakeInternal_def server_reply_def with_kyber_def
    by (auto simp: io_Inr split_def)
  obtain k where kem: "kem = Some k" "is_kem (lb_kem L) k"
    using init unfolding kyber_init_Inr is_kem_def by blast
  let ?tr = "\<lambda>w :: ('e, 'x) engine_world_scheme. tr (env w)"
  note quiet = silent_calls [where g = ?tr, OF libs_quiet_silent [OF Q]]
  note still = silent_calls [where g = "world.more", OF libs_silent_more]
  have log: "?tr a1 = ?tr a0" "?tr a2 = ?tr a1" "?tr a3 = ?tr a2" "?tr a4 = ?tr a3" "?tr a6 = ?tr a5"
    using keepsD [OF quiet(6) ver] keepsD [OF quiet(2) init] keepsD [OF quiet(4) enc]
      keepsD [OF quiet(5) sign] keepsD [OF quiet(1) kdf] by simp_all
  have more: "world.more a4 = world.more ?w0" "world.more a6 = world.more a4"
    using keepsD [OF still(6) ver] keepsD [OF still(2) init] keepsD [OF still(4) enc]
      keepsD [OF still(5) sign] keepsD [OF still(1) kdf] callback_more [OF snt] callback_more [OF rcv]
    by simp_all
  note dest = kyber_destroy_blind [OF heap_blind_more] kyber_destroy_blind [where g = ?tr, OF heap_blind_env]
  have w': "tr (env w') = tr (env a6)" "session_key w' = key" "session_ready w'"
    "id_pub w' = id_pub a6" "id_priv w' = id_priv a6"
    using fin(1) dest(2) [of kem "a6\<lparr>session_key := key, session_ready := True\<rparr>"]
      more_fields [OF dest(1) [of kem "a6\<lparr>session_key := key, session_ready := True\<rparr>"]] by simp_all
  have ids: "id_pub a4 = id_pub w" "id_pub a6 = id_pub w" "id_priv a6 = id_priv w"
    using more_fields [OF more(1)] more_fields [OF more(2)] by simp_all
  have "tr (env w') = tr (env w) @ [Received frame, Sent response]"
    using log w'(1) send_log [OF T snt] recv_log [OF T rcv] by simp
  then show ?thesis
    using that [OF kem(2) parse ver enc [unfolded kem(1)] ser [unfolded ids(1)] kdf w'(2,3) _ _ fin(2)]
      w'(4,5) ids by simp
qed

section \<open>The contracts of the engine's libraries\<close>

text \<open>
  protobuf: what was serialized parses back, as long as its string fields are valid UTF-8
  (a proto3 parser refuses other strings; ASCII text is valid). A serialized message is
  below 2 GiB, and so is every field of a parsed one.
\<close>

definition ascii :: "string \<Rightarrow> bool" where
  "ascii s \<longleftrightarrow> list_all (\<lambda>c. of_char c < (128 :: nat)) s"

definition proto_contract :: "proto \<Rightarrow> bool" where
  "proto_contract B \<longleftrightarrow>
     (\<forall>m b. ser_hello B m = Some b \<longrightarrow>
        length b < 2 ^ 31 \<and> parse_hello B b (int (length b)) = Some m) \<and>
     (\<forall>m b. ser_response B m = Some b \<longrightarrow>
        length b < 2 ^ 31 \<and> parse_response B b (int (length b)) = Some m) \<and>
     (\<forall>m b. ser_chat B m = Some b \<longrightarrow> ascii (cm_sender_id m) \<longrightarrow>
        length b < 2 ^ 31 \<and> parse_chat B b (int (length b)) = Some m) \<and>
     (\<forall>m b. ser_envelope B m = Some b \<longrightarrow> ascii (ev_to_username m) \<longrightarrow>
        length b < 2 ^ 31 \<and> parse_envelope B b (int (length b)) = Some m) \<and>
     (\<forall>m b n. parse_chat B b n = Some m \<longrightarrow> length (cm_encrypted_content m) < 2 ^ 31)"

lemma proto_contractD:
  assumes "proto_contract B"
  shows "ser_hello B m = Some b \<Longrightarrow> parse_hello B b (c_int (length b)) = Some m"
    and "ser_response B m' = Some b \<Longrightarrow> parse_response B b (c_int (length b)) = Some m'"
    and "ser_chat B c = Some b \<Longrightarrow> ascii (cm_sender_id c) \<Longrightarrow> parse_chat B b (c_int (length b)) = Some c"
    and "ser_envelope B n = Some b \<Longrightarrow> ascii (ev_to_username n) \<Longrightarrow> parse_envelope B b (c_int (length b)) = Some n"
  using assms unfolding proto_contract_def by (metis c_int_small)+

end
