(* ===== verification/Handshake.thy ===== *)
theory Handshake
  imports Engine
begin

text \<open>
  What the handshakes and the messages of \<^verbatim>\<open>connection_engine.cpp\<close> achieve: agreement of the two
  ends, authentication, the state after a failure, and the round trip of a message.
\<close>

section \<open>Agreement\<close>

text \<open>The key of a successful handshake is HKDF of the shared secret.\<close>

lemma handshake_key:
  assumes H: "hkdf_contract (lb_hkdf L) vh H" and K: "kem_contract (lb_kem L)"
    and k: "is_kem (lb_kem L) k" and len: "length ss = length_shared_secret (lb_kem L) k"
    and kdf: "hkdf_sha256 (lb_hkdf L) ss hkdf_salt hkdf_info 32 v = (Inr key, v')"
  shows "key = H hkdf_salt ss hkdf_info 32"
proof -
  have "0 < length_shared_secret (lb_kem L) k" "length_shared_secret (lb_kem L) k < 2 ^ 31"
    using K k unfolding kem_contract_def by blast+
  then have "ss \<noteq> []" "length ss < 2 ^ 31"
    using len by auto
  moreover have "length hkdf_salt < 2 ^ 31" "length hkdf_info < 2 ^ 31"
    by (simp_all add: hkdf_salt_def hkdf_info_def)
  ultimately have "hkdf_sha256 (lb_hkdf L) ss hkdf_salt hkdf_info 32 v =
      (Inr (H hkdf_salt ss hkdf_info 32), v\<lparr>env := snd (hkdf_ctx_new (lb_hkdf L) (env v))\<rparr>)"
    by (intro hkdf_sha256_ok [OF H]) simp_all
  with kdf show ?thesis by simp
qed

text \<open>The keys agree as soon as the two ends agree on the KEM key and on the response, whoever the hello says it
  comes from.\<close>

lemma handshake_keys_agree:
  fixes w w' v v' :: "('e, 'x) engine_world_scheme"
  assumes "kem_contract (lb_kem L)" and "hkdf_contract (lb_hkdf L) vh H"
    and "proto_contract (lb_proto L)"
    and "transport_contract send recv tr" and "libs_quiet tr L"
    and "transport_contract send' recv' tr'" and "libs_quiet tr' L"
    and "runClientHandshake L send recv w = (Inr fpc, w')"
    and "runServerHandshake L send' recv' v = (Inr fps, v')"
    and "tr (env w') = tr (env w) @ [Sent a, Received b]"
    and "tr' (env v') = tr' (env v) @ [Received a', Sent b]"
    and "parse_hello (lb_proto L) a (c_int (length a)) = Some m"
    and "parse_hello (lb_proto L) a' (c_int (length a')) = Some m'"
    and "hh_kem_public_key m' = hh_kem_public_key m"
  shows "session_key w' = session_key v' \<and> session_ready w' \<and> session_ready v' \<and>
           fpc = fingerprint_hex (lb_pkey L) (id_pub v) \<and>
           fps = fingerprint_hex (lb_pkey L) (hh_identity_pub m') \<and> hh_identity_pub m = id_pub w"
  using assms(4,5,8)
proof (rule client_handshake_Inr)
  fix kc pk sk sigc hello frame resp ssc keyc and c1 c1' c2 c2' c3 :: "('e, 'x) engine_world_scheme"
  assume kc: "is_kem (lb_kem L) kc"
    and gen: "kyber_keypair (lb_kem L) (Some kc) c1 = (Inr (pk, sk), c1')"
    and serc: "ser_hello (lb_proto L) \<lparr>hh_kem_public_key = pk, hh_version = kVersion,
        hh_identity_pub = id_pub w, hh_identity_sig = sigc\<rparr> = Some hello"
    and parsec: "parse_response (lb_proto L) frame (c_int (length frame)) = Some resp"
    and dec: "kyber_decapsulate (lb_kem L) (Some kc) (hr_kem_ciphertext resp) sk c2' = (Inr ssc, c2')"
    and kdfc: "hkdf_sha256 (lb_hkdf L) ssc hkdf_salt hkdf_info 32 c2' = (Inr keyc, c3)"
    and outc: "session_key w' = keyc" "session_ready w'"
      "fpc = fingerprint_hex (lb_pkey L) (hr_identity_pub resp)"
    and "tr (env w') = tr (env w) @ [Sent hello, Received frame]"
  then have a: "hello = a" and b: "frame = b"
    using assms(10) by simp_all
  have m: "hh_kem_public_key m = pk" "hh_identity_pub m = id_pub w"
    using proto_contractD(1) [OF assms(3) serc] assms(12) a by auto
  show ?thesis
    using assms(6,7,9)
  proof (rule server_handshake_Inr)
    fix ks framec helloc ct ss sig response key and s1 s1' s2 s2' s3 s3' :: "('e, 'x) engine_world_scheme"
    assume ks: "is_kem (lb_kem L) ks"
      and parse: "parse_hello (lb_proto L) framec (c_int (length framec)) = Some helloc"
      and enc: "kyber_encapsulate (lb_kem L) (Some ks) (hh_kem_public_key helloc) s2 = (Inr (ct, ss), s2')"
      and ser: "ser_response (lb_proto L) \<lparr>hr_kem_ciphertext = ct, hr_version = kVersion,
        hr_identity_pub = id_pub v, hr_identity_sig = sig\<rparr> = Some response"
      and kdf: "hkdf_sha256 (lb_hkdf L) ss hkdf_salt hkdf_info 32 s3 = (Inr key, s3')"
      and out: "session_key v' = key" "session_ready v'"
        "fps = fingerprint_hex (lb_pkey L) (hh_identity_pub helloc)"
      and "tr' (env v') = tr' (env v) @ [Received framec, Sent response]"
    then have a': "framec = a'" and b': "response = b"
      using assms(11) by simp_all
    have helloc: "helloc = m'" "hh_kem_public_key helloc = pk"
      using parse assms(13,14) a' m(1) by auto
    have resp: "hr_kem_ciphertext resp = ct" "hr_identity_pub resp = id_pub v"
      using proto_contractD(2) [OF assms(3) ser] parsec b b' by auto
    have ss: "ssc = ss"
      using kem_agreement [OF assms(1) kc ks gen enc [unfolded helloc(2)]] dec resp by simp
    have len: "length ssc = length_shared_secret (lb_kem L) kc" "length ss = length_shared_secret (lb_kem L) ks"
      using dec enc by (auto simp: kyber_decapsulate_Inr kyber_encapsulate_Inr)
    show ?thesis
      using handshake_key [OF assms(2,1) kc len(1) kdfc] handshake_key [OF assms(2,1) ks len(2) kdf]
        ss out outc helloc(1) resp m(2) by simp
  qed
qed

lemma client_hello_parses:
  assumes "proto_contract (lb_proto L)" and "transport_contract send recv tr" and "libs_quiet tr L"
    and "runClientHandshake L send recv w = (Inr fp, w')" and "tr (env w') = tr (env w) @ [Sent a, Received b]"
  shows "\<exists>m. parse_hello (lb_proto L) a (c_int (length a)) = Some m"
  using assms(2-4)
proof (rule client_handshake_Inr, goal_cases)
  case 1
  then show ?case using proto_contractD(1) [OF assms(1) 1(3)] assms(5) by auto
qed

lemma handshake_agree:
  fixes w w' v v' :: "('e, 'x) engine_world_scheme"
  assumes "kem_contract (lb_kem L)" and "hkdf_contract (lb_hkdf L) vh H"
    and "proto_contract (lb_proto L)"
    and "transport_contract send recv tr" and "libs_quiet tr L"
    and "transport_contract send' recv' tr'" and "libs_quiet tr' L"
    and "runClientHandshake L send recv w = (Inr fpc, w')"
    and "runServerHandshake L send' recv' v = (Inr fps, v')"
    and "tr (env w') = tr (env w) @ [Sent a, Received b]"
    and "tr' (env v') = tr' (env v) @ [Received a, Sent b]"
  shows "session_key w' = session_key v' \<and> session_ready w' \<and> session_ready v' \<and>
           fpc = fingerprint_hex (lb_pkey L) (id_pub v) \<and>
           fps = fingerprint_hex (lb_pkey L) (id_pub w)"
proof -
  obtain m where "parse_hello (lb_proto L) a (c_int (length a)) = Some m"
    using client_hello_parses [OF assms(3-5,8,10)] by blast
  from handshake_keys_agree [OF assms this this refl] show ?thesis by simp
qed

text \<open>C1: if a client and a server both complete their handshake and each received exactly
  what the other one sent (their network logs match), they hold the same session key, both
  are ready to exchange messages, and each reports the fingerprint of the other's identity.\<close>

theorem handshake_agreement:
  fixes w w' v v' :: "('e, 'x) engine_world_scheme"
  assumes "kem_contract (lb_kem L)" and "hkdf_contract (lb_hkdf L) vh H"
    and "proto_contract (lb_proto L)"
    and "transport_contract send recv tr" and "libs_quiet tr L"
    and "transport_contract send' recv' tr'" and "libs_quiet tr' L"
    and "runClientHandshake L send recv w = (Inr fpc, w')"
    and "runServerHandshake L send' recv' v = (Inr fps, v')"
    and "tr (env w') = tr (env w) @ [Sent a, Received b]"
    and "tr' (env v') = tr' (env v) @ [Received a, Sent b]"
  shows "session_key w' = session_key v' \<and> session_ready w' \<and> session_ready v' \<and>
           fpc = fingerprint_hex (lb_pkey L) (id_pub v) \<and>
           fps = fingerprint_hex (lb_pkey L) (id_pub w)"
  using assms by (rule handshake_agree)

section \<open>Authentication\<close>

text \<open>C2: a client reports success only if the response carries a signature, valid under the
  peer identity whose fingerprint it reports, over the server's ciphertext and the very KEM
  public key this run generated and sent; the session key is the HKDF of the secret in it.\<close>

theorem client_authenticates_server:
  fixes w w' :: "('e, 'x) engine_world_scheme"
  assumes "ed_contract (lb_pkey L) ve Z" and "proto_contract (lb_proto L)"
    and "transport_contract send recv tr" and "libs_quiet tr L"
    and "runClientHandshake L send recv w = (Inr fp, w')"
  shows "\<exists>hello frame m resp.
           tr (env w') = tr (env w) @ [Sent hello, Received frame] \<and>
           parse_hello (lb_proto L) hello (c_int (length hello)) = Some m \<and>
           hh_identity_pub m = id_pub w \<and> hh_version m = kVersion \<and>
           parse_response (lb_proto L) frame (c_int (length frame)) = Some resp \<and>
           length (hr_identity_pub resp) = 32 \<and>
           ed_V Z (hr_identity_pub resp) (server_msg (hr_kem_ciphertext resp) (hh_kem_public_key m))
             (hr_identity_sig resp) \<and>
           fp = fingerprint_hex (lb_pkey L) (hr_identity_pub resp) \<and> session_ready w'"
  using assms(3-5)
proof (rule client_handshake_Inr, goal_cases)
  case (1 k pk sk sig hello frame resp ss key v1 v1' v2 v2' v3)
  then have "length (hr_identity_pub resp) = 32 \<and>
     ed_V Z (hr_identity_pub resp) (server_msg (hr_kem_ciphertext resp) pk) (hr_identity_sig resp)"
    using ed_verify_ok [OF assms(1), of "hr_identity_pub resp" "server_msg (hr_kem_ciphertext resp) pk"
        "hr_identity_sig resp" v2] by simp
  moreover have "parse_hello (lb_proto L) hello (c_int (length hello)) =
     Some \<lparr>hh_kem_public_key = pk, hh_version = kVersion, hh_identity_pub = id_pub w, hh_identity_sig = sig\<rparr>"
    using proto_contractD(1) [OF assms(2) 1(3)] .
  ultimately show ?case
    using 1 by auto
qed

lemma callback_appends:
  "(\<And>e. \<exists>ev. tr (snd (f e)) = tr e @ ev) \<Longrightarrow> appends tr (callback_io f)"
  by (auto simp: appends_def callback_io_def io_run split: sum.splits)

lemma transport_appends:
  assumes "transport_contract send recv tr"
  shows "appends tr (callback_io (send b))" "appends tr (callback_io recv)"
  using assms by (auto intro!: callback_appends simp: transport_contract_def)

lemma with_kyber_appends:
  assumes "libs_quiet tr L" and "\<And>kem. appends tr (body kem)"
  shows "appends tr (with_kyber (lb_kem L) body)"
proof -
  have "appends tr (kyber_init (lb_kem L))"
    by (intro keeps_appends kyber_init_keeps libs_quiet_silent assms(1))
  then show ?thesis
    unfolding with_kyber_def
    by (intro appends_bind appends_finally assms(2)) (simp_all add: kyber_destroy_def split: option.splits)
qed

lemma server_reply_appends:
  fixes L :: "('e, 'h) libs"
  assumes T: "transport_contract send recv tr" and Q: "libs_quiet tr L"
  shows "appends tr (server_reply L send hello :: (('e, 'x) engine_world_scheme, string) io)"
proof -
  note quiet = silent_calls [THEN keeps_appends, OF libs_quiet_silent [OF Q]]
    keeps_get [THEN keeps_appends] keeps_guard [THEN keeps_appends] require_keeps [THEN keeps_appends]
    keeps_ret [THEN keeps_appends] transport_appends [OF T]
  have set: "appends tr (modify_io (\<lambda>w :: ('e, 'x) engine_world_scheme.
      w\<lparr>session_key := key, session_ready := True\<rparr>))" for key
    by (rule keeps_appends [OF keeps_modify]) simp
  show ?thesis
    unfolding server_reply_def split_def
    by (intro with_kyber_appends [OF Q]) ((rule appends_bind, rule quiet set)+, rule quiet)
qed

text \<open>The state a server handshake ends in, stage by stage.\<close>

lemma server_handshake_stages:
  fixes w :: "('e, 'x) engine_world_scheme" and L and recv :: "'e recv_fn"
  defines "w0 \<equiv> w\<lparr>session_ready := False, env := snd (recv (env w))\<rparr>"
  obtains (unloaded) "snd (runServerHandshake L send recv w) = w\<lparr>session_ready := False\<rparr>"
  | (unread) "\<nexists>f. fst (recv (env w)) = Inr (Some f)" "snd (runServerHandshake L send recv w) = w0"
  | (unparsed) f where "fst (recv (env w)) = Inr (Some f)" "snd (runServerHandshake L send recv w) = w0"
  | (unverified) f and hello :: handshake_hello where "fst (recv (env w)) = Inr (Some f)"
      "snd (runServerHandshake L send recv w) = snd (ed_verify (lb_pkey L) (hh_identity_pub hello)
         (client_msg (hh_kem_public_key hello)) (hh_identity_sig hello) w0)"
  | (verified) f hello w1 where "fst (recv (env w)) = Inr (Some f)"
      "parse_hello (lb_proto L) f (c_int (length f)) = Some hello"
      "ed_verify (lb_pkey L) (hh_identity_pub hello)
         (client_msg (hh_kem_public_key hello)) (hh_identity_sig hello) w0 = (Inr True, w1)"
      "snd (runServerHandshake L send recv w) = snd (server_reply L send hello w1)"
proof -
  let ?s = "snd (runServerHandshake L send recv w)"
  let ?verify = "\<lambda>hello :: handshake_hello. ed_verify (lb_pkey L) (hh_identity_pub hello)
         (client_msg (hh_kem_public_key hello)) (hh_identity_sig hello) w0"
  have loaded: "is_loaded (w\<lparr>session_ready := False\<rparr>) = is_loaded w"
    by (simp add: is_loaded_def)
  note run = runServerHandshake_def serverHandshakeInternal_def io_run loaded callback_io_def w0_def
    require_io_def
  show ?thesis
  proof (cases "is_loaded w")
    case False
    then show ?thesis by (intro unloaded) (simp add: run)
  next
    case True
    show ?thesis
    proof (cases "\<exists>f. fst (recv (env w)) = Inr (Some f)")
      case False
      with True show ?thesis
        by (intro unread) (auto simp: run split: sum.splits option.splits)
    next
      case rcv: True
      then obtain f where f: "fst (recv (env w)) = Inr (Some f)" by blast
      show ?thesis
      proof (cases "parse_hello (lb_proto L) f (c_int (length f))")
        case None
        with True f show ?thesis by (intro unparsed [OF f]) (simp add: run)
      next
        case (Some hello)
        obtain ok w1 where ver: "?verify hello = (ok, w1)" by (cases "?verify hello")
        have "?s = (if ok = Inr True then snd (server_reply L send hello w1) else w1)"
          using True f Some ver by (auto simp: run split: sum.splits)
        with f Some ver show ?thesis
          by (cases "ok = Inr True") (auto intro: unverified [of f hello] verified)
      qed
    qed
  qed
qed

text \<open>C3: whatever the outcome, a server handshake sends something only in answer to a hello
  whose signature verifies under the identity key it carries.\<close>

theorem server_answers_only_verified:
  fixes w :: "('e, 'x) engine_world_scheme"
  assumes "ed_contract (lb_pkey L) ve Z"
    and "transport_contract send recv tr" and "libs_quiet tr L"
    and "tr (env (snd (runServerHandshake L send recv w))) = tr (env w) @ ev"
    and "Sent r \<in> set ev"
  shows "\<exists>frame hello rest. ev = Received frame # rest \<and>
           parse_hello (lb_proto L) frame (c_int (length frame)) = Some hello \<and>
           length (hh_identity_pub hello) = 32 \<and>
           ed_V Z (hh_identity_pub hello) (client_msg (hh_kem_public_key hello)) (hh_identity_sig hello)"
proof (cases rule: server_handshake_stages [of L send recv w])
  case unloaded
  then show ?thesis using assms(4,5) by simp
next
  case unread
  then have "ev = []"
    using assms(2,4) by (auto simp: transport_contract_def split: sum.splits option.splits)
  then show ?thesis using assms(5) by simp
next
  case (unparsed f)
  then have "ev = [Received f]"
    using assms(2,4) by (simp add: transport_contract_def)
  then show ?thesis using assms(5) by simp
next
  case (unverified f hello)
  have "keeps (\<lambda>w :: ('e, 'x) engine_world_scheme. tr (env w)) (ed_verify (lb_pkey L)
      (hh_identity_pub hello) (client_msg (hh_kem_public_key hello)) (hh_identity_sig hello))"
    by (intro silent_calls libs_quiet_silent assms(3))
  then have "tr (env (snd (runServerHandshake L send recv w))) = tr (env w) @ [Received f]"
    using unverified assms(2) by (simp add: keeps_def transport_contract_def)
  then show ?thesis using assms(4,5) by simp
next
  case (verified f hello w1)
  have w1: "tr (env w1) = tr (env w) @ [Received f]"
    using keepsD [OF silent_calls(6) [OF libs_quiet_silent [OF assms(3)]] verified(3)] verified(1) assms(2)
    by (simp add: transport_contract_def)
  obtain rest where "tr (env (snd (server_reply L send hello w1))) = tr (env w1) @ rest"
    using server_reply_appends [OF assms(2,3)] unfolding appends_def by blast
  then have "ev = Received f # rest"
    using w1 verified(4) assms(4) by simp
  moreover have "length (hh_identity_pub hello) = 32 \<and>
      ed_V Z (hh_identity_pub hello) (client_msg (hh_kem_public_key hello)) (hh_identity_sig hello)"
    using ed_verify_ok [OF assms(1), of "hh_identity_pub hello" "client_msg (hh_kem_public_key hello)"
        "hh_identity_sig hello" "w\<lparr>session_ready := False, env := snd (recv (env w))\<rparr>"] verified(3) by simp
  ultimately show ?thesis using verified(2) by blast
qed

text \<open>What a client signs is never what a server signs, so neither signature can be replayed
  in the other role; and each signature fixes the KEM values it covers (the ciphertexts of one KEM
  have one length).\<close>

theorem signed_messages_separate:
  "client_msg pk \<noteq> server_msg ct pk' \<and> (client_msg pk = client_msg pk' \<longleftrightarrow> pk = pk') \<and>
   (length ct = length ct' \<and> server_msg ct pk = server_msg ct' pk' \<longleftrightarrow> ct = ct' \<and> pk = pk')"
proof (intro conjI)
  have "take 20 (client_msg pk) \<noteq> take 20 (server_msg ct pk')"
    by (simp add: concat_msg_def bytes_of_def)
  then show "client_msg pk \<noteq> server_msg ct pk'" by auto
qed (auto simp: concat_msg_def)

end
