(* ===== verification/Messages.thy ===== *)
theory Messages
  imports Handshake
begin

text \<open>
  The life of a ConnectionEngine: which operations may follow which, what every reachable
  state satisfies, and what the messages of an established session achieve.
\<close>

section \<open>Failing without a session\<close>

text \<open>
  \<open>fails_unready m\<close>: a path of \<open>m\<close> that throws leaves \<open>sessionReady_\<close> false if it was
  false, and one that returns with \<open>sessionReady_\<close> set leaves a 32-byte key.
\<close>

definition settled :: "(exn + 'a) \<times> ('e, 'x) engine_world_scheme \<Rightarrow> bool" where
  "settled p \<longleftrightarrow> (case fst p of
       Inl _ \<Rightarrow> \<not> session_ready (snd p)
     | Inr _ \<Rightarrow> session_ready (snd p) \<and> length (session_key (snd p)) = KEY_SIZE)"

definition fails_unready :: "(('e, 'x) engine_world_scheme, 'a) io \<Rightarrow> bool" where
  "fails_unready m \<longleftrightarrow> (\<forall>w. \<not> session_ready w \<longrightarrow> settled (m w))"

lemma keeps_more_ready: "keeps world.more m \<Longrightarrow> keeps session_ready m"
  unfolding keeps_def using more_fields(4) by blast

lemma fails_unready_bind:
  assumes "keeps session_ready m" and "\<And>x. fails_unready (k x)"
  shows "fails_unready (bind_io m k)"
  unfolding fails_unready_def
proof (intro allI impI)
  fix w :: "('a, 'b) engine_world_scheme"
  assume w: "\<not> session_ready w"
  obtain r w1 where m: "m w = (r, w1)" by (cases "m w")
  then have "\<not> session_ready w1"
    using keepsD [OF assms(1) m] w by simp
  show "settled (bind_io m k w)"
  proof (cases r)
    case (Inl e)
    with m \<open>\<not> session_ready w1\<close> show ?thesis by (simp add: io_run settled_def)
  next
    case (Inr x)
    with m have "bind_io m k w = k x w1" by (simp add: io_run)
    with assms(2) \<open>\<not> session_ready w1\<close> show ?thesis by (simp add: fails_unready_def)
  qed
qed

lemma callback_keeps_more: "keeps world.more (callback_io f)"
  unfolding callback_io_def by (auto intro!: keeps_intros split: sum.splits)

lemma settled_destructor:
  "settled p \<Longrightarrow> session_ready (c (snd p)) = session_ready (snd p) \<Longrightarrow>
     session_key (c (snd p)) = session_key (snd p) \<Longrightarrow> settled (fst p, c (snd p))"
  by (cases "fst p") (simp_all add: settled_def)

lemma with_kyber_fails_unready:
  fixes L :: "('e, 'h) libs"
  shows "(\<And>kem. fails_unready (body kem)) \<Longrightarrow> fails_unready (with_kyber (lb_kem L) body)"
  unfolding with_kyber_def
proof (rule fails_unready_bind)
  show "keeps session_ready (kyber_init (lb_kem L))"
    by (intro keeps_more_ready kyber_init_keeps libs_silent_more)
next
  fix kem :: "'h option"
  assume "\<And>kem. fails_unready (body kem)"
  moreover have "session_ready (kyber_destroy kem w) = session_ready w"
    "session_key (kyber_destroy kem w) = session_key w" for w :: "('e, 'a) engine_world_scheme"
    by (simp_all add: kyber_destroy_def release_def split: option.splits)
  ultimately show "fails_unready (finally_io (body kem) (kyber_destroy kem))"
    by (simp add: fails_unready_def settled_destructor io_run)
qed

lemma hkdf_sha256_length:
  assumes "hkdf_sha256 L ikm salt info n w = (Inr key, w')"
  shows "length key = n"
proof (cases "fst (hkdf_ctx_new L (env w))")
  case None
  with assms show ?thesis by (simp add: hkdf_sha256_def io_run)
next
  case (Some h)
  with assms obtain out where "key = fill n out"
    unfolding hkdf_sha256_def Let_def split_def by (auto simp: bind_io_Inr acquire_io_run ret_Inr)
  then show ?thesis by simp
qed

lemma session_set_fails_unready:
  fixes L :: "('e, 'h) libs"
  shows "fails_unready (bind_io (hkdf_sha256 (lb_hkdf L) ss s i 32) (\<lambda>key.
     bind_io (modify_io (\<lambda>w. w\<lparr>session_key := key, session_ready := True\<rparr>)) (\<lambda>_. ret_io x)) ::
     (('e, 'x) engine_world_scheme, 'c) io)"
  unfolding fails_unready_def
proof (intro allI impI)
  fix w :: "('e, 'x) engine_world_scheme"
  assume w: "\<not> session_ready w"
  obtain r w1 where h: "hkdf_sha256 (lb_hkdf L) ss s i 32 w = (r, w1)"
    by (cases "hkdf_sha256 (lb_hkdf L) ss s i 32 w")
  have "keeps session_ready (hkdf_sha256 (lb_hkdf L) ss s i 32)"
    by (intro keeps_more_ready hkdf_sha256_keeps libs_silent_more)
  from keepsD [OF this h] w have "\<not> session_ready w1" by simp
  moreover have "r = Inr key \<Longrightarrow> length key = 32" for key
    using h hkdf_sha256_length by blast
  ultimately show "settled (bind_io (hkdf_sha256 (lb_hkdf L) ss s i 32) (\<lambda>key.
     bind_io (modify_io (\<lambda>w. w\<lparr>session_key := key, session_ready := True\<rparr>)) (\<lambda>_. ret_io x)) w)"
    by (cases r) (simp_all add: h io_run settled_def KEY_SIZE_def)
qed

lemmas ready_kept =
  keeps_get keeps_guard require_keeps callback_keeps_more [THEN keeps_more_ready]
  silent_calls [OF libs_silent_more, THEN keeps_more_ready] kyber_decapsulate_keeps

lemma client_fails_unready: "fails_unready (clientHandshakeInternal L send recv)"
  unfolding clientHandshakeInternal_def split_def
  by (rule fails_unready_bind [OF keeps_get], rule fails_unready_bind [OF keeps_guard],
      rule with_kyber_fails_unready)
     ((rule session_set_fails_unready | rule fails_unready_bind, rule ready_kept)+)

lemma server_fails_unready: "fails_unready (serverHandshakeInternal L send recv)"
proof -
  have "fails_unready (server_reply L send hello)" for hello
    unfolding server_reply_def split_def
    by (rule with_kyber_fails_unready)
       ((rule session_set_fails_unready | rule fails_unready_bind, rule ready_kept)+)
  then show ?thesis
    unfolding serverHandshakeInternal_def
    by - ((assumption | rule fails_unready_bind, rule ready_kept)+)
qed

section \<open>Library objects\<close>

lemma create_profile_heap: "heap_run [] (create_profile L P F path pw) [] []"
  unfolding create_profile_def
  by (intro heap_run_bind [OF gen_ed25519_heap] heap_run_bind [OF random_bytes_heap]
      heap_run_bind [OF pbkdf2_heap] heap_run_bind [OF AESGCM_new_heap]
      heap_run_bind [OF heap_run_get] heap_run_bind [OF aes_encrypt_heap]
      heap_run_bind [OF heap_run_env] heap_run_bind [OF heap_run_guard] heap_run_guard)

text \<open>
  \<open>balanced m\<close>: outside any use of a cipher context, no path of \<open>m\<close> leaks. Unlike \<open>heap_run\<close>
  it says nothing of double frees, so decryption has it too.
\<close>

definition balanced :: "(('e, 'x) world_scheme, 'a) io \<Rightarrow> bool" where
  "balanced m \<longleftrightarrow> (\<forall>w. CipherCtx \<notin> set (live w) \<longrightarrow> live (snd (m w)) = live w)"

lemma heap_run_balanced: "heap_run [] m [] [] \<Longrightarrow> balanced m"
  using heap_run_liveD(1) unfolding balanced_def by blast

lemma balanced_aes_decrypt: "balanced (aes_decrypt L k x n)"
  unfolding balanced_def by (intro allI impI aes_decrypt_heap(1))

lemma balanced_bind:
  fixes m :: "(('e, 'x) world_scheme, 'a) io"
  assumes "balanced m" and "\<And>x. balanced (k x)"
  shows "balanced (bind_io m k)"
  unfolding balanced_def
proof (intro allI impI)
  fix w :: "('e, 'x) world_scheme"
  assume w: "CipherCtx \<notin> set (live w)"
  obtain r w1 where m: "m w = (r, w1)" by (cases "m w")
  then have "live w1 = live w" using assms(1) w by (metis balanced_def snd_conv)
  with assms(2) m w show "live (snd (bind_io m k w)) = live w"
    by (cases r) (simp_all add: io_run balanced_def)
qed

lemmas balanced_rules =
  balanced_bind balanced_aes_decrypt
  heap_run_balanced [OF create_profile_heap] heap_run_balanced [OF pbkdf2_heap]
  heap_run_balanced [OF AESGCM_new_heap] heap_run_balanced [OF callback_heap]
  heap_run_balanced [OF require_heap] heap_run_balanced [OF heap_run_guard]
  heap_run_balanced [OF heap_run_get] heap_run_balanced [OF heap_run_ret]
  heap_run_balanced [OF heap_run_env] heap_run_balanced [OF heap_run_throw]

lemma unlock_profile_balanced: "balanced (unlock_profile L P pw it salt nonce ct)"
proof -
  have "balanced (modify_io (\<lambda>w :: ('a, 'b) ident_world_scheme. w\<lparr>id_priv := p\<rparr>))" for p
    by (rule heap_run_balanced, rule heap_run_modify) simp_all
  then show ?thesis
    unfolding unlock_profile_def by (intro balanced_rules)
qed

lemma load_profile_balanced: "balanced (load_profile L P F junk path pw)"
  unfolding balanced_def
proof (intro allI impI)
  fix w :: "('a, 'b) ident_world_scheme"
  assume w: "CipherCtx \<notin> set (live w)"
  show "live (snd (load_profile L P F junk path pw w)) = live w"
  proof (cases rule: load_profile_cases [of F path w L P junk pw])
    case (parsed content e' it salt nonce pub ct rest)
    then show ?thesis
      using w unlock_profile_balanced [unfolded balanced_def, rule_format,
          of "w\<lparr>env := e', id_pub := pub\<rparr>" L P pw it salt nonce ct] by simp
  qed
qed

lemma loadOrCreateIdentity_live:
  assumes "CipherCtx \<notin> set (live w)"
  shows "live (snd (loadOrCreateIdentity L path pw w)) = live w"
  unfolding loadOrCreateIdentity_def snd_report
  by (rule balanced_def [THEN iffD1, rule_format, OF _ assms],
      rule balanced_bind, rule balanced_rules)
     (auto intro!: balanced_rules load_profile_balanced)

lemma parseAndDecryptMessage_live:
  assumes "CipherCtx \<notin> set (live w)"
  shows "live (snd (parseAndDecryptMessage L frame w)) = live w"
  unfolding parseAndDecryptMessage_def snd_report
  by (rule balanced_def [THEN iffD1, rule_format, OF _ assms])
     (auto intro!: balanced_rules simp: session_decrypt_def)

lemma encrypt_live: "live (snd (encryptAndSerializeMessage L plain from to w)) = live w"
  and encrypt_double_freed:
    "double_freed (snd (encryptAndSerializeMessage L plain from to w)) = double_freed w"
  unfolding encryptAndSerializeMessage_def snd_report
  by (rule heap_run_liveD, intro heap_run_bind [OF heap_run_get] heap_run_bind [OF heap_run_guard]
      heap_run_bind [OF random_nonce_heap] heap_run_bind [OF session_encrypt_heap]
      heap_run_bind [OF heap_run_env] heap_run_bind [OF require_heap] require_heap)+

section \<open>The life of an engine\<close>

text \<open>
  One step is one call of a public member function, with any arguments and callbacks, or a
  change of the outside world between two calls.
\<close>

inductive engine_step ::
  "('e, 'h) libs \<Rightarrow> ('e, 'x) engine_world_scheme \<Rightarrow> ('e, 'x) engine_world_scheme \<Rightarrow> bool"
  for L :: "('e, 'h) libs" where
  load: "engine_step L w (snd (loadOrCreateIdentity L path password w))"
| client: "engine_step L w (snd (runClientHandshake L send recv w))"
| server: "engine_step L w (snd (runServerHandshake L send recv w))"
| encrypt: "engine_step L w (snd (encryptAndSerializeMessage L plaintext senderId toUsername w))"
| decrypt: "engine_step L w (snd (parseAndDecryptMessage L frame w))"
| outside: "engine_step L w (w\<lparr>env := e\<rparr>)"

definition engine_init :: "('e, 'x) engine_world_scheme \<Rightarrow> bool" where
  "engine_init w \<longleftrightarrow> live w = [] \<and> \<not> double_freed w \<and> id_pub w = [] \<and> id_priv w = [] \<and>
     session_key w = [] \<and> \<not> session_ready w"

inductive engine_reach :: "('e, 'h) libs \<Rightarrow> ('e, 'x) engine_world_scheme \<Rightarrow> bool"
  for L :: "('e, 'h) libs" where
  init: "engine_init w \<Longrightarrow> engine_reach L w"
| step: "engine_reach L w \<Longrightarrow> engine_step L w w' \<Longrightarrow> engine_reach L w'"

inductive_cases engine_stepE: "engine_step L w w'"

definition engine_inv :: "('e, 'x) engine_world_scheme \<Rightarrow> bool" where
  "engine_inv w \<longleftrightarrow> live w = [] \<and> (session_ready w \<longrightarrow> length (session_key w) = KEY_SIZE)"

lemma handshake_settled:
  assumes "fails_unready m"
  shows "settled (bind_io (modify_io (\<lambda>w. w\<lparr>session_ready := False\<rparr>)) (\<lambda>_. m) w)"
  using assms by (simp add: fails_unready_def io_run)

lemma settled_inv: "settled p \<Longrightarrow> session_ready (snd p) \<Longrightarrow> length (session_key (snd p)) = KEY_SIZE"
  by (auto simp: settled_def split: sum.splits)

lemma handshake_live:
  assumes "heap_run [] m [] []"
  shows "live (snd (bind_io (modify_io (\<lambda>w. w\<lparr>session_ready := False\<rparr>)) (\<lambda>_. m) w)) = live w"
  by (rule heap_run_liveD(1)) (intro heap_run_bind [OF heap_run_modify] assms, simp_all)

lemma session_kept:
  assumes "keeps world.more m"
  shows "session_key (snd (m w)) = session_key w" "session_ready (snd (m w)) = session_ready w"
  using more_fields(3,4) [of "snd (m w)" w] assms by (simp_all add: keeps_def)

lemma aes_encrypt_keeps: "libs_silent g L \<Longrightarrow> keeps g (aes_encrypt (lb_cipher L) k p n)"
  unfolding aes_encrypt_def encrypt_body_def split_def
  by (intro keeps_intros) (simp_all add: libs_silent_def)

lemma aes_decrypt_keeps: "libs_silent g L \<Longrightarrow> keeps g (aes_decrypt (lb_cipher L) k x n)"
  unfolding aes_decrypt_def decrypt_body_def split_def Let_def
  by (intro keeps_intros) (simp_all add: libs_silent_def)

lemma AESGCM_new_keeps: "keeps g (AESGCM_new k)"
  unfolding AESGCM_new_def by (intro keeps_intros)

lemma encryptAndSerialize_keeps:
  fixes L :: "('e, 'h) libs"
  shows "world.more (snd (encryptAndSerializeMessage L plain from to w)) = world.more w"
  unfolding encryptAndSerializeMessage_def snd_report
  by (rule keeps_def [THEN iffD1, rule_format])
     (intro keeps_intros silent_calls [OF libs_silent_more] silent_more, simp add: session_encrypt_def
       keeps_intros AESGCM_new_keeps aes_encrypt_keeps)

lemma parseAndDecrypt_keeps:
  fixes L :: "('e, 'h) libs"
  shows "world.more (snd (parseAndDecryptMessage L frame w)) = world.more w"
  unfolding parseAndDecryptMessage_def snd_report
  by (rule keeps_def [THEN iffD1, rule_format])
     (intro keeps_intros, simp add: session_decrypt_def keeps_intros AESGCM_new_keeps aes_decrypt_keeps)

text \<open>The identity functions do not touch the session.\<close>

lemma ident_more_blind [intro, simp]: "heap_blind ident_world.more" "silent ident_world.more f"
  by (simp_all add: heap_blind_def silent_def)

lemma modify_id_keeps:
  "keeps ident_world.more (modify_io (\<lambda>w. w\<lparr>id_pub := f w\<rparr>))"
  "keeps ident_world.more (modify_io (\<lambda>w. w\<lparr>id_priv := f w\<rparr>))"
  "keeps ident_world.more (modify_io (\<lambda>w. w\<lparr>id_pub := f w, id_priv := g w\<rparr>))"
  by (simp_all add: keeps_def io_run)

lemma gen_ed25519_session: "keeps ident_world.more (gen_ed25519 P)"
  unfolding gen_ed25519_def split_def Let_def
  by (intro keeps_intros modify_id_keeps ident_more_blind)

lemma random_bytes_session: "keeps ident_world.more (random_bytes L n)"
  unfolding random_bytes_def split_def by (intro keeps_intros ident_more_blind)

lemma pbkdf2_keeps: "keeps g (pbkdf2_sha256 P pw salt it n)"
  unfolding pbkdf2_sha256_def split_def Let_def by (intro keeps_intros)

lemma aes_session:
  "keeps ident_world.more (aes_encrypt L k p n)" "keeps ident_world.more (aes_decrypt L k p n)"
  unfolding aes_encrypt_def encrypt_body_def aes_decrypt_def decrypt_body_def split_def Let_def
  by (intro keeps_intros ident_more_blind)+

lemma create_profile_session: "keeps ident_world.more (create_profile L P F path pw)"
  unfolding create_profile_def
  by (intro keeps_intros gen_ed25519_session random_bytes_session pbkdf2_keeps AESGCM_new_keeps
      aes_session ident_more_blind)

lemma load_profile_session: "keeps ident_world.more (load_profile L P F junk path pw)"
  unfolding load_profile_def split_def Let_def
  by (intro keeps_intros modify_id_keeps pbkdf2_keeps AESGCM_new_keeps aes_session ident_more_blind)

lemma loadOrCreateIdentity_session:
  "ident_world.more (snd (loadOrCreateIdentity L path pw w)) = ident_world.more w"
proof -
  have "keeps ident_world.more (callback_io f)" for f
    unfolding callback_io_def by (auto intro!: keeps_intros split: sum.splits)
  then show ?thesis
    unfolding loadOrCreateIdentity_def snd_report
    by (rule keeps_def [THEN iffD1, rule_format, OF keeps_bind])
       (intro keeps_intros create_profile_session load_profile_session)
qed

lemma ident_more_fields:
  fixes v w :: "('e, 'x) engine_world_scheme"
  assumes "ident_world.more v = ident_world.more w"
  shows "session_key v = session_key w" "session_ready v = session_ready w"
  using assms by (cases v; cases w; simp)+

lemma engine_inv_step:
  assumes "engine_inv w" and "engine_step L w w'"
  shows "engine_inv w'"
proof -
  have live: "live w = []" "CipherCtx \<notin> set (live w)"
    using assms(1) by (simp_all add: engine_inv_def)
  from assms(2) show ?thesis
  proof (cases rule: engine_step.cases)
    case (load path password)
    then show ?thesis
      using assms(1) loadOrCreateIdentity_live [OF live(2), of L path password]
        ident_more_fields [OF loadOrCreateIdentity_session [of L path password w]] by (simp add: engine_inv_def)
  next
    case (client send recv)
    then show ?thesis
      using live handshake_live [OF clientHandshake_heap, of L send recv w]
        settled_inv [OF handshake_settled [OF client_fails_unready, of L send recv w]]
      by (simp add: engine_inv_def runClientHandshake_def)
  next
    case (server send recv)
    then show ?thesis
      using live handshake_live [OF serverHandshake_heap, of L send recv w]
        settled_inv [OF handshake_settled [OF server_fails_unready, of L send recv w]]
      by (simp add: engine_inv_def runServerHandshake_def)
  next
    case (encrypt plaintext senderId toUsername)
    then show ?thesis
      using assms(1) encrypt_live [of L plaintext senderId toUsername w]
        more_fields(3,4) [OF encryptAndSerialize_keeps [of L plaintext senderId toUsername w]]
      by (simp add: engine_inv_def)
  next
    case (decrypt frame)
    then show ?thesis
      using assms(1) parseAndDecryptMessage_live [OF live(2), of L frame]
        more_fields(3,4) [OF parseAndDecrypt_keeps [of L frame w]]
      by (simp add: engine_inv_def)
  next
    case (outside e)
    then show ?thesis using assms(1) by (simp add: engine_inv_def)
  qed
qed

text \<open>C6: in every state an engine can reach, through any sequence of calls with any results of
  the libraries and of the network, no library object is leaked, and an engine that is ready to
  exchange messages holds a key of exactly 32 bytes.\<close>

theorem engine_reach_inv:
  assumes "engine_reach L w"
  shows "engine_inv w"
  using assms
proof (induction rule: engine_reach.induct)
  case (init w)
  then show ?case by (simp add: engine_init_def engine_inv_def)
next
  case (step w w')
  then show ?case using engine_inv_step by blast
qed

text \<open>C7: a handshake that fails leaves no usable session, even if there was one before: both
  message functions then refuse, and change nothing.\<close>

theorem failed_handshake_clears_session:
  assumes "runClientHandshake L send recv w = (Inl err, w') \<or> runServerHandshake L send recv w = (Inl err, w')"
  shows "\<not> session_ready w' \<and>
     encryptAndSerializeMessage L plain sender to w' = (Inl ''Session key not established'', w') \<and>
     parseAndDecryptMessage L frame w' = (Inl ''Session key not established'', w')"
proof -
  have "\<not> session_ready w'"
    using assms
  proof
    assume "runClientHandshake L send recv w = (Inl err, w')"
    then show ?thesis
      using handshake_settled [OF client_fails_unready, of L send recv w]
      by (auto simp: runClientHandshake_def report_Inl settled_def)
  next
    assume "runServerHandshake L send recv w = (Inl err, w')"
    then show ?thesis
      using handshake_settled [OF server_fails_unready, of L send recv w]
      by (auto simp: runServerHandshake_def report_Inl settled_def)
  qed
  then show ?thesis
    by (simp add: encryptAndSerializeMessage_def parseAndDecryptMessage_def report_def io_run)
qed

section \<open>Messages of an established session\<close>

lemma encrypt_Inr:
  fixes w w' :: "('e, 'x) engine_world_scheme"
  assumes C: "gcm_contract (lb_cipher L) view G" and len: "length plain < 2 ^ 31"
    and run: "encryptAndSerializeMessage L plain sender to w = (Inr frame, w')"
  obtains nonce c inner now now' where
    "length (session_key w) = KEY_SIZE" "length nonce = NONCE_SIZE"
    "c = gcm_E G (session_key w) nonce (bytes_of plain)"
    "ser_chat (lb_proto L) \<lparr>cm_sender_id = sender,
       cm_encrypted_content = c @ gcm_T G (session_key w) nonce c,
       cm_nonce = nonce, cm_timestamp_unix = now\<rparr> = Some inner"
    "ser_envelope (lb_proto L) \<lparr>ev_version = kVersion, ev_to_username = to, ev_sender_pubkey = [],
       ev_payload_e2e = inner, ev_client_timestamp = now'\<rparr> = Some frame"
proof -
  obtain nonce w1 ct w2 now inner now' where
    n: "random_nonce (lb_cipher L) w = (Inr nonce, w1)" and
    ct: "session_encrypt (lb_cipher L) (session_key w1) (bytes_of plain) nonce w1 = (Inr ct, w2)" and
    ser: "ser_chat (lb_proto L) \<lparr>cm_sender_id = sender, cm_encrypted_content = ct,
       cm_nonce = nonce, cm_timestamp_unix = now\<rparr> = Some inner"
      "ser_envelope (lb_proto L) \<lparr>ev_version = kVersion, ev_to_username = to, ev_sender_pubkey = [],
       ev_payload_e2e = inner, ev_client_timestamp = now'\<rparr> = Some frame"
    using run unfolding encryptAndSerializeMessage_def report_Inr by (auto simp: io_Inr)
  have key: "session_key w1 = session_key w"
    using session_kept(1) [OF random_nonce_keeps [OF libs_silent_more, of L], of w] n by simp
  have k: "length (session_key w) = KEY_SIZE" and nl: "length nonce = NONCE_SIZE"
    using session_encrypt_Inr_key [of "lb_cipher L" "session_key w1" "bytes_of plain" nonce w1 ct]
      session_encrypt_Inr_nonce [of "lb_cipher L" "session_key w1" "bytes_of plain" nonce w1 ct]
      ct key by simp_all
  let ?c = "gcm_E G (session_key w) nonce (bytes_of plain)"
  have "ct = ?c @ gcm_T G (session_key w) nonce ?c"
    using ct aes_encrypt_ok [OF C k nl, of "bytes_of plain" w1] len
    by (simp add: session_encrypt_eq key k)
  with ser k nl show ?thesis by (auto intro: that)
qed

lemma message_decrypts:
  fixes v w w' :: "('e, 'x) engine_world_scheme"
  assumes "gcm_contract (lb_cipher L) view G" and "proto_contract (lb_proto L)"
    and "ascii sender" and "ascii to" and "length plain < 2 ^ 31"
    and "encryptAndSerializeMessage L plain sender to w = (Inr frame, w')"
    and "session_ready v" and "session_key v = session_key w"
  shows "\<exists>e. parseAndDecryptMessage L frame v = (Inr plain, v\<lparr>env := e\<rparr>)"
  using assms(1,5,6)
proof (rule encrypt_Inr)
  fix nonce c inner now now'
  assume k: "length (session_key w) = KEY_SIZE" and n: "length nonce = NONCE_SIZE"
    and c: "c = gcm_E G (session_key w) nonce (bytes_of plain)"
    and chat: "ser_chat (lb_proto L) \<lparr>cm_sender_id = sender,
       cm_encrypted_content = c @ gcm_T G (session_key w) nonce c,
       cm_nonce = nonce, cm_timestamp_unix = now\<rparr> = Some inner"
    and en: "ser_envelope (lb_proto L) \<lparr>ev_version = kVersion, ev_to_username = to,
       ev_sender_pubkey = [], ev_payload_e2e = inner, ev_client_timestamp = now'\<rparr> = Some frame"
  have D: "gcm_D G (session_key w) nonce c = bytes_of plain" "length c < 2 ^ 31"
    using gcm_contractD(1) [OF assms(1)] k n c assms(5) by (simp_all add: gcm_cipher_ok_def)
  show ?thesis
    using proto_contractD(4) [OF assms(2) en] proto_contractD(3) [OF assms(2) chat] assms(3,4,7,8)
      aes_decrypt_ok [OF assms(1) k n D(2), of v] D(1)
    by (auto simp: parseAndDecryptMessage_def report_def require_io_def io_run session_decrypt_eq k)
qed

text \<open>C4: a message encrypted in a session decrypts, in any engine that is ready and holds the
  same key, to the text that was sent, without a double free and without touching the session.\<close>

theorem message_roundtrip:
  fixes v w w' :: "('e, 'x) engine_world_scheme"
  assumes "gcm_contract (lb_cipher L) view G" and "proto_contract (lb_proto L)"
    and "ascii sender" and "ascii to" and "length plain < 2 ^ 31"
    and "encryptAndSerializeMessage L plain sender to w = (Inr frame, w')"
    and "session_ready v" and "session_key v = session_key w"
  shows "\<exists>e. parseAndDecryptMessage L frame v = (Inr plain, v\<lparr>env := e\<rparr>)"
  using assms by (rule message_decrypts)

lemma accepted_message_tag:
  fixes v v' :: "('e, 'x) engine_world_scheme"
  assumes "gcm_contract (lb_cipher L) view G" and "proto_contract (lb_proto L)"
    and "parseAndDecryptMessage L frame v = (Inr p, v')"
  shows "\<exists>en m c. parse_envelope (lb_proto L) frame (c_int (length frame)) = Some en \<and>
           parse_chat (lb_proto L) (ev_payload_e2e en) (c_int (length (ev_payload_e2e en))) = Some m \<and>
           length (cm_nonce m) = NONCE_SIZE \<and>
           cm_encrypted_content m = c @ gcm_T G (session_key v) (cm_nonce m) c \<and>
           p = string_of (gcm_D G (session_key v) (cm_nonce m) c)"
proof -
  obtain en m plain v1 where
    parse: "parse_envelope (lb_proto L) frame (c_int (length frame)) = Some en"
      "parse_chat (lb_proto L) (ev_payload_e2e en) (c_int (length (ev_payload_e2e en))) = Some m" and
    dec: "session_decrypt (lb_cipher L) (session_key v) (cm_encrypted_content m) (cm_nonce m) v = (Inr plain, v1)"
      "p = string_of plain"
    using assms(3) unfolding parseAndDecryptMessage_def report_Inr by (auto simp: io_Inr)
  have k: "length (session_key v) = KEY_SIZE" and n: "length (cm_nonce m) = NONCE_SIZE"
    using dec(1) by (auto simp: session_decrypt_def AESGCM_new_def aes_decrypt_def io_run split: if_splits)
  have len: "length (cm_encrypted_content m) < 2 ^ 31"
    using assms(2) parse(2) unfolding proto_contract_def by blast
  from aes_decrypt_accepts [OF assms(1) k n len, of v plain] dec
  obtain c where "cm_encrypted_content m = c @ gcm_T G (session_key v) (cm_nonce m) c"
    "plain = gcm_D G (session_key v) (cm_nonce m) c"
    by (auto simp: session_decrypt_eq k)
  with parse n dec(2) show ?thesis by blast
qed

text \<open>C5: whatever the network delivers, a text is only ever reported for a frame whose ciphertext
  carries the GCM tag of the session's key, and then it is the decryption of that ciphertext.\<close>

theorem accepted_message_is_authentic:
  fixes v v' :: "('e, 'x) engine_world_scheme"
  assumes "gcm_contract (lb_cipher L) view G" and "proto_contract (lb_proto L)"
    and "parseAndDecryptMessage L frame v = (Inr p, v')"
  shows "\<exists>en m c. parse_envelope (lb_proto L) frame (c_int (length frame)) = Some en \<and>
           parse_chat (lb_proto L) (ev_payload_e2e en) (c_int (length (ev_payload_e2e en))) = Some m \<and>
           length (cm_nonce m) = NONCE_SIZE \<and>
           cm_encrypted_content m = c @ gcm_T G (session_key v) (cm_nonce m) c \<and>
           p = string_of (gcm_D G (session_key v) (cm_nonce m) c)"
  using assms by (rule accepted_message_tag)

text \<open>C12: an engine that is ready and holds a 32-byte key always produces a frame, as long as the
  random generator works and the messages fit a protobuf.\<close>

theorem encrypt_succeeds:
  fixes w :: "('e, 'x) engine_world_scheme"
  assumes "gcm_contract (lb_cipher L) view G"
    and "session_ready w" and "length (session_key w) = KEY_SIZE" and "length plain < 2 ^ 31"
    and "\<And>e. fst (fst (rand_bytes (lb_cipher L) 12 e)) = 1"
    and "\<And>m. length (cm_encrypted_content m) = length plain + TAG_SIZE \<Longrightarrow>
           cm_sender_id m = sender \<Longrightarrow> length (cm_nonce m) = NONCE_SIZE \<Longrightarrow>
           \<exists>b. ser_chat (lb_proto L) m = Some b \<and>
             (\<forall>n. ev_payload_e2e n = b \<longrightarrow> ev_to_username n = to \<longrightarrow> ev_sender_pubkey n = [] \<longrightarrow>
                ser_envelope (lb_proto L) n \<noteq> None)"
  shows "\<exists>frame w'. encryptAndSerializeMessage L plain sender to w = (Inr frame, w')"
proof -
  let ?r = "rand_bytes (lb_cipher L) 12 (env w)"
  let ?nonce = "fill NONCE_SIZE (snd (fst ?r))" and ?w1 = "w\<lparr>env := snd ?r\<rparr>"
  have n: "random_nonce (lb_cipher L) w = (Inr ?nonce, ?w1)"
    using assms(5) [of "env w"] by (simp add: random_nonce_def io_run split_def)
  let ?c = "gcm_E G (session_key w) ?nonce (bytes_of plain)"
  let ?ct = "?c @ gcm_T G (session_key w) ?nonce ?c"
  let ?w2 = "?w1\<lparr>env := snd (cipher_ctx_new (lb_cipher L) (env ?w1))\<rparr>"
  have ct: "session_encrypt (lb_cipher L) (session_key w) (bytes_of plain) ?nonce ?w1 = (Inr ?ct, ?w2)"
    using aes_encrypt_ok [OF assms(1,3), of ?nonce "bytes_of plain" ?w1] assms(3,4)
    by (simp add: session_encrypt_eq)
  have len: "length ?ct = length plain + TAG_SIZE"
    using gcm_contractD(1) [OF assms(1)] assms(3) by (simp add: gcm_cipher_ok_def)
  let ?m = "\<lparr>cm_sender_id = sender, cm_encrypted_content = ?ct, cm_nonce = ?nonce,
     cm_timestamp_unix = fst (lb_clock L (env ?w2))\<rparr>"
  obtain b where b: "ser_chat (lb_proto L) ?m = Some b" "\<And>n. ev_payload_e2e n = b \<Longrightarrow>
      ev_to_username n = to \<Longrightarrow> ev_sender_pubkey n = [] \<Longrightarrow> ser_envelope (lb_proto L) n \<noteq> None"
    using assms(6) [of ?m] len by auto
  let ?e3 = "snd (lb_clock L (env ?w2))"
  obtain frame where "ser_envelope (lb_proto L) \<lparr>ev_version = kVersion, ev_to_username = to,
      ev_sender_pubkey = [], ev_payload_e2e = b, ev_client_timestamp = fst (lb_clock L ?e3)\<rparr> = Some frame"
    using b(2) by fastforce
  then show ?thesis
    using assms(2) n ct b(1)
    by (simp add: encryptAndSerializeMessage_def report_def io_run require_io_def)
qed

section \<open>The double free of a message that does not verify\<close>

lemma aes_decrypt_message:
  "fst (aes_decrypt L k x n w) = Inl e \<Longrightarrow> what e = ''GCM tag verification failed'' \<Longrightarrow>
     e = RuntimeError ''GCM tag verification failed''"
proof -
  assume e: "fst (aes_decrypt L k x n w) = Inl e" "what e = ''GCM tag verification failed''"
  let ?w = "w\<lparr>env := snd (cipher_ctx_new L (env w)), live := CipherCtx # live w\<rparr>"
  let ?x = "take (length x - TAG_SIZE) x" and ?t = "drop (length x - TAG_SIZE) x"
  show "e = RuntimeError ''GCM tag verification failed''"
  proof (cases "length n = NONCE_SIZE \<and> TAG_SIZE \<le> length x")
    case False
    with e show ?thesis by (auto simp: aes_decrypt_def io_run not_le split: if_splits)
  next
    case True
    show ?thesis
    proof (cases "fst (cipher_ctx_new L (env w))")
      case None
      with True e show ?thesis by (auto simp: aes_decrypt_def io_run Let_def)
    next
      case (Some h)
      have "live ?w = CipherCtx # live w" by simp
      from decrypt_body_cases [OF this, of L k ?x ?t n h] show ?thesis
        using True Some e by (elim disjE exE conjE) (auto simp: aes_decrypt_def io_run Let_def not_less)
    qed
  qed
qed

text \<open>C14: parsing a received frame frees a library object twice exactly when it reports
  \<open>GCM tag verification failed\<close>; every other outcome is memory-safe.\<close>

theorem decrypt_double_free_iff:
  fixes w :: "('e, 'x) engine_world_scheme"
  assumes "engine_inv w"
  shows "double_freed (snd (parseAndDecryptMessage L frame w)) \<longleftrightarrow>
           double_freed w \<or>
           fst (parseAndDecryptMessage L frame w) = Inl ''GCM tag verification failed''"
proof (cases "session_ready w")
  case False
  then show ?thesis by (simp add: parseAndDecryptMessage_def report_def io_run)
next
  case ready: True
  then have k: "length (session_key w) = KEY_SIZE" and live: "CipherCtx \<notin> set (live w)"
    using assms by (simp_all add: engine_inv_def)
  show ?thesis
  proof (cases "parse_envelope (lb_proto L) frame (c_int (length frame))")
    case None
    with ready show ?thesis
      by (simp add: parseAndDecryptMessage_def report_def io_run require_io_def)
  next
    case en: (Some en)
    show ?thesis
    proof (cases "parse_chat (lb_proto L) (ev_payload_e2e en) (c_int (length (ev_payload_e2e en)))")
      case None
      with ready en show ?thesis
        by (simp add: parseAndDecryptMessage_def report_def io_run require_io_def)
    next
      case (Some m)
      let ?d = "aes_decrypt (lb_cipher L) (session_key w) (cm_encrypted_content m) (cm_nonce m) w"
      have run: "parseAndDecryptMessage L frame w =
          (case fst ?d of Inl e \<Rightarrow> Inl (what e) | Inr x \<Rightarrow> Inr (string_of x), snd ?d)"
        using ready en Some
        by (cases ?d) (auto simp: parseAndDecryptMessage_def report_def io_run require_io_def
            session_decrypt_eq k split: sum.splits)
      show ?thesis
        using aes_decrypt_heap(2) [OF live, of "lb_cipher L" "session_key w" "cm_encrypted_content m" "cm_nonce m"]
          aes_decrypt_message [of "lb_cipher L" "session_key w" "cm_encrypted_content m" "cm_nonce m" w]
        unfolding run by (cases "fst ?d") auto
    qed
  qed
qed

text \<open>Whoever can deliver a frame to an engine with a session, knowing no key, can make it
  free its cipher context twice: any well-formed message with a wrong tag does.\<close>

theorem forged_message_double_free:
  fixes w :: "('e, 'x) engine_world_scheme"
  assumes "gcm_contract (lb_cipher L) view G" and "engine_inv w" and "session_ready w"
    and "parse_envelope (lb_proto L) frame (c_int (length frame)) = Some en"
    and "parse_chat (lb_proto L) (ev_payload_e2e en) (c_int (length (ev_payload_e2e en))) = Some m"
    and "length (cm_nonce m) = NONCE_SIZE" and "cm_encrypted_content m = c @ t"
    and "length c < 2 ^ 31" and "length t = TAG_SIZE"
    and "t \<noteq> gcm_T G (session_key w) (cm_nonce m) c"
  shows "fst (parseAndDecryptMessage L frame w) = Inl ''GCM tag verification failed'' \<and>
         double_freed (snd (parseAndDecryptMessage L frame w))"
proof -
  have k: "length (session_key w) = KEY_SIZE" and live: "CipherCtx \<notin> set (live w)"
    using assms(2,3) by (simp_all add: engine_inv_def)
  show ?thesis
    using assms(3-5,7) aes_decrypt_forged [OF assms(1) k assms(6,8,9,10) live]
    by (simp add: parseAndDecryptMessage_def report_def io_run require_io_def session_decrypt_eq k)
qed

end
