(* ===== verification/Reference_Lib.thy ===== *)
theory Reference_Lib
  imports Messages
begin

text \<open>
  One concrete instance of the libraries: a small OpenSSL, liboqs, protobuf, file system and
  network that can be evaluated. It satisfies every contract of the development, so the
  hypotheses of the theorems can hold, and the witnesses run the program on it. The
  cryptography in it is a placeholder without any strength.
\<close>

section \<open>The outside world and the handles\<close>

record tenv =
  t_log :: "event list"
  t_inbox :: "bytes list"
  t_disk :: "(string \<times> bytes) list"

datatype tobj = HC gcm_view | HK hkdf_view | HE ed_view | HKem

fun t_gview :: "tobj \<Rightarrow> gcm_view" where
  "t_gview (HC v) = v"
| "t_gview _ = GDone [] [] []"

fun t_hview :: "tobj \<Rightarrow> hkdf_view" where
  "t_hview (HK v) = v"
| "t_hview _ = None"

fun t_eview :: "tobj \<Rightarrow> ed_view" where
  "t_eview (HE v) = v"
| "t_eview _ = EdOther"

section \<open>The cipher\<close>

definition t_gcm :: gcm_cipher where
  "t_gcm = \<lparr>gcm_E = \<lambda>k n p. map (\<lambda>b. b + hd (k @ [0])) p,
            gcm_D = \<lambda>k n c. map (\<lambda>b. b - hd (k @ [0])) c,
            gcm_T = \<lambda>k n c. replicate TAG_SIZE (sum_list c + sum_list n + sum_list k)\<rparr>"

definition t_cipher :: "('e, tobj) evp_cipher" where
  "t_cipher = \<lparr>
     cipher_ctx_new = \<lambda>e. (Some (HC GNew), e),
     encrypt_init_cipher = \<lambda>h. (1, HC (GCipher Enc)),
     decrypt_init_cipher = \<lambda>h. (1, HC (GCipher Dec)),
     ctrl_set_ivlen = \<lambda>n h. (case t_gview h of GCipher d \<Rightarrow> (1, HC (GIv d n)) | _ \<Rightarrow> (0, h)),
     encrypt_init_key = \<lambda>k n h. (1, HC (GReady Enc k n)),
     decrypt_init_key = \<lambda>k n h. (1, HC (GReady Dec k n)),
     encrypt_update = \<lambda>p len h. (case t_gview h of
        GReady Enc k n \<Rightarrow> (1, gcm_E t_gcm k n p, HC (GData Enc k n p)) | _ \<Rightarrow> (0, [], h)),
     decrypt_update = \<lambda>c len h. (case t_gview h of
        GReady Dec k n \<Rightarrow> (1, gcm_D t_gcm k n c, HC (GData Dec k n c)) | _ \<Rightarrow> (0, [], h)),
     encrypt_final = \<lambda>h. (case t_gview h of
        GData Enc k n p \<Rightarrow> (1, [], HC (GDone k n p)) | _ \<Rightarrow> (0, [], h)),
     decrypt_final = \<lambda>h. (case t_gview h of
        GTagged k n c t \<Rightarrow> (if t = gcm_T t_gcm k n c then 1 else 0, [], h) | _ \<Rightarrow> (0, [], h)),
     ctrl_get_tag = \<lambda>n h. (case t_gview h of
        GDone k n p \<Rightarrow> (1, gcm_T t_gcm k n (gcm_E t_gcm k n p), h) | _ \<Rightarrow> (0, [], h)),
     ctrl_set_tag = \<lambda>t h. (case t_gview h of
        GData Dec k n c \<Rightarrow> (1, HC (GTagged k n c t)) | _ \<Rightarrow> (0, h)),
     rand_bytes = \<lambda>n e. ((1, replicate (nat n) 7), e)\<rparr>"

lemma t_gview_new: "t_gview h = GNew \<longleftrightarrow> h = HC GNew"
  by (cases h) simp_all

lemma t_gcm_contract: "gcm_contract t_cipher t_gview t_gcm"
  unfolding gcm_contract_def
proof (intro conjI)
  show "gcm_cipher_ok t_gcm"
    by (simp add: gcm_cipher_ok_def t_gcm_def comp_def)
  show "gcm_setup_contract t_cipher t_gview"
    by (simp add: gcm_setup_contract_def t_cipher_def)
  show "gcm_data_contract t_cipher t_gview t_gcm"
    by (simp add: gcm_data_contract_def t_cipher_def)
  show "cipher_memory_ok t_cipher"
    by (simp add: cipher_memory_ok_def t_cipher_def)
qed

section \<open>Key derivation\<close>

definition t_H :: "bytes \<Rightarrow> bytes \<Rightarrow> bytes \<Rightarrow> nat \<Rightarrow> bytes" where
  "t_H s k i n = fill n (map (\<lambda>b. b + 3) k @ s @ i)"

definition t_hkdf :: "('e, tobj) evp_hkdf" where
  "t_hkdf = \<lparr>
     hkdf_ctx_new = \<lambda>e. (Some (HK None), e),
     derive_init = \<lambda>h. (1, HK (Some (False, [], [], []))),
     set_hkdf_md = \<lambda>h. (case t_hview h of
        Some (m, s, k, i) \<Rightarrow> (1, HK (Some (True, s, k, i))) | None \<Rightarrow> (0, h)),
     set1_hkdf_salt = \<lambda>s' n h. (case t_hview h of
        Some (m, s, k, i) \<Rightarrow> (1, HK (Some (m, s', k, i))) | None \<Rightarrow> (0, h)),
     set1_hkdf_key = \<lambda>k' n h. (case t_hview h of
        Some (m, s, k, i) \<Rightarrow> (1, HK (Some (m, s, k', i))) | None \<Rightarrow> (0, h)),
     add1_hkdf_info = \<lambda>i' n h. (case t_hview h of
        Some (m, s, k, i) \<Rightarrow> (1, HK (Some (m, s, k, i @ i'))) | None \<Rightarrow> (0, h)),
     pkey_derive = \<lambda>n h. (case t_hview h of
        Some (True, s, k, i) \<Rightarrow> (1, t_H s k i n, h) | _ \<Rightarrow> (0, [], h))\<rparr>"

lemma t_hkdf_contract: "hkdf_contract t_hkdf t_hview t_H"
  unfolding hkdf_contract_def t_hkdf_def by (auto simp: t_H_def)

section \<open>The KEM\<close>

definition t_kem :: "('e, tobj) oqs_kem" where
  "t_kem = \<lparr>
     oqs_kem_new = \<lambda>e. (Some HKem, e),
     length_public_key = \<lambda>h. 4,
     length_secret_key = \<lambda>h. 5,
     length_ciphertext = \<lambda>h. 3,
     length_shared_secret = \<lambda>h. 3,
     oqs_keypair = \<lambda>h e. ((0, [1, 2, 3, 4], [9, 8, 7, 6, 5]), e),
     oqs_encaps = \<lambda>h pk e. ((0, [11, 12, 13], [12, 13, 14]), e),
     oqs_decaps = \<lambda>h ct sk. (0, map (\<lambda>b. b + 1) ct)\<rparr>"

lemma t_kem_contract: "kem_contract t_kem"
  by (simp add: kem_contract_def t_kem_def OQS_SUCCESS_def)

section \<open>Ed25519, PBKDF2 and SHA-256\<close>

definition t_ed :: ed_scheme where
  "t_ed = \<lparr>ed_S = \<lambda>s m. replicate 64 (sum_list s + sum_list m),
           ed_V = \<lambda>p m sig. sig = replicate 64 (sum_list (map (\<lambda>b. b - 1) p) + sum_list m),
           ed_pub_of = \<lambda>s. map (\<lambda>b. b + 1) s\<rparr>"

definition t_pkey :: "('e, tobj) evp_pkey" where
  "t_pkey = \<lparr>
     keygen_ctx_new = \<lambda>e. (Some (HE EdOther), e),
     keygen_init = \<lambda>h. (1, h),
     pkey_keygen = \<lambda>h e. ((1, HE (EdPriv (replicate 32 42))), e),
     raw_public_key_len = \<lambda>h. (1, 32),
     raw_private_key_len = \<lambda>h. (1, 32),
     raw_public_key = \<lambda>h. (case t_eview h of EdPriv s \<Rightarrow> (1, ed_pub_of t_ed s) | _ \<Rightarrow> (0, [])),
     raw_private_key = \<lambda>h. (case t_eview h of EdPriv s \<Rightarrow> (1, s) | _ \<Rightarrow> (0, [])),
     pbkdf2_hmac = \<lambda>pw pn salt sn it n. (1, fill (nat n) (pw @ salt)),
     new_raw_private_key = \<lambda>b n e. (if length b = 32 then Some (HE (EdPriv b)) else None, e),
     new_raw_public_key = \<lambda>b n e. (if length b = 32 then Some (HE (EdPub b)) else None, e),
     md_ctx_new = \<lambda>e. (Some (HE EdOther), e),
     digest_sign_init = \<lambda>md k. (case t_eview k of EdPriv s \<Rightarrow> (1, HE (MdSign s)) | _ \<Rightarrow> (0, md)),
     digest_sign_len = \<lambda>m md. (1, 64, md),
     digest_sign = \<lambda>m n md. (case t_eview md of
        MdSign s \<Rightarrow> (1, ed_S t_ed s m, md) | _ \<Rightarrow> (0, [], md)),
     digest_verify_init = \<lambda>md k. (case t_eview k of EdPub p \<Rightarrow> (1, HE (MdVerify p)) | _ \<Rightarrow> (0, md)),
     digest_verify = \<lambda>sig m md. (case t_eview md of
        MdVerify p \<Rightarrow> (if ed_V t_ed p m sig then 1 else 0) | _ \<Rightarrow> 0),
     sha256 = \<lambda>b. fill 32 b\<rparr>"

lemma t_ed_contract: "ed_contract t_pkey t_eview t_ed"
  unfolding ed_contract_def
proof (intro conjI allI)
  show "ed_scheme_ok t_ed"
    by (simp add: ed_scheme_ok_def t_ed_def comp_def)
  show "ed_sign_contract t_pkey t_eview t_ed"
    by (simp add: ed_sign_contract_def t_pkey_def)
  show "ed_verify_contract t_pkey t_eview t_ed"
    by (simp add: ed_verify_contract_def t_pkey_def)
  show "ed_keygen_contract t_pkey t_eview t_ed"
    by (simp add: ed_keygen_contract_def t_pkey_def)
  show "fst (md_ctx_new t_pkey e) \<noteq> None" for e
    by (simp add: t_pkey_def)
qed

text \<open>The fingerprint does not depend on the state of the outside world.\<close>

definition t_fp :: "bytes \<Rightarrow> string" where
  "t_fp pub = fingerprint_hex (t_pkey :: (tenv, tobj) evp_pkey) pub"

lemma t_fp [simp]: "fingerprint_hex t_pkey pub = t_fp pub"
  by (simp add: fingerprint_hex_def t_fp_def t_pkey_def)

section \<open>The file system and the network\<close>

definition t_fs :: "tenv fs" where
  "t_fs = \<lparr>
     fs_exists = \<lambda>p e. (Inr (map_of (t_disk e) p \<noteq> None), e),
     fs_open_read = \<lambda>p e. (map_of (t_disk e) p, e),
     fs_open_trunc = \<lambda>p e. (True, e\<lparr>t_disk := (p, []) # t_disk e\<rparr>),
     fs_write = \<lambda>p b e. (True, e\<lparr>t_disk := (p, b) # t_disk e\<rparr>)\<rparr>"

lemma t_fs_contract: "fs_contract t_fs (\<lambda>e. map_of (t_disk e))"
  by (auto simp: fs_contract_def t_fs_def)

definition t_send :: "tenv send_fn" where
  "t_send b e = (Inr True, e\<lparr>t_log := t_log e @ [Sent b]\<rparr>)"

definition t_recv :: "tenv recv_fn" where
  "t_recv e = (case t_inbox e of
       [] \<Rightarrow> (Inr None, e)
     | f # fs \<Rightarrow> (Inr (Some f), e\<lparr>t_inbox := fs, t_log := t_log e @ [Received f]\<rparr>))"

lemma t_transport: "transport_contract t_send t_recv t_log"
  by (auto simp: transport_contract_def t_send_def t_recv_def split: list.splits)

section \<open>protobuf\<close>

text \<open>A length-prefixed encoding of the fields, in order.\<close>

definition put_field :: "bytes \<Rightarrow> bytes" where
  "put_field b = be32 (c_uint32 (length b)) @ b"

definition get_field :: "bytes \<Rightarrow> (bytes \<times> bytes) option" where
  "get_field bs = (let n = unat (ntohl (take 4 bs)); r = drop 4 bs in
     if length bs < 4 \<or> length r < n then None else Some (take n r, drop n r))"

lemma get_put_field: "length b < 2 ^ 31 \<Longrightarrow> get_field (put_field b @ r) = Some (b, r)"
  by (simp add: get_field_def put_field_def Let_def)

definition put64 :: "64 word \<Rightarrow> bytes" where
  "put64 x = be32 (ucast (drop_bit 32 x)) @ be32 (ucast x)"

definition get64 :: "bytes \<Rightarrow> 64 word" where
  "get64 bs = push_bit 32 (ucast (ntohl (take 4 bs))) OR ucast (ntohl (take 4 (drop 4 bs)))"

lemma get_put64: "get64 (put64 x) = x"
proof -
  have "push_bit 32 (ucast (ucast (drop_bit 32 x) :: 32 word)) OR ucast (ucast x :: 32 word) = x"
    by (rule bit_word_eqI) (auto simp: bit_simps)
  then show ?thesis by (simp add: get64_def put64_def)
qed

definition put_fields :: "bytes list \<Rightarrow> bytes option" where
  "put_fields fs = (let b = concat (map put_field fs) in if int (length b) < 2147483648 then Some b else None)"

fun get_fields :: "nat \<Rightarrow> bytes \<Rightarrow> bytes list option" where
  "get_fields 0 bs = (if bs = [] then Some [] else None)"
| "get_fields (Suc n) bs = (case get_field bs of
     None \<Rightarrow> None
   | Some (f, r) \<Rightarrow> map_option ((#) f) (get_fields n r))"

lemma get_put_fields: "put_fields fs = Some b \<Longrightarrow> get_fields (length fs) b = Some fs"
proof -
  have *: "length (concat (map put_field fs)) < 2 ^ 31 \<Longrightarrow>
      get_fields (length fs) (concat (map put_field fs)) = Some fs"
    by (induction fs) (simp_all add: get_put_field put_field_def [THEN arg_cong [where f = length]])
  assume "put_fields fs = Some b"
  with * show ?thesis by (simp add: put_fields_def Let_def split: if_splits)
qed

lemma get_fields_length: "get_fields n bs = Some fs \<Longrightarrow> length fs = n"
  by (induction n arbitrary: bs fs) (auto split: option.splits if_splits)

lemma get_fields_size: "get_fields n bs = Some fs \<Longrightarrow> f \<in> set fs \<Longrightarrow> length f \<le> length bs"
proof (induction n arbitrary: bs fs)
  case 0
  then show ?case by (simp split: if_splits)
next
  case (Suc n)
  then obtain g r fs' where g: "get_field bs = Some (g, r)" "get_fields n r = Some fs'" "fs = g # fs'"
    by (auto split: option.splits)
  then have "length g \<le> length bs" "length r \<le> length bs"
    by (auto simp: get_field_def Let_def split: if_splits)
  with Suc g show ?case by fastforce
qed

definition t_proto :: proto where
  "t_proto = \<lparr>
     ser_hello = \<lambda>m. put_fields [hh_kem_public_key m, be32 (hh_version m), hh_identity_pub m, hh_identity_sig m],
     parse_hello = \<lambda>b n. (case get_fields 4 b of
        Some [k, v, p, s] \<Rightarrow> Some \<lparr>hh_kem_public_key = k, hh_version = ntohl v,
          hh_identity_pub = p, hh_identity_sig = s\<rparr> | _ \<Rightarrow> None),
     ser_response = \<lambda>m. put_fields [hr_kem_ciphertext m, be32 (hr_version m), hr_identity_pub m, hr_identity_sig m],
     parse_response = \<lambda>b n. (case get_fields 4 b of
        Some [k, v, p, s] \<Rightarrow> Some \<lparr>hr_kem_ciphertext = k, hr_version = ntohl v,
          hr_identity_pub = p, hr_identity_sig = s\<rparr> | _ \<Rightarrow> None),
     ser_chat = \<lambda>m. put_fields [bytes_of (cm_sender_id m), cm_encrypted_content m, cm_nonce m,
        put64 (cm_timestamp_unix m)],
     parse_chat = \<lambda>b n. if 2147483648 \<le> int (length b) then None else (case get_fields 4 b of
        Some [s, c, k, t] \<Rightarrow> Some \<lparr>cm_sender_id = string_of s, cm_encrypted_content = c,
          cm_nonce = k, cm_timestamp_unix = get64 t\<rparr> | _ \<Rightarrow> None),
     ser_envelope = \<lambda>m. put_fields [be32 (ev_version m), bytes_of (ev_to_username m),
        ev_sender_pubkey m, ev_payload_e2e m, put64 (ev_client_timestamp m)],
     parse_envelope = \<lambda>b n. (case get_fields 5 b of
        Some [v, u, k, p, t] \<Rightarrow> Some \<lparr>ev_version = ntohl v, ev_to_username = string_of u,
          ev_sender_pubkey = k, ev_payload_e2e = p, ev_client_timestamp = get64 t\<rparr> | _ \<Rightarrow> None)\<rparr>"

lemma put_fields_bound: "put_fields fs = Some b \<Longrightarrow> length b < 2 ^ 31"
  by (auto simp: put_fields_def Let_def split: if_splits)

lemma get_put_n: "put_fields fs = Some bs \<Longrightarrow> length fs = n \<Longrightarrow> get_fields n bs = Some fs \<and> length bs < 2 ^ 31"
  using get_put_fields put_fields_bound by blast

lemma get_put4: "put_fields [a, b, c, d] = Some bs \<Longrightarrow>
    get_fields 4 bs = Some [a, b, c, d] \<and> length bs < 2 ^ 31"
  by (rule get_put_n) simp_all

lemma get_put5: "put_fields [a, b, c, d, e] = Some bs \<Longrightarrow>
    get_fields 5 bs = Some [a, b, c, d, e] \<and> length bs < 2 ^ 31"
  by (rule get_put_n) simp_all

lemma t_proto_contract: "proto_contract t_proto"
  unfolding proto_contract_def
proof (intro conjI allI impI)
  fix b n m
  assume p: "parse_chat t_proto b n = Some m"
  then obtain s c k t where f: "get_fields 4 b = Some [s, c, k, t]" "cm_encrypted_content m = c"
    and len: "length b < 2 ^ 31"
    by (auto simp: t_proto_def split: if_splits option.splits list.splits)
  have "length c \<le> length b" using get_fields_size [OF f(1), of c] by simp
  with f len show "length (cm_encrypted_content m) < 2 ^ 31" by simp
qed (auto simp: t_proto_def get_put64 not_le dest!: get_put4 get_put5)

section \<open>The bundle and its frame conditions\<close>

definition t_libs :: "(tenv, tobj) libs" where
  "t_libs = \<lparr>lb_cipher = t_cipher, lb_hkdf = t_hkdf, lb_pkey = t_pkey, lb_kem = t_kem, lb_fs = t_fs,
     lb_proto = t_proto, lb_clock = (\<lambda>e. (1700000000, e)), lb_junk = []\<rparr>"

lemma t_libs_fields [simp]:
  "lb_cipher t_libs = t_cipher" "lb_hkdf t_libs = t_hkdf" "lb_pkey t_libs = t_pkey"
  "lb_kem t_libs = t_kem" "lb_fs t_libs = t_fs" "lb_proto t_libs = t_proto"
  by (simp_all add: t_libs_def)

lemma t_libs_quiet: "libs_quiet t_log t_libs"
  by (simp add: libs_quiet_def libs_silent_def silent_env t_libs_def t_cipher_def t_hkdf_def
      t_pkey_def t_kem_def)

lemmas t_contracts =
  t_gcm_contract t_hkdf_contract t_kem_contract t_ed_contract t_fs_contract t_proto_contract
  t_transport t_libs_quiet

section \<open>Two engines\<close>

definition t_engine :: "byte \<Rightarrow> bytes list \<Rightarrow> tenv engine_world" where
  "t_engine b inbox = \<lparr>live = [], double_freed = False,
     env = \<lparr>t_log = [], t_inbox = inbox, t_disk = []\<rparr>,
     id_pub = replicate 32 (b + 1), id_priv = replicate 32 b,
     session_key = [], session_ready = False\<rparr>"

text \<open>What the library calls of the engine return on this instance.\<close>

lemma t_kyber [simp]:
  "kyber_init t_kem w = (Inr (Some HKem), w\<lparr>live := OqsKem # live w\<rparr>)"
  "kyber_keypair t_kem (Some HKem) w = (Inr ([1, 2, 3, 4], [9, 8, 7, 6, 5]), w)"
  "length pk = 4 \<Longrightarrow> kyber_encapsulate t_kem (Some HKem) pk w = (Inr ([11, 12, 13], [12, 13, 14]), w)"
  "kyber_decapsulate t_kem (Some HKem) [11, 12, 13] [9, 8, 7, 6, 5] w = (Inr [12, 13, 14], w)"
  by (simp_all add: kyber_init_def kyber_keypair_def kyber_encapsulate_def kyber_decapsulate_def
      t_kem_def io_run OQS_SUCCESS_def)

lemma t_ed_sign [simp]:
  "length s = 32 \<Longrightarrow> ed_sign t_pkey s m w = (Inr (ed_S t_ed s m), w)"
  by (simp add: ed_sign_def t_pkey_def io_run check_or_free_def t_ed_def resize_bytes_def)

lemma t_ed_verify [simp]:
  "ed_verify t_pkey p m sig w = (Inr (length p = 32 \<and> ed_V t_ed p m sig), w)"
  by (simp add: ed_verify_def t_pkey_def io_run)

lemma t_hkdf_run [simp]:
  "ikm \<noteq> [] \<Longrightarrow> length ikm < 2 ^ 31 \<Longrightarrow>
     hkdf_sha256 t_hkdf ikm hkdf_salt hkdf_info 32 w = (Inr (t_H hkdf_salt ikm hkdf_info 32), w)"
  using hkdf_sha256_ok [OF t_hkdf_contract, of ikm hkdf_salt hkdf_info 32 w]
  by (simp add: hkdf_salt_def hkdf_info_def t_hkdf_def)

lemma t_callbacks [simp]:
  "callback_io (t_send b) w = (Inr True, w\<lparr>env := (env w)\<lparr>t_log := t_log (env w) @ [Sent b]\<rparr>\<rparr>)"
  "t_inbox (env w) = f # fs \<Longrightarrow> callback_io t_recv w =
     (Inr (Some f), w\<lparr>env := (env w)\<lparr>t_inbox := fs, t_log := t_log (env w) @ [Received f]\<rparr>\<rparr>)"
  by (simp_all add: callback_io_def t_send_def t_recv_def io_run)

text \<open>The client's hello, the server's answer to it, and the keys both derive.\<close>

abbreviation t_id :: "byte \<Rightarrow> bytes" where "t_id b \<equiv> replicate 32 b"

definition t_hello_msg :: handshake_hello where
  "t_hello_msg = \<lparr>hh_kem_public_key = [1, 2, 3, 4], hh_version = kVersion,
     hh_identity_pub = t_id 6, hh_identity_sig = ed_S t_ed (t_id 5) (client_msg [1, 2, 3, 4])\<rparr>"

definition t_response_msg :: handshake_response where
  "t_response_msg = \<lparr>hr_kem_ciphertext = [11, 12, 13], hr_version = kVersion,
     hr_identity_pub = t_id 8,
     hr_identity_sig = ed_S t_ed (t_id 7) (server_msg [11, 12, 13] [1, 2, 3, 4])\<rparr>"

definition t_hello :: bytes where "t_hello = the (ser_hello t_proto t_hello_msg)"

definition t_response :: bytes where "t_response = the (ser_response t_proto t_response_msg)"

definition t_key :: bytes where "t_key = t_H hkdf_salt [12, 13, 14] hkdf_info 32"

lemma put_field_length: "length (put_field b) = length b + 4"
  by (simp add: put_field_def)

lemma t_sig_length [simp]: "length (ed_S t_ed s m) = 64"
  by (simp add: t_ed_def)

lemma t_sig_valid [simp]: "ed_V t_ed (t_id (b + 1)) m (ed_S t_ed (t_id b) m)"
  by (simp add: t_ed_def)

lemma t_ser: "ser_hello t_proto t_hello_msg = Some t_hello"
  "ser_response t_proto t_response_msg = Some t_response"
  by (simp_all add: t_hello_def t_response_def t_hello_msg_def t_response_msg_def t_proto_def
      put_fields_def put_field_length Let_def)

lemmas t_parse = proto_contractD(1) [OF t_proto_contract t_ser(1)]
  proto_contractD(2) [OF t_proto_contract t_ser(2)]

lemma t_server_run:
  "runServerHandshake t_libs t_send t_recv (t_engine 7 [t_hello]) =
     (Inr (t_fp (t_id 6)), (t_engine 7 [])\<lparr>
        env := \<lparr>t_log = [Received t_hello, Sent t_response], t_inbox = [], t_disk = []\<rparr>,
        session_key := t_key, session_ready := True\<rparr>)"
  using t_parse(1) t_ser(2) t_sig_valid [of 5]
  by (simp add: runServerHandshake_def serverHandshakeInternal_def server_reply_def with_kyber_def
      io_run report_def require_io_def is_loaded_def t_engine_def kyber_destroy_def t_key_def
      t_hello_msg_def t_response_msg_def)

lemma t_client_run:
  "runClientHandshake t_libs t_send t_recv (t_engine 5 [t_response]) =
     (Inr (t_fp (t_id 8)), (t_engine 5 [])\<lparr>
        env := \<lparr>t_log = [Sent t_hello, Received t_response], t_inbox = [], t_disk = []\<rparr>,
        session_key := t_key, session_ready := True\<rparr>)"
  using t_parse(2) t_ser(1) t_sig_valid [of 7]
  by (simp add: runClientHandshake_def clientHandshakeInternal_def with_kyber_def
      io_run report_def require_io_def is_loaded_def t_engine_def kyber_destroy_def t_key_def
      t_hello_msg_def t_response_msg_def)

end
