(* ===== verification/Limits.thy ===== *)
theory Limits
  imports Messages
begin

text \<open>
  What the protocol of \<^verbatim>\<open>connection_engine.cpp\<close> does not protect: the fields around a ciphertext, the freshness and
  the direction of a message, and the name under which a client is known to the server.
\<close>

section \<open>Messages\<close>

text \<open>C18: only the nonce and the ciphertext of a frame matter. Whoever keeps these two and writes a new envelope around
  them, with another sender, receiver, version or time, or sends the frame again, to its receiver or back to its
  sender, has it accepted with the same text by every engine that holds the key.\<close>

theorem metadata_not_authenticated:
  fixes v v' u :: "('e, 'x) engine_world_scheme"
  assumes "gcm_contract (lb_cipher L) view G" and "proto_contract (lb_proto L)"
    and "parseAndDecryptMessage L frame v = (Inr p, v')"
    and "parse_envelope (lb_proto L) frame (c_int (length frame)) = Some en"
    and "parse_chat (lb_proto L) (ev_payload_e2e en) (c_int (length (ev_payload_e2e en))) = Some m"
    and "parse_envelope (lb_proto L) frame' (c_int (length frame')) = Some en'"
    and "parse_chat (lb_proto L) (ev_payload_e2e en') (c_int (length (ev_payload_e2e en'))) = Some m'"
    and "cm_nonce m' = cm_nonce m" and "cm_encrypted_content m' = cm_encrypted_content m"
    and "session_ready u" and "session_key u = session_key v"
  shows "\<exists>e. parseAndDecryptMessage L frame' u = (Inr p, u\<lparr>env := e\<rparr>)"
proof -
  let ?k = "session_key v"
  obtain c where c: "length (cm_nonce m) = NONCE_SIZE" "cm_encrypted_content m = c @ gcm_T G ?k (cm_nonce m) c"
    "p = string_of (gcm_D G ?k (cm_nonce m) c)"
    using accepted_message_tag [OF assms(1-3)] assms(4,5) by auto
  obtain v1 plain where "session_decrypt (lb_cipher L) ?k (cm_encrypted_content m) (cm_nonce m) v = (Inr plain, v1)"
    using assms(3-5) unfolding parseAndDecryptMessage_def report_Inr by (auto simp: io_Inr)
  then have k: "length ?k = KEY_SIZE"
    by (auto simp: session_decrypt_def AESGCM_new_def io_run split: if_splits)
  have len: "length c < 2 ^ 31"
    using assms(2,5) c(2) unfolding proto_contract_def by fastforce
  show ?thesis
    using aes_decrypt_ok [OF assms(1) k c(1) len, of u] assms(6-11) c k
    by (auto simp: parseAndDecryptMessage_def report_def require_io_def io_run session_decrypt_eq)
qed

section \<open>Identities\<close>

text \<open>Somebody on the way to the server who rewrites the frames that it receives.\<close>

definition rewritten :: "(bytes \<Rightarrow> bytes) \<Rightarrow> 'e recv_fn \<Rightarrow> 'e recv_fn" where
  "rewritten f recv e = (case recv e of (Inr (Some b), e') \<Rightarrow> (Inr (Some (f b)), e') | x \<Rightarrow> x)"

text \<open>Reading a public key does to the outside world the same for every key: it allocates an object.\<close>

definition pubkey_steady :: "('e, 'h) evp_pkey \<Rightarrow> bool" where
  "pubkey_steady P \<longleftrightarrow>
     (\<forall>p p' e. length p = 32 \<longrightarrow> length p' = 32 \<longrightarrow> snd (new_raw_public_key P p 32 e) = snd (new_raw_public_key P p' 32 e))"

lemma ed_verify_result:
  assumes "ed_contract P view Z" and "length p = 32"
  shows "ed_verify P p m sig w =
    (Inr (ed_V Z p m sig), w\<lparr>env := snd (md_ctx_new P (snd (new_raw_public_key P p 32 (env w))))\<rparr>)"
proof -
  obtain pk where pk: "fst (new_raw_public_key P p 32 (env w)) = Some pk"
    using ed_contractD(3) [OF assms(1)] assms(2) unfolding ed_verify_contract_def by blast
  obtain md where md: "fst (md_ctx_new P (snd (new_raw_public_key P p 32 (env w)))) = Some md"
    using ed_contractD(5) [OF assms(1)] by blast
  have "snd (ed_verify P p m sig w) = w\<lparr>env := snd (md_ctx_new P (snd (new_raw_public_key P p 32 (env w))))\<rparr>"
    using assms(2) pk md by (simp add: ed_verify_def io_run Let_def split_def)
  then show ?thesis using ed_verify_ok [OF assms(1), of p m sig w] assms(2) by (simp add: prod_eq_iff)
qed

text \<open>What follows the verification uses the identity in the hello only to report it.\<close>

lemma server_reply_identity:
  assumes "server_reply L send m w = (Inr fp, w')" and "hh_kem_public_key m' = hh_kem_public_key m"
  shows "server_reply L send m' w = (Inr (fingerprint_hex (lb_pkey L) (hh_identity_pub m')), w')"
  using assms unfolding server_reply_def with_kyber_def by (fastforce simp: io_Inr split_def)

lemma server_receives:
  fixes v v' :: "('e, 'x) engine_world_scheme"
  assumes T: "transport_contract send recv tr" and Q: "libs_quiet tr L"
    and run: "runServerHandshake L send recv v = (Inr fps, v')"
    and log: "tr (env v') = tr (env v) @ [Received hello, Sent response]"
  shows "fst (recv (env v)) = Inr (Some hello)"
proof -
  let ?w0 = "v\<lparr>session_ready := False\<rparr>"
  obtain a0 frame m a1 where rcv: "callback_io recv ?w0 = (Inr (Some frame), a0)"
    and ver: "ed_verify (lb_pkey L) (hh_identity_pub m) (client_msg (hh_kem_public_key m)) (hh_identity_sig m) a0 = (Inr True, a1)"
    and reply: "server_reply L send m a1 = (Inr fps, v')"
    using run unfolding runServerHandshake_def report_Inr serverHandshakeInternal_def by (auto simp: io_Inr)
  have "tr (env a0) = tr (env v) @ [Received frame]" using recv_log [OF T rcv] by simp
  moreover have "tr (env a1) = tr (env a0)"
    using keepsD [OF silent_calls(6) [where g = "\<lambda>w. tr (env w)", OF libs_quiet_silent [OF Q]] ver] by simp
  moreover obtain ev where "tr (env v') = tr (env a1) @ ev"
    using server_reply_appends [OF T Q, of m] reply unfolding appends_def by (metis snd_conv)
  ultimately have "frame = hello" using log by simp
  then show ?thesis
    using rcv by (auto simp: callback_io_def io_run split: sum.splits prod.splits)
qed

lemma server_rewritten:
  fixes v v' :: "('e, 'x) engine_world_scheme"
  assumes "ed_contract (lb_pkey L) view Z" and "pubkey_steady (lb_pkey L)"
    and run: "runServerHandshake L send recv v = (Inr fps, v')"
    and rcv: "fst (recv (env v)) = Inr (Some hello)"
    and m: "parse_hello (lb_proto L) hello (c_int (length hello)) = Some m"
    and m': "parse_hello (lb_proto L) (f hello) (c_int (length (f hello))) = Some m'"
    and same: "hh_kem_public_key m' = hh_kem_public_key m"
    and valid: "length (hh_identity_pub m') = 32"
      "ed_V Z (hh_identity_pub m') (client_msg (hh_kem_public_key m)) (hh_identity_sig m')"
  shows "runServerHandshake L send (rewritten f recv) v = (Inr (fingerprint_hex (lb_pkey L) (hh_identity_pub m')), v')"
proof -
  let ?w0 = "v\<lparr>session_ready := False\<rparr>" and ?P = "lb_pkey L"
  obtain e where e: "recv (env v) = (Inr (Some hello), e)" using rcv by (metis prod.collapse)
  let ?w1 = "?w0\<lparr>env := e\<rparr>"
  have call: "callback_io recv ?w0 = (Inr (Some hello), ?w1)" "callback_io (rewritten f recv) ?w0 = (Inr (Some (f hello)), ?w1)"
    using e by (simp_all add: callback_io_def rewritten_def io_run)
  obtain a1 where ver: "ed_verify ?P (hh_identity_pub m) (client_msg (hh_kem_public_key m)) (hh_identity_sig m) ?w1 = (Inr True, a1)"
    and reply: "server_reply L send m a1 = (Inr fps, v')" and loaded: "is_loaded ?w0"
    using run call(1) m unfolding runServerHandshake_def report_Inr serverHandshakeInternal_def by (auto simp: io_Inr)
  have "length (hh_identity_pub m) = 32" using ed_verify_ok [OF assms(1), of "hh_identity_pub m" "client_msg (hh_kem_public_key m)" "hh_identity_sig m" ?w1] ver by simp
  note pub = this
  have "snd (new_raw_public_key ?P (hh_identity_pub m') 32 e) = snd (new_raw_public_key ?P (hh_identity_pub m) 32 e)"
    using assms(2) pub valid(1) unfolding pubkey_steady_def by blast
  then have "ed_verify ?P (hh_identity_pub m') (client_msg (hh_kem_public_key m)) (hh_identity_sig m') ?w1 = (Inr True, a1)"
    using ver valid(2) ed_verify_result [OF assms(1) pub, of "client_msg (hh_kem_public_key m)" "hh_identity_sig m" ?w1]
      ed_verify_result [OF assms(1) valid(1), of "client_msg (hh_kem_public_key m)" "hh_identity_sig m'" ?w1] by simp
  moreover note server_reply_identity [OF reply same]
  ultimately show ?thesis
    using call(2) m' same loaded unfolding runServerHandshake_def report_Inr serverHandshakeInternal_def
    by (auto simp: io_Inr)
qed

text \<open>C17: the client's signature covers its KEM key and not its partner, and the server's covers nothing of the client but
  that key. Take any handshake of a client and a server that succeeds. Somebody with a key pair of their own, who
  replaces the identity and the signature in the client's hello by their own and passes everything else on, changes nothing of
  the server's run but its result: the server answers with the same bytes, which the client therefore accepts as it did, ends
  in the same state with the client's session key, and reports the other one's fingerprint for the client's.\<close>

theorem identity_misbinding:
  fixes w w' v v' :: "('e, 'x) engine_world_scheme"
  assumes "kem_contract (lb_kem L)" and "hkdf_contract (lb_hkdf L) vh H"
    and "ed_contract (lb_pkey L) view Z" and "pubkey_steady (lb_pkey L)" and "proto_contract (lb_proto L)"
    and "transport_contract send recv tr" and "libs_quiet tr L"
    and "transport_contract send' recv' tr'" and "libs_quiet tr' L"
    and "runClientHandshake L send recv w = (Inr fpc, w')"
    and "runServerHandshake L send' recv' v = (Inr fps, v')"
    and "tr (env w') = tr (env w) @ [Sent hello, Received response]"
    and "tr' (env v') = tr' (env v) @ [Received hello, Sent response]"
    and "parse_hello (lb_proto L) hello (c_int (length hello)) = Some m" and "length s = 32"
    and "parse_hello (lb_proto L) (f hello) (c_int (length (f hello))) = Some (m\<lparr>hh_identity_pub := ed_pub_of Z s,
      hh_identity_sig := ed_S Z s (client_msg (hh_kem_public_key m))\<rparr>)"
  shows "runServerHandshake L send' (rewritten f recv') v = (Inr (fingerprint_hex (lb_pkey L) (ed_pub_of Z s)), v') \<and>
    session_key v' = session_key w' \<and> session_ready v' \<and> session_ready w' \<and>
    fpc = fingerprint_hex (lb_pkey L) (id_pub v) \<and> fps = fingerprint_hex (lb_pkey L) (id_pub w)"
proof -
  let ?m' = "m\<lparr>hh_identity_pub := ed_pub_of Z s, hh_identity_sig := ed_S Z s (client_msg (hh_kem_public_key m))\<rparr>"
  have "fst (recv' (env v)) = Inr (Some hello)"
    by (rule server_receives [OF assms(8,9,11,13)])
  then have "runServerHandshake L send' (rewritten f recv') v = (Inr (fingerprint_hex (lb_pkey L) (hh_identity_pub ?m')), v')"
    using ed_contractD(1) [OF assms(3)] assms(15)
    by (intro server_rewritten [where f = f, OF assms(3,4,11) _ assms(14,16)]) (simp_all add: ed_scheme_ok_def)
  then show ?thesis using handshake_agree [OF assms(1,2,5-13)] by simp
qed

end
