(* ===== verification/Witnesses.thy ===== *)
theory Witnesses
  imports Reference_Lib Limits
begin

text \<open>
  Every property with hypotheses, applied to a run of the program on the concrete libraries
  of Reference-Lib.
\<close>

lemma t_engine_fields [simp]: "t_log (env (t_engine b inbox)) = []"
  "live (t_engine b inbox) = []" "\<not> double_freed (t_engine b inbox)"
  by (simp_all add: t_engine_def)

section \<open>Handshakes\<close>

lemma handshake_agreement_witness:
  "session_key (snd (runClientHandshake t_libs t_send t_recv (t_engine 5 [t_response]))) =
   session_key (snd (runServerHandshake t_libs t_send t_recv (t_engine 7 [t_hello])))"
proof -
  show ?thesis
    using handshake_agreement [OF _ _ _ _ _ _ _ t_client_run t_server_run,
        where vh = t_hview and H = t_H and tr = t_log and tr' = t_log and a = t_hello and b = t_response]
      t_contracts
    by (simp add: t_client_run t_server_run)
qed

lemma client_authenticates_server_witness:
  "\<exists>resp. parse_response t_proto t_response (c_int (length t_response)) = Some resp \<and>
     ed_V t_ed (hr_identity_pub resp) (server_msg (hr_kem_ciphertext resp) [1, 2, 3, 4]) (hr_identity_sig resp)"
proof -
  have parsed: "parse_hello t_proto t_hello (c_int (length t_hello)) = Some t_hello_msg"
    using t_parse(1) .
  show ?thesis
    using client_authenticates_server [of t_libs t_eview t_ed t_send t_recv t_log,
        OF _ _ _ _ t_client_run] t_contracts parsed
    by (auto simp: t_engine_def t_hello_msg_def)
qed

lemma server_answers_only_verified_witness:
  "\<exists>hello. parse_hello t_proto t_hello (c_int (length t_hello)) = Some hello \<and>
     ed_V t_ed (hh_identity_pub hello) (client_msg (hh_kem_public_key hello)) (hh_identity_sig hello)"
  using server_answers_only_verified [of t_libs t_eview t_ed t_send t_recv t_log "t_engine 7 [t_hello]"
      "[Received t_hello, Sent t_response]" t_response] t_contracts
  by (auto simp: t_server_run)

lemma failed_handshake_clears_session_witness:
  "encryptAndSerializeMessage t_libs ''hi'' ''a'' ''b''
     (snd (runClientHandshake t_libs t_send t_recv (t_engine 5 []))) =
   (Inl ''Session key not established'',
     snd (runClientHandshake t_libs t_send t_recv (t_engine 5 [])))"
proof -
  have "fst (runClientHandshake t_libs t_send t_recv (t_engine 5 [])) =
      Inl ''Failed to receive HandshakeResponse''"
    using t_ser(1)
    by (simp add: runClientHandshake_def clientHandshakeInternal_def with_kyber_def callback_io_def
        io_run report_def require_io_def is_loaded_def t_engine_def t_hello_msg_def t_send_def t_recv_def)
  then have "runClientHandshake t_libs t_send t_recv (t_engine 5 []) =
      (Inl ''Failed to receive HandshakeResponse'', snd (runClientHandshake t_libs t_send t_recv (t_engine 5 [])))"
    by (metis prod.collapse)
  with failed_handshake_clears_session [OF disjI1 [OF this], of "''hi''" "''a''" "''b''"] show ?thesis by simp
qed

section \<open>The life of an engine\<close>

definition t_start :: "tenv engine_world" where
  "t_start = \<lparr>live = [], double_freed = False,
     env = \<lparr>t_log = [], t_inbox = [t_response], t_disk = []\<rparr>,
     id_pub = [], id_priv = [], session_key = [], session_ready = False\<rparr>"

text \<open>The identity file that \<open>create_profile\<close> writes on this instance.\<close>

definition t_profile_key :: bytes where
  "t_profile_key = fill 32 (bytes_of ''pw'' @ replicate 16 7)"

definition t_profile_ct :: bytes where
  "t_profile_ct = gcm_E t_gcm t_profile_key (replicate 12 7) (t_id 42)"

definition t_profile_file :: bytes where
  "t_profile_file = profile_bytes PBKDF2_ITERS (replicate 16 7) (replicate 12 7) (t_id 43)
     (t_profile_ct @ gcm_T t_gcm t_profile_key (replicate 12 7) t_profile_ct)"

lemma t_pbkdf2: "pbkdf2_sha256 t_pkey (bytes_of ''pw'') (replicate 16 7) it 32 w = (Inr t_profile_key, w)"
  by (simp add: pbkdf2_sha256_def t_pkey_def io_run t_profile_key_def)

lemma t_aes_encrypt:
  "length k = KEY_SIZE \<Longrightarrow> length n = NONCE_SIZE \<Longrightarrow> length p < 2 ^ 31 \<Longrightarrow>
     aes_encrypt t_cipher k p n w = (Inr (gcm_E t_gcm k n p @ gcm_T t_gcm k n (gcm_E t_gcm k n p)), w)"
  using aes_encrypt_ok [OF t_gcm_contract, of k n p w] by (simp add: t_cipher_def)

lemma t_random: "n < 2 ^ 31 \<Longrightarrow> random_bytes t_cipher n w = (Inr (replicate n 7), w)"
  by (simp add: random_bytes_def t_cipher_def io_run)

lemma t_gen: "gen_ed25519 t_pkey w = (Inr (), w\<lparr>id_pub := t_id 43, id_priv := t_id 42\<rparr>)"
  by (simp add: gen_ed25519_def t_pkey_def io_run check_or_free_def t_ed_def release_def)

lemma t_create:
  "create_profile t_cipher t_pkey t_fs ''id'' (bytes_of ''pw'') w =
     (Inr (), w\<lparr>id_pub := t_id 43, id_priv := t_id 42,
        env := (env w)\<lparr>t_disk := (''id'', t_profile_file) # (''id'', []) # t_disk (env w)\<rparr>\<rparr>)"
  by (simp add: t_aes_encrypt create_profile_def io_run t_gen t_random t_pbkdf2 NONCE_SIZE_def AESGCM_new_def
      t_profile_key_def KEY_SIZE_def t_fs_def t_profile_file_def t_profile_ct_def)

lemma t_start_created:
  "loadOrCreateIdentity t_libs ''id'' ''pw'' t_start =
     (Inr (t_fp (t_id 43), True),
      t_start\<lparr>id_pub := t_id 43, id_priv := t_id 42,
        env := (env t_start)\<lparr>t_disk := [(''id'', t_profile_file), (''id'', [])]\<rparr>\<rparr>)"
  by (simp add: loadOrCreateIdentity_def report_def io_run callback_io_def t_fs_def [THEN arg_cong [where f = fs_exists]]
      t_create t_start_def)

lemma engine_reach_inv_witness:
  "engine_inv (snd (runClientHandshake t_libs t_send t_recv (snd (loadOrCreateIdentity t_libs ''id'' ''pw'' t_start))))"
proof -
  have "engine_reach t_libs t_start"
    by (rule engine_reach.init) (simp add: engine_init_def t_start_def)
  then have "engine_reach t_libs (snd (runClientHandshake t_libs t_send t_recv
      (snd (loadOrCreateIdentity t_libs ''id'' ''pw'' t_start))))"
    by (blast intro: engine_reach.step engine_step.load engine_step.client)
  then show ?thesis by (rule engine_reach_inv)
qed

section \<open>Identity files\<close>

lemma create_then_load_witness:
  "\<exists>v'. load_profile t_cipher t_pkey t_fs [] ''id'' (bytes_of ''pw'')
      (snd (create_profile t_cipher t_pkey t_fs ''id'' (bytes_of ''pw'') t_start)) = (Inr (), v') \<and>
    id_priv v' = t_id 42"
proof -
  let ?w' = "snd (create_profile t_cipher t_pkey t_fs ''id'' (bytes_of ''pw'') t_start)"
  have "\<exists>v'. load_profile t_cipher t_pkey t_fs [] ''id'' (bytes_of ''pw'') ?w' = (Inr (), v') \<and>
      id_pub v' = id_pub ?w' \<and> id_priv v' = id_priv ?w'"
    by (rule create_then_load [OF t_gcm_contract t_ed_contract t_fs_contract]) (simp_all add: t_create)
  then show ?thesis by (auto simp: t_create)
qed

lemma t_profile: "is_profile t_profile_file PBKDF2_ITERS (replicate 16 7) (replicate 12 7) (t_id 43)
     (t_profile_ct @ gcm_T t_gcm t_profile_key (replicate 12 7) t_profile_ct) []"
  by (simp add: is_profile_def t_profile_file_def NONCE_SIZE_def TAG_SIZE_def t_profile_ct_def t_gcm_def)

definition t_disk_of :: "bytes \<Rightarrow> tenv engine_world" where
  "t_disk_of content = t_start\<lparr>env := (env t_start)\<lparr>t_disk := [(''id'', content)]\<rparr>\<rparr>"

lemma t_profile_length: "length t_profile_file = 140"
  by (simp add: t_profile_file_def profile_bytes_def profile_magic_def t_profile_ct_def t_gcm_def TAG_SIZE_def)

lemma t_disk_read: "fs_open_read t_fs ''id'' (env (t_disk_of c)) = (Some c, env (t_disk_of c))"
  by (simp add: t_disk_of_def t_fs_def)

lemma truncated_profile_refused_witness:
  "\<exists>e. fst (load_profile t_cipher t_pkey t_fs [] ''id'' (bytes_of ''pw'') (t_disk_of (take 30 t_profile_file))) = Inl e"
  by (rule truncated_profile_refused [OF t_profile _ t_disk_read, THEN conjunct1])
     (simp add: t_profile_length)

lemma public_key_not_authenticated_witness:
  "\<exists>v. load_profile t_cipher t_pkey (t_fs\<lparr>fs_open_read := \<lambda>p e. (Some (profile_bytes PBKDF2_ITERS
        (replicate 16 7) (replicate 12 7) (t_id 99)
        (t_profile_ct @ gcm_T t_gcm t_profile_key (replicate 12 7) t_profile_ct) @ []), e)\<rparr>)
      [] ''id'' (bytes_of ''pw'') t_start = (Inr (), v) \<and> id_pub v = t_id 99 \<and> id_priv v = t_id 42"
proof -
  let ?F = "t_fs\<lparr>fs_open_read := \<lambda>p e. (Some t_profile_file, e)\<rparr>"
  have dec: "gcm_D t_gcm t_profile_key (replicate 12 7) t_profile_ct = t_id 42"
    by (simp add: t_profile_ct_def t_gcm_def comp_def)
  have "aes_decrypt t_cipher t_profile_key (t_profile_ct @ gcm_T t_gcm t_profile_key (replicate 12 7) t_profile_ct)
      (replicate 12 7) w = (Inr (t_id 42), w)" for w :: "tenv engine_world"
    using aes_decrypt_ok [OF t_gcm_contract, of t_profile_key "replicate 12 7" t_profile_ct w] dec
    by (simp add: KEY_SIZE_def NONCE_SIZE_def t_profile_key_def t_profile_ct_def t_gcm_def t_cipher_def)
  then have "load_profile t_cipher t_pkey ?F [] ''id'' (bytes_of ''pw'') t_start =
      (Inr (), t_start\<lparr>id_pub := t_id 43, id_priv := t_id 42\<rparr>)"
    by (simp add: load_profile_parsed [OF _ t_profile] unlock_profile_def io_run t_pbkdf2 AESGCM_new_def
        t_profile_key_def KEY_SIZE_def)
  from public_key_not_authenticated [OF t_gcm_contract t_profile _ _ _ this, of "t_id 99"]
  show ?thesis by simp
qed

lemma wrong_password_mixes_identity_witness:
  "double_freed (snd (load_profile t_cipher t_pkey t_fs [] ''id'' (bytes_of ''pw'')
     (t_disk_of (profile_bytes PBKDF2_ITERS (replicate 16 7) (replicate 12 7) (t_id 43)
        (t_profile_ct @ map ((+) 1) (gcm_T t_gcm t_profile_key (replicate 12 7) t_profile_ct))))))"
proof -
  let ?t = "map ((+) 1) (gcm_T t_gcm t_profile_key (replicate 12 7) t_profile_ct)"
  have prof: "is_profile (profile_bytes PBKDF2_ITERS (replicate 16 7) (replicate 12 7) (t_id 43) (t_profile_ct @ ?t))
      PBKDF2_ITERS (replicate 16 7) (replicate 12 7) (t_id 43) (t_profile_ct @ ?t) []"
    by (simp add: is_profile_def NONCE_SIZE_def TAG_SIZE_def t_profile_ct_def t_gcm_def)
  have len: "length ?t = TAG_SIZE" and bad: "?t \<noteq> gcm_T t_gcm t_profile_key (replicate 12 7) t_profile_ct"
    by (simp_all add: t_gcm_def TAG_SIZE_def)
  show ?thesis
    using wrong_password_mixes_identity [OF t_gcm_contract prof len t_disk_read t_pbkdf2 bad]
    by (simp add: t_disk_of_def t_start_def)
qed

section \<open>Messages\<close>

text \<open>The two engines after their handshake.\<close>

definition t_alice :: "tenv engine_world" where
  "t_alice = snd (runClientHandshake t_libs t_send t_recv (t_engine 5 [t_response]))"

definition t_bob :: "tenv engine_world" where
  "t_bob = snd (runServerHandshake t_libs t_send t_recv (t_engine 7 [t_hello]))"

lemma t_session [simp]:
  "session_ready t_alice" "session_ready t_bob" "session_key t_alice = t_key" "session_key t_bob = t_key"
  "length t_key = KEY_SIZE" "engine_inv t_alice" "engine_inv t_bob"
  "double_freed t_alice = False"
  by (simp_all add: t_alice_def t_bob_def t_client_run t_server_run t_key_def t_H_def KEY_SIZE_def
      engine_inv_def)

lemma put64_length [simp]: "length (put64 x) = 8"
  by (simp add: put64_def)

lemma t_ser_small:
  assumes "length (cm_encrypted_content m) = 21" and "cm_sender_id m = ''alice''" and "length (cm_nonce m) = 12"
  shows "\<exists>b. ser_chat t_proto m = Some b \<and>
    (\<forall>n. ev_payload_e2e n = b \<longrightarrow> ev_to_username n = ''bob'' \<longrightarrow> ev_sender_pubkey n = [] \<longrightarrow>
       ser_envelope t_proto n \<noteq> None)"
  using assms by (simp add: t_proto_def put_fields_def put_field_length Let_def)

lemma encrypt_succeeds_witness:
  "\<exists>frame w'. encryptAndSerializeMessage t_libs ''hello'' ''alice'' ''bob'' t_alice = (Inr frame, w')"
proof (rule encrypt_succeeds)
  show "gcm_contract (lb_cipher t_libs) t_gview t_gcm"
    by (simp add: t_gcm_contract)
  show "fst (fst (rand_bytes (lb_cipher t_libs) 12 e)) = 1" for e
    by (simp add: t_cipher_def)
next
  fix m :: chat_message
  assume "length (cm_encrypted_content m) = length ''hello'' + TAG_SIZE" "cm_sender_id m = ''alice''"
    "length (cm_nonce m) = NONCE_SIZE"
  then show "\<exists>b. ser_chat (lb_proto t_libs) m = Some b \<and>
    (\<forall>n. ev_payload_e2e n = b \<longrightarrow> ev_to_username n = ''bob'' \<longrightarrow> ev_sender_pubkey n = [] \<longrightarrow>
       ser_envelope (lb_proto t_libs) n \<noteq> None)"
    using t_ser_small [of m] by (simp add: TAG_SIZE_def NONCE_SIZE_def)
qed simp_all

text \<open>A second proof that the frame exists, by computing it.\<close>

lemma t_frame:
  obtains frame w' where "encryptAndSerializeMessage t_libs ''hello'' ''alice'' ''bob'' t_alice = (Inr frame, w')"
proof -
  have enc: "session_encrypt t_cipher t_key p (replicate 12 7) w =
      (Inr (gcm_E t_gcm t_key (replicate 12 7) p @ gcm_T t_gcm t_key (replicate 12 7) (gcm_E t_gcm t_key (replicate 12 7) p)), w)"
    if "length p < 2 ^ 31" for p and w :: "tenv engine_world"
    using that by (simp add: session_encrypt_eq t_aes_encrypt NONCE_SIZE_def)
  show ?thesis
    by (rule that [of "projr (fst (encryptAndSerializeMessage t_libs ''hello'' ''alice'' ''bob'' t_alice))"
          "snd (encryptAndSerializeMessage t_libs ''hello'' ''alice'' ''bob'' t_alice)"])
       (simp add: encryptAndSerializeMessage_def report_def io_run random_nonce_def require_io_def enc t_libs_def
         t_cipher_def [THEN arg_cong [where f = rand_bytes]] NONCE_SIZE_def t_proto_def put_fields_def
         put_field_length Let_def t_gcm_def TAG_SIZE_def)
qed

lemma t_frame_decrypts:
  assumes "encryptAndSerializeMessage t_libs ''hello'' ''alice'' ''bob'' t_alice = (Inr frame, w')"
  shows "\<exists>e. parseAndDecryptMessage t_libs frame t_bob = (Inr ''hello'', t_bob\<lparr>env := e\<rparr>)"
proof -
  have L: "gcm_contract (lb_cipher t_libs) t_gview t_gcm" "length ''hello'' < 2 ^ 31"
    by (simp_all add: t_gcm_contract)
  obtain nonce c inner now now' where n: "length nonce = NONCE_SIZE"
    and c: "c = gcm_E t_gcm t_key nonce (bytes_of ''hello'')"
    and ser: "ser_chat t_proto \<lparr>cm_sender_id = ''alice'', cm_encrypted_content = c @ gcm_T t_gcm t_key nonce c,
       cm_nonce = nonce, cm_timestamp_unix = now\<rparr> = Some inner"
      "ser_envelope t_proto \<lparr>ev_version = kVersion, ev_to_username = ''bob'', ev_sender_pubkey = [],
       ev_payload_e2e = inner, ev_client_timestamp = now'\<rparr> = Some frame"
    by (rule encrypt_Inr [OF L assms]) simp
  have "session_decrypt t_cipher t_key (c @ gcm_T t_gcm t_key nonce c) nonce t_bob = (Inr (bytes_of ''hello''), t_bob)"
    using aes_decrypt_ok [OF t_gcm_contract, of t_key nonce c t_bob] n c
    by (simp add: session_decrypt_eq t_gcm_def t_cipher_def comp_def)
  then show ?thesis
    using proto_contractD(3) [OF t_proto_contract ser(1)] proto_contractD(4) [OF t_proto_contract ser(2)]
    by (auto simp: parseAndDecryptMessage_def report_def io_run require_io_def ascii_def intro: exI [of _ "env t_bob"])
qed

lemma message_roundtrip_witness:
  "\<exists>frame. fst (encryptAndSerializeMessage t_libs ''hello'' ''alice'' ''bob'' t_alice) = Inr frame \<and>
     fst (parseAndDecryptMessage t_libs frame t_bob) = Inr ''hello''"
proof -
  obtain frame w' where f: "encryptAndSerializeMessage t_libs ''hello'' ''alice'' ''bob'' t_alice = (Inr frame, w')"
    by (rule t_frame)
  have "\<exists>e. parseAndDecryptMessage t_libs frame t_bob = (Inr ''hello'', t_bob\<lparr>env := e\<rparr>)"
    by (rule message_roundtrip [OF _ _ _ _ _ f, of t_gview t_gcm])
       (simp_all add: t_gcm_contract t_proto_contract ascii_def)
  with f show ?thesis by auto
qed

definition t_chat :: chat_message where
  "t_chat = \<lparr>cm_sender_id = ''mallory'',
     cm_encrypted_content = [1] @ map ((+) 1) (gcm_T t_gcm t_key (replicate 12 7) [1]),
     cm_nonce = replicate 12 7, cm_timestamp_unix = 0\<rparr>"

definition t_forged :: bytes where
  "t_forged = the (ser_envelope t_proto \<lparr>ev_version = 1, ev_to_username = ''bob'', ev_sender_pubkey = [],
     ev_payload_e2e = the (ser_chat t_proto t_chat), ev_client_timestamp = 0\<rparr>)"

lemma t_forged_parse:
  "parse_envelope t_proto t_forged (c_int (length t_forged)) = Some \<lparr>ev_version = 1, ev_to_username = ''bob'',
     ev_sender_pubkey = [], ev_payload_e2e = the (ser_chat t_proto t_chat), ev_client_timestamp = 0\<rparr>"
  "parse_chat t_proto (the (ser_chat t_proto t_chat)) (c_int (length (the (ser_chat t_proto t_chat)))) = Some t_chat"
proof -
  have c: "ser_chat t_proto t_chat = Some (the (ser_chat t_proto t_chat))"
    by (simp add: t_chat_def t_proto_def put_fields_def put_field_length Let_def t_gcm_def TAG_SIZE_def)
  show "parse_chat t_proto (the (ser_chat t_proto t_chat)) (c_int (length (the (ser_chat t_proto t_chat)))) = Some t_chat"
    by (rule proto_contractD(3) [OF t_proto_contract c]) (simp add: t_chat_def ascii_def)
  show "parse_envelope t_proto t_forged (c_int (length t_forged)) = Some \<lparr>ev_version = 1, ev_to_username = ''bob'',
     ev_sender_pubkey = [], ev_payload_e2e = the (ser_chat t_proto t_chat), ev_client_timestamp = 0\<rparr>"
    unfolding t_forged_def
    by (rule proto_contractD(4) [OF t_proto_contract])
       (simp_all add: ascii_def t_chat_def t_proto_def put_fields_def put_field_length Let_def t_gcm_def TAG_SIZE_def)
qed

lemma forged_message_double_free_witness:
  "double_freed (snd (parseAndDecryptMessage t_libs t_forged t_alice))"
proof -
  let ?t = "map ((+) 1) (gcm_T t_gcm t_key (replicate 12 7) [1])"
  have c: "length (cm_nonce t_chat) = NONCE_SIZE" "cm_encrypted_content t_chat = [1] @ ?t"
    "cm_nonce t_chat = replicate 12 7"
    by (simp_all only: t_chat_def chat_message.simps NONCE_SIZE_def length_replicate)
  have t: "length ?t = TAG_SIZE" "?t \<noteq> gcm_T t_gcm t_key (replicate 12 7) [1]"
    by (simp_all add: t_gcm_def TAG_SIZE_def)
  show ?thesis
    using forged_message_double_free [of t_libs t_gview t_gcm t_alice t_forged _ t_chat "[1]" ?t,
        OF _ _ _ _ _ c(1,2) _ t(1)] t(2) c(3) t_forged_parse
    by (simp add: t_gcm_contract)
qed

lemma decrypt_double_free_iff_witness:
  "\<not> double_freed (snd (parseAndDecryptMessage t_libs [] t_alice))"
proof -
  have "get_fields 5 [] = None"
    using get_fields.simps(2) [of 4 "[]"] by (simp add: get_field_def)
  then have "parse_envelope t_proto [] (c_int 0) = None"
    by (simp add: t_proto_def)
  then have "fst (parseAndDecryptMessage t_libs [] t_alice) = Inl ''Malformed Envelope''"
    by (simp add: parseAndDecryptMessage_def report_def io_run require_io_def)
  then show ?thesis
    using decrypt_double_free_iff [of t_alice t_libs "[]"] by simp
qed

lemma accepted_message_is_authentic_witness:
  "\<exists>frame en. fst (parseAndDecryptMessage t_libs frame t_bob) = Inr ''hello'' \<and>
     parse_envelope t_proto frame (c_int (length frame)) = Some en"
proof -
  obtain frame w' where f: "encryptAndSerializeMessage t_libs ''hello'' ''alice'' ''bob'' t_alice = (Inr frame, w')"
    by (rule t_frame)
  obtain e where run: "parseAndDecryptMessage t_libs frame t_bob = (Inr ''hello'', t_bob\<lparr>env := e\<rparr>)"
    using t_frame_decrypts [OF f] by blast
  have "gcm_contract (lb_cipher t_libs) t_gview t_gcm" "proto_contract (lb_proto t_libs)"
    by (simp_all add: t_gcm_contract t_proto_contract)
  from accepted_message_is_authentic [OF this run]
  obtain en where "parse_envelope t_proto frame (c_int (length frame)) = Some en" by auto
  with run show ?thesis by (metis fst_conv)
qed

section \<open>Limits of the protocol\<close>

text \<open>A message that comes back to the engine that sent it.\<close>

lemma metadata_not_authenticated_witness:
  "\<exists>frame. fst (encryptAndSerializeMessage t_libs ''hello'' ''alice'' ''bob'' t_alice) = Inr frame \<and>
     fst (parseAndDecryptMessage t_libs frame t_alice) = Inr ''hello''"
proof -
  obtain frame w' where f: "encryptAndSerializeMessage t_libs ''hello'' ''alice'' ''bob'' t_alice = (Inr frame, w')"
    by (rule t_frame)
  obtain e where run: "parseAndDecryptMessage t_libs frame t_bob = (Inr ''hello'', t_bob\<lparr>env := e\<rparr>)"
    using t_frame_decrypts [OF f] by blast
  have c: "gcm_contract (lb_cipher t_libs) t_gview t_gcm" "proto_contract (lb_proto t_libs)"
    by (simp_all add: t_gcm_contract t_proto_contract)
  obtain en m where p: "parse_envelope (lb_proto t_libs) frame (c_int (length frame)) = Some en"
    "parse_chat (lb_proto t_libs) (ev_payload_e2e en) (c_int (length (ev_payload_e2e en))) = Some m"
    using accepted_message_tag [OF c run] by blast
  from metadata_not_authenticated [OF c run p p refl refl, of t_alice] f show ?thesis by auto
qed

text \<open>The key pair 20, 21 belongs to the attacker.\<close>

definition t_mallory_msg :: handshake_hello where
  "t_mallory_msg = t_hello_msg\<lparr>hh_identity_pub := t_id 21,
     hh_identity_sig := ed_S t_ed (t_id 20) (client_msg [1, 2, 3, 4])\<rparr>"

definition t_mallory :: bytes where "t_mallory = the (ser_hello t_proto t_mallory_msg)"

lemma t_mallory_ser: "ser_hello t_proto t_mallory_msg = Some t_mallory"
  by (simp add: t_mallory_def t_mallory_msg_def t_hello_msg_def t_proto_def put_fields_def put_field_length Let_def)

lemma t_mallory_id: "ed_pub_of t_ed (t_id 20) = t_id 21" "hh_kem_public_key t_hello_msg = [1, 2, 3, 4]"
  by (simp_all add: t_ed_def t_hello_msg_def)

lemmas t_mallory_parse = proto_contractD(1) [OF t_proto_contract t_mallory_ser]

lemma identity_misbinding_witness:
  "fst (runServerHandshake t_libs t_send t_recv (t_engine 7 [t_hello])) = Inr (t_fp (t_id 6)) \<and>
   fst (runServerHandshake t_libs t_send (rewritten (\<lambda>f. t_mallory) t_recv) (t_engine 7 [t_hello])) = Inr (t_fp (t_id 21)) \<and>
   session_key (snd (runServerHandshake t_libs t_send (rewritten (\<lambda>f. t_mallory) t_recv) (t_engine 7 [t_hello]))) =
     session_key (snd (runClientHandshake t_libs t_send t_recv (t_engine 5 [t_response])))"
proof -
  have "pubkey_steady (lb_pkey t_libs)" by (simp add: pubkey_steady_def t_pkey_def)
  from identity_misbinding [where vh = t_hview and H = t_H and view = t_eview and Z = t_ed and tr = t_log and tr' = t_log
      and hello = t_hello and response = t_response and m = t_hello_msg and s = "t_id 20" and f = "\<lambda>f. t_mallory",
      OF _ _ _ this _ _ _ _ _ t_client_run t_server_run]
  show ?thesis
    by (simp add: t_contracts t_ed_contract t_parse(1) t_mallory_parse t_client_run t_server_run t_mallory_msg_def t_mallory_id)
qed

end
