(* ===== verification/Cxx_String.thy ===== *)
theory Cxx_String
  imports Prelude
begin

text \<open>
  The operations of \<open>std::string\<close> the sources use. A position is an index, or \<open>None\<close> for
  \<open>std::string::npos\<close>. Strings are shorter than \<open>2^64 - 3\<close> characters, so that an index never
  wraps; \<open>npos\<close> itself does.
\<close>

section \<open>Searching\<close>

fun search :: "string \<Rightarrow> string \<Rightarrow> nat option" where
  "search p s = (if take (length p) s = p then Some 0
     else case s of [] \<Rightarrow> None | _ # s' \<Rightarrow> map_option Suc (search p s'))"

declare search.simps [simp del]

text \<open>\<open>s.find(p, pos)\<close>, for a string or a single character.\<close>

definition cxx_find :: "string \<Rightarrow> string \<Rightarrow> nat \<Rightarrow> nat option" where
  "cxx_find p s pos = (if length s < pos then None else map_option ((+) pos) (search p (drop pos s)))"

text \<open>\<open>s.rfind(c)\<close> and \<open>s.rfind(p, 0) == 0\<close>.\<close>

definition cxx_rfind :: "char \<Rightarrow> string \<Rightarrow> nat option" where
  "cxx_rfind c s = map_option (\<lambda>i. length s - Suc i) (search [c] (rev s))"

definition starts_with :: "string \<Rightarrow> string \<Rightarrow> bool" where
  "starts_with p s \<longleftrightarrow> take (length p) s = p"

text \<open>\<open>pos + k\<close> for a \<open>pos\<close> that may be \<open>npos\<close>, the largest \<open>size_t\<close>: the sum wraps to \<open>k - 1\<close>.\<close>

definition past :: "nat \<Rightarrow> nat option \<Rightarrow> nat" where
  "past k pos = (case pos of None \<Rightarrow> k - 1 | Some i \<Rightarrow> i + k)"

text \<open>\<open>s.substr(pos, n)\<close> and \<open>s.substr(pos)\<close>, for a position within the string.\<close>

definition substr :: "string \<Rightarrow> nat \<Rightarrow> nat \<Rightarrow> string" where
  "substr s pos n = take n (drop pos s)"

lemma past_word: "word_of_nat (past 3 None) = (- 1 + 3 :: 64 word)"
  by (simp add: past_def)

section \<open>Lemmas\<close>

lemma search_here: "search p (p @ s) = Some 0"
  by (simp add: search.simps)

lemma search_Nil_iff: "search p [] = (if p = [] then Some 0 else None)"
  by (simp add: search.simps)

lemma search_char_Cons: "search [c] (x # s) = (if x = c then Some 0 else map_option Suc (search [c] s))"
  by (subst search.simps) simp

lemma search_char_None: "search [c] s = None \<longleftrightarrow> c \<notin> set s"
  by (induction s) (auto simp: search_Nil_iff search_char_Cons)

lemma search_char_found: "c \<notin> set a \<Longrightarrow> search [c] (a @ c # b) = Some (length a)"
  by (induction a) (auto simp: search_char_Cons)

lemma search_char_append: "c \<notin> set a \<Longrightarrow> search [c] (a @ b) = map_option ((+) (length a)) (search [c] b)"
  by (induction a; cases "search [c] b") (auto simp: search_char_Cons)

text \<open>The first character of the pattern does not occur before the match.\<close>

lemma search_found: "hd p \<notin> set a \<Longrightarrow> p \<noteq> [] \<Longrightarrow> search p (a @ p @ b) = Some (length a)"
proof (induction a)
  case Nil
  then show ?case by (simp add: search_here)
next
  case (Cons x a)
  then have "take (length p) (x # a @ p @ b) \<noteq> p"
    by (cases p) auto
  with Cons show ?case by (subst search.simps) simp
qed

lemma search_skip: "hd p \<notin> set a \<Longrightarrow> p \<noteq> [] \<Longrightarrow> search p (a @ b) = map_option ((+) (length a)) (search p b)"
proof (induction a)
  case Nil
  then show ?case by (cases "search p b") simp_all
next
  case (Cons x a)
  then have "take (length p) (x # a @ b) \<noteq> p"
    by (cases p) auto
  with Cons show ?case by (subst search.simps; cases "search p b") simp_all
qed

lemma search_absent: "hd p \<notin> set s \<Longrightarrow> p \<noteq> [] \<Longrightarrow> search p s = None"
proof (induction s)
  case Nil
  then show ?case by (simp add: search_Nil_iff)
next
  case (Cons x s)
  then have "take (length p) (x # s) \<noteq> p"
    by (cases p) auto
  with Cons show ?case by (subst search.simps) simp
qed

lemma search_Some: "search p s = Some i \<Longrightarrow> take (length p) (drop i s) = p \<and> i \<le> length s"
proof (induction s arbitrary: i)
  case Nil
  then show ?case by (simp add: search_Nil_iff split: if_splits)
next
  case (Cons x s)
  show ?case
  proof (cases "take (length p) (x # s) = p")
    case True
    with Cons.prems show ?thesis by (simp add: search.simps)
  next
    case False
    with Cons.prems obtain j where "search p s = Some j" "i = Suc j"
      by (subst (asm) search.simps) auto
    with Cons.IH show ?thesis by simp
  qed
qed

lemma search_least: "search p s = Some i \<Longrightarrow> j < i \<Longrightarrow> take (length p) (drop j s) \<noteq> p"
proof (induction s arbitrary: i j)
  case Nil
  then show ?case by (simp add: search_Nil_iff split: if_splits)
next
  case (Cons x s)
  then have "take (length p) (x # s) \<noteq> p"
    by (subst (asm) search.simps) (auto split: if_splits)
  moreover from this obtain i' where "search p s = Some i'" "i = Suc i'"
    using Cons.prems by (subst (asm) search.simps) auto
  ultimately show ?case
    using Cons.IH [of i' "j - 1"] Cons.prems by (cases j) auto
qed

lemma search_None: "search p s = None \<longleftrightarrow> (\<forall>i \<le> length s. take (length p) (drop i s) \<noteq> p)"
proof (induction s)
  case Nil
  then show ?case by (simp add: search_Nil_iff)
next
  case (Cons x s)
  have "(\<forall>i \<le> length (x # s). take (length p) (drop i (x # s)) \<noteq> p) \<longleftrightarrow>
      take (length p) (x # s) \<noteq> p \<and> (\<forall>i \<le> length s. take (length p) (drop i s) \<noteq> p)"
    by (auto simp: less_Suc_eq_le split: nat.splits dest: spec [of _ "Suc _"])
       (metis Suc_le_mono drop_0 drop_Suc_Cons not0_implies_Suc)
  with Cons show ?case by (subst search.simps) simp
qed

lemma cxx_find_0: "cxx_find p s 0 = search p s"
  by (cases "search p s") (simp_all add: cxx_find_def)

lemma cxx_find_ge: "cxx_find p s pos = Some i \<Longrightarrow> pos \<le> i"
  by (auto simp: cxx_find_def split: if_splits)

lemma cxx_rfind_None: "cxx_rfind c s = None \<longleftrightarrow> c \<notin> set s"
  by (simp add: cxx_rfind_def search_char_None)

lemma cxx_rfind_found: "c \<notin> set b \<Longrightarrow> cxx_rfind c (a @ c # b) = Some (length a)"
  using search_char_found [of c "rev b" "rev a"] by (simp add: cxx_rfind_def)

lemma starts_with_append [simp]: "starts_with p (p @ s)"
  by (simp add: starts_with_def)

lemma cxx_find_skip: "n = length a \<Longrightarrow> cxx_find p (a @ b) n = map_option ((+) n) (search p b)"
  by (simp add: cxx_find_def)

lemma search_char_split:
  assumes "search [c] s = Some i"
  obtains a b where "s = a @ c # b" "length a = i" "c \<notin> set a"
proof -
  have "c \<in> set s" using assms search_char_None [of c s] by auto
  then obtain a b where "s = a @ c # b" "c \<notin> set a" by (meson split_list_first)
  with assms search_char_found [of c a b] show ?thesis by (auto intro: that)
qed

section \<open>Splitting at a character\<close>

fun split_on :: "char \<Rightarrow> string \<Rightarrow> string list" where
  "split_on c [] = [[]]"
| "split_on c (x # xs) =
     (if x = c then [] # split_on c xs
      else case split_on c xs of [] \<Rightarrow> [[x]] | p # ps \<Rightarrow> (x # p) # ps)"

lemma split_on_whole: "c \<notin> set s \<Longrightarrow> split_on c s = [s]"
  by (induction s) auto

lemma split_on_first: "c \<notin> set a \<Longrightarrow> split_on c (a @ c # b) = a # split_on c b"
  by (induction a) auto

section \<open>Numbers\<close>

text \<open>\<open>std::to_string\<close> of an unsigned number.\<close>

fun to_string :: "nat \<Rightarrow> string" where
  "to_string n = (if n < 10 then [char_of (48 + n)]
                  else to_string (n div 10) @ [char_of (48 + n mod 10)])"

declare to_string.simps [simp del]

text \<open>
  \<open>std::atoi\<close>: white space, a sign, decimal digits, 0 when there is none; \<open>None\<close> where the value does not
  fit an \<open>int\<close> and the behaviour is undefined.
\<close>

definition is_space :: "char \<Rightarrow> bool" where
  "is_space c \<longleftrightarrow> c \<in> {CHR '' '', CHR 0x09, CHR 0x0A, CHR 0x0B, CHR 0x0C, CHR 0x0D}"

definition is_digit :: "char \<Rightarrow> bool" where
  "is_digit c \<longleftrightarrow> 48 \<le> (of_char c :: nat) \<and> (of_char c :: nat) \<le> 57"

definition dec_value :: "string \<Rightarrow> nat" where
  "dec_value s = foldl (\<lambda>acc c. 10 * acc + (of_char c - 48)) 0 s"

definition atoi :: "string \<Rightarrow> int option" where
  "atoi s =
     (let s = dropWhile is_space s;
          (neg, s) = (case s of c # r \<Rightarrow> if c = CHR ''-'' then (True, r)
                                      else if c = CHR ''+'' then (False, r) else (False, s)
                      | [] \<Rightarrow> (False, s));
          v = int (dec_value (takeWhile is_digit s));
          v = (if neg then - v else v)
      in if - (2 ^ 31) \<le> v \<and> v < 2 ^ 31 then Some v else None)"

lemma to_string_digits: "list_all is_digit (to_string n) \<and> to_string n \<noteq> []"
  by (induction n rule: to_string.induct) (subst (1 2) to_string.simps, auto simp: is_digit_def list_all_iff)

lemma dec_value_to_string: "dec_value (to_string n) = n"
  by (induction n rule: to_string.induct) (subst to_string.simps, auto simp: dec_value_def)

lemma digit_not_special: "is_digit c \<Longrightarrow> \<not> is_space c \<and> c \<noteq> CHR ''-'' \<and> c \<noteq> CHR ''+''"
  by (auto simp: is_digit_def is_space_def)

lemma atoi_to_string: "n < 2 ^ 31 \<Longrightarrow> atoi (to_string n) = Some (int n)"
proof -
  assume n: "n < 2 ^ 31"
  obtain c r where cr: "to_string n = c # r" using to_string_digits [of n] by (cases "to_string n") auto
  have c: "is_digit c" using to_string_digits [of n] cr by simp
  have all: "takeWhile is_digit (c # r) = c # r"
    using to_string_digits [of n] cr by (simp add: takeWhile_eq_all_conv list_all_iff)
  have "int n < 2 ^ 31" using n by simp
  moreover have "dec_value (c # r) = n" using dec_value_to_string [of n] cr by simp
  ultimately show ?thesis
    using digit_not_special [OF c] all unfolding cr atoi_def Let_def by simp
qed

end
