(* ===== verification/Transport.thy ===== *)
theory Transport
  imports Profile Cxx_String
begin

text \<open>
  The transports that carry whole frames: \<^verbatim>\<open>tcp_transport.cpp\<close> (a length prefix over a byte stream),
  \<^verbatim>\<open>ws_transport.cpp\<close> (the inbox between the Qt event handlers and the engine) and the in-memory Channel
  of \<^verbatim>\<open>tools/engine_loopback_test.cpp\<close>. The contract they share is the locale \<open>frame_link\<close>.
\<close>

section \<open>Calls that may block\<close>

datatype 'a await = Blocked | Ret 'a

section \<open>The contract of a frame transport\<close>

text \<open>
  The state is that of one direction of the connection, both ends included. \<open>pending\<close> are
  the frames that were sent and not yet received; \<open>fits\<close> are the frames the transport
  carries, \<open>usable\<close> the states in which it works.
\<close>

fun send_frames :: "(bytes \<Rightarrow> 's \<Rightarrow> bool \<times> 's) \<Rightarrow> bytes list \<Rightarrow> 's \<Rightarrow> bool \<times> 's" where
  "send_frames sendf [] s = (True, s)"
| "send_frames sendf (b # bs) s =
     (case sendf b s of (ok, s') \<Rightarrow> if ok then send_frames sendf bs s' else (False, s'))"

fun recv_frames :: "('s \<Rightarrow> bytes option await \<times> 's) \<Rightarrow> nat \<Rightarrow> 's \<Rightarrow> bytes list \<times> 's" where
  "recv_frames recvf 0 s = ([], s)"
| "recv_frames recvf (Suc n) s =
     (case recvf s of
        (Ret (Some b), s') \<Rightarrow> (case recv_frames recvf n s' of (bs, s'') \<Rightarrow> (b # bs, s''))
      | (_, s') \<Rightarrow> ([], s'))"

locale frame_link =
  fixes sendf :: "bytes \<Rightarrow> 's \<Rightarrow> bool \<times> 's"
    and recvf :: "'s \<Rightarrow> bytes option await \<times> 's"
    and pending :: "'s \<Rightarrow> bytes list"
    and fits :: "bytes \<Rightarrow> bool"
    and usable :: "'s \<Rightarrow> bool"
  assumes send_law: "usable s \<Longrightarrow> fits b \<Longrightarrow>
      fst (sendf b s) \<and> usable (snd (sendf b s)) \<and> pending (snd (sendf b s)) = pending s @ [b]"
    and recv_law: "usable s \<Longrightarrow> pending s = b # bs \<Longrightarrow> fits b \<Longrightarrow>
      fst (recvf s) = Ret (Some b) \<and> usable (snd (recvf s)) \<and> pending (snd (recvf s)) = bs"
begin

lemma send_frames_law:
  "usable s \<Longrightarrow> list_all fits (pending s) \<Longrightarrow> list_all fits bs \<Longrightarrow>
     fst (send_frames sendf bs s) \<and> usable (snd (send_frames sendf bs s)) \<and>
     pending (snd (send_frames sendf bs s)) = pending s @ bs"
proof (induction bs arbitrary: s)
  case (Cons b bs)
  obtain ok s' where s': "sendf b s = (ok, s')" by (cases "sendf b s")
  with send_law [of s b] Cons.prems have *: "ok" "usable s'" "pending s' = pending s @ [b]"
    by auto
  with Cons.IH [of s'] Cons.prems s' show ?case by simp
qed simp

lemma recv_frames_law:
  "usable s \<Longrightarrow> list_all fits (pending s) \<Longrightarrow> n \<le> length (pending s) \<Longrightarrow>
     fst (recv_frames recvf n s) = take n (pending s) \<and> usable (snd (recv_frames recvf n s)) \<and>
     pending (snd (recv_frames recvf n s)) = drop n (pending s)"
proof (induction n arbitrary: s)
  case (Suc n)
  then obtain b bs where p: "pending s = b # bs" by (cases "pending s") auto
  obtain r s' where s': "recvf s = (r, s')" by (cases "recvf s")
  with recv_law [OF Suc.prems(1) p] Suc.prems(2) p
  have *: "r = Ret (Some b)" "usable s'" "pending s' = bs" by auto
  with Suc.IH [of s'] Suc.prems(2,3) p s' show ?case by (auto split: prod.splits)
qed simp

text \<open>Frames arrive whole, once and in order.\<close>

lemma fifo:
  assumes "usable s" and "pending s = []" and "list_all fits bs"
  shows "fst (send_frames sendf bs s)"
    and "fst (recv_frames recvf (length bs) (snd (send_frames sendf bs s))) = bs"
  using send_frames_law [of s bs] recv_frames_law [of "snd (send_frames sendf bs s)" "length bs"] assms
  by simp_all

end

section \<open>The in-memory channel\<close>

text \<open>\<open>struct Channel\<close>: the mutex makes each operation one step; \<open>cv.wait\<close> is \<open>Blocked\<close>.\<close>

record channel =
  ch_q :: "bytes list"
  ch_closed :: bool

definition send_to :: "bytes \<Rightarrow> channel \<Rightarrow> bool \<times> channel" where
  "send_to frame ch = (if ch_closed ch then (False, ch) else (True, ch\<lparr>ch_q := ch_q ch @ [frame]\<rparr>))"

definition recv_from :: "channel \<Rightarrow> bytes option await \<times> channel" where
  "recv_from ch =
     (if \<not> (ch_q ch \<noteq> [] \<or> ch_closed ch) then (Blocked, ch)
      else case ch_q ch of
        [] \<Rightarrow> (Ret None, ch)
      | f # fs \<Rightarrow> (Ret (Some f), ch\<lparr>ch_q := fs\<rparr>))"

interpretation chan: frame_link send_to recv_from ch_q "\<lambda>_. True" "\<lambda>ch. \<not> ch_closed ch"
  by unfold_locales (simp_all add: send_to_def recv_from_def)

section \<open>The WebSocket inbox\<close>

text \<open>
  The members \<open>connected_\<close>, \<open>closed_\<close> and \<open>inbox_\<close> of WebSocketTransport and the handlers that the
  constructor connects to the socket's signals. \<open>qs\<close> is the state of the QWebSocket.
\<close>

record 'q ws_transport =
  ws_connected :: bool
  ws_closed :: bool
  ws_inbox :: "bytes list"
  ws_socket :: 'q

definition ws_on_connected :: "'q ws_transport \<Rightarrow> 'q ws_transport" where
  "ws_on_connected w = w\<lparr>ws_connected := True\<rparr>"

definition ws_on_disconnected :: "'q ws_transport \<Rightarrow> 'q ws_transport" where
  "ws_on_disconnected w = w\<lparr>ws_closed := True, ws_connected := False\<rparr>"

definition ws_on_message :: "bytes \<Rightarrow> 'q ws_transport \<Rightarrow> 'q ws_transport" where
  "ws_on_message msg w = w\<lparr>ws_inbox := ws_inbox w @ [msg]\<rparr>"

definition ws_on_error :: "'q ws_transport \<Rightarrow> 'q ws_transport" where
  "ws_on_error w = w\<lparr>ws_closed := True, ws_connected := False\<rparr>"

text \<open>\<open>sendBinaryMessage\<close> returns the number of bytes sent; the size is cut to an \<open>int\<close>.\<close>

definition ws_send ::
  "(bytes \<Rightarrow> int \<Rightarrow> 'q \<Rightarrow> int \<times> 'q) \<Rightarrow> bytes \<Rightarrow> 'q ws_transport \<Rightarrow> bool \<times> 'q ws_transport" where
  "ws_send sendBinaryMessage bs w =
     (if \<not> ws_connected w then (False, w)
      else (let (n, q) = sendBinaryMessage bs (c_int (length bs)) (ws_socket w) in
        (n \<ge> 0, w\<lparr>ws_socket := q\<rparr>)))"

definition ws_recv :: "'q ws_transport \<Rightarrow> bytes option await \<times> 'q ws_transport" where
  "ws_recv w =
     (if \<not> (ws_inbox w \<noteq> [] \<or> ws_closed w) then (Blocked, w)
      else case ws_inbox w of
        msg # rest \<Rightarrow> (Ret (Some msg), w\<lparr>ws_inbox := rest\<rparr>)
      | [] \<Rightarrow> (Ret None, w))"

definition ws_close :: "('q \<Rightarrow> 'q) \<Rightarrow> 'q ws_transport \<Rightarrow> 'q ws_transport" where
  "ws_close closef w =
     (let w = (if ws_connected w then w\<lparr>ws_socket := closef (ws_socket w)\<rparr> else w) in
      w\<lparr>ws_closed := True, ws_connected := False\<rparr>)"

text \<open>The sender of this link is the event handler; the inbox drains even after a close.\<close>

interpretation ws: frame_link "\<lambda>msg w. (True, ws_on_message msg w)" ws_recv ws_inbox "\<lambda>_. True" "\<lambda>_. True"
  by unfold_locales (simp_all add: ws_on_message_def ws_recv_def)

section \<open>TCP: boost::asio as a parameter\<close>

text \<open>
  \<open>'s\<close> is the state of the socket and of the byte stream behind it, \<open>'ep\<close> a list of resolved
  endpoints. \<open>False\<close> and \<open>None\<close> stand for a thrown \<open>boost::system::system_error\<close>. \<open>asio_write\<close> writes
  the whole buffer, \<open>asio_read n\<close> reads exactly \<open>n\<close> bytes and blocks until they are there.
\<close>

record ('s, 'ep) asio =
  asio_resolve :: "string \<Rightarrow> string \<Rightarrow> 's \<Rightarrow> 'ep option \<times> 's"
  asio_connect :: "'ep \<Rightarrow> 's \<Rightarrow> bool \<times> 's"
  asio_listen :: "16 word \<Rightarrow> 's \<Rightarrow> bool \<times> 's"
  asio_accept :: "'s \<Rightarrow> bool \<times> 's"
  asio_write :: "bytes \<Rightarrow> 's \<Rightarrow> bool \<times> 's"
  asio_read :: "nat \<Rightarrow> 's \<Rightarrow> bytes option await \<times> 's"
  asio_shutdown :: "'s \<Rightarrow> 's"
  asio_close :: "'s \<Rightarrow> 's"

definition tcp_connect :: "('s, 'ep) asio \<Rightarrow> string \<Rightarrow> 16 word \<Rightarrow> 's \<Rightarrow> bool \<times> 's" where
  "tcp_connect A host port s =
     (case asio_resolve A host (to_string (unat port)) s of
        (None, s') \<Rightarrow> (False, s')
      | (Some endpoints, s') \<Rightarrow> asio_connect A endpoints s')"

definition tcp_listen_and_accept :: "('s, 'ep) asio \<Rightarrow> 16 word \<Rightarrow> 's \<Rightarrow> bool \<times> 's" where
  "tcp_listen_and_accept A port s =
     (case asio_listen A port s of (ok, s') \<Rightarrow> if ok then asio_accept A s' else (False, s'))"

text \<open>\<open>send\<close>: the length is cut to 32 bits, the body is not.\<close>

definition tcp_send :: "('s, 'ep) asio \<Rightarrow> bytes \<Rightarrow> 's \<Rightarrow> bool \<times> 's" where
  "tcp_send A frame s =
     (let len = c_uint32 (length frame) in
      case asio_write A (be32 len) s of
        (False, s') \<Rightarrow> (False, s')
      | (True, s') \<Rightarrow> if len \<noteq> 0 then asio_write A frame s' else (True, s'))"

text \<open>\<open>recv\<close>. A call that blocks has not returned: it is resumed from the state it was made in.\<close>

definition tcp_recv :: "('s, 'ep) asio \<Rightarrow> 's \<Rightarrow> bytes option await \<times> 's" where
  "tcp_recv A s =
     (case asio_read A 4 s of
        (Blocked, _) \<Rightarrow> (Blocked, s)
      | (Ret None, s') \<Rightarrow> (Ret None, s')
      | (Ret (Some net_len), s') \<Rightarrow>
          (let len = ntohl net_len in
           if len \<noteq> 0 then
             (case asio_read A (unat len) s' of
                (Blocked, _) \<Rightarrow> (Blocked, s)
              | (Ret r, s'') \<Rightarrow> (Ret r, s''))
           else (Ret (Some []), s')))"

definition tcp_close :: "('s, 'ep) asio \<Rightarrow> 's \<Rightarrow> 's" where
  "tcp_close A s = asio_close A (asio_shutdown A s)"

text \<open>A connected socket is a reliable byte stream; \<open>pipe\<close> holds what was written and not yet read.\<close>

definition asio_contract :: "('s, 'ep) asio \<Rightarrow> ('s \<Rightarrow> bytes) \<Rightarrow> ('s \<Rightarrow> bool) \<Rightarrow> bool" where
  "asio_contract A pipe up \<longleftrightarrow>
     (\<forall>s b. up s \<longrightarrow> fst (asio_write A b s) \<and> up (snd (asio_write A b s)) \<and>
        pipe (snd (asio_write A b s)) = pipe s @ b) \<and>
     (\<forall>s n. up s \<longrightarrow> n \<le> length (pipe s) \<longrightarrow>
        fst (asio_read A n s) = Ret (Some (take n (pipe s))) \<and> up (snd (asio_read A n s)) \<and>
        pipe (snd (asio_read A n s)) = drop n (pipe s))"

lemma asio_write_law:
  assumes "asio_contract A pipe up" and "up s"
  obtains s' where "asio_write A b s = (True, s')" "up s'" "pipe s' = pipe s @ b"
  using assms unfolding asio_contract_def by (metis (full_types) prod.collapse)

lemma asio_read_law:
  assumes "asio_contract A pipe up" and "up s" and "pipe s = b @ r"
  obtains s' where "asio_read A (length b) s = (Ret (Some b), s')" "up s'" "pipe s' = r"
proof -
  have "length b \<le> length (pipe s)" "take (length b) (pipe s) = b" "drop (length b) (pipe s) = r"
    using assms(3) by simp_all
  then have "fst (asio_read A (length b) s) = Ret (Some b)" "up (snd (asio_read A (length b) s))"
    "pipe (snd (asio_read A (length b) s)) = r"
    using assms(1,2) unfolding asio_contract_def by auto
  then show ?thesis by (metis that prod.collapse)
qed

section \<open>What the byte stream carries\<close>

definition tcp_encode :: "bytes \<Rightarrow> bytes" where
  "tcp_encode frame = be32 (c_uint32 (length frame)) @ (if c_uint32 (length frame) = 0 then [] else frame)"

lemma tcp_send_law:
  assumes "asio_contract A pipe up" and "up s"
  shows "fst (tcp_send A b s) \<and> up (snd (tcp_send A b s)) \<and>
    pipe (snd (tcp_send A b s)) = pipe s @ tcp_encode b"
proof -
  let ?h = "be32 (c_uint32 (length b))"
  obtain s1 where s1: "asio_write A ?h s = (True, s1)" "up s1" "pipe s1 = pipe s @ ?h"
    by (rule asio_write_law [OF assms])
  obtain s2 where s2: "asio_write A b s1 = (True, s2)" "up s2" "pipe s2 = pipe s1 @ b"
    by (rule asio_write_law [OF assms(1) s1(2)])
  show ?thesis
    using s1 s2 by (simp add: tcp_send_def tcp_encode_def Let_def)
qed

text \<open>The receiver takes the 32-bit length for granted.\<close>

lemma tcp_recv_law:
  assumes C: "asio_contract A pipe up" and up: "up s"
    and p: "pipe s = be32 len @ b @ r" and len: "length b = unat len"
  shows "fst (tcp_recv A s) = Ret (Some b) \<and> up (snd (tcp_recv A s)) \<and> pipe (snd (tcp_recv A s)) = r"
proof -
  obtain s1 where s1: "asio_read A 4 s = (Ret (Some (be32 len)), s1)" "up s1" "pipe s1 = b @ r"
    using asio_read_law [OF C up p] by auto
  obtain s2 where s2: "asio_read A (length b) s1 = (Ret (Some b), s2)" "up s2" "pipe s2 = r"
    by (rule asio_read_law [OF C s1(2,3)])
  show ?thesis
  proof (cases "len = 0")
    case True
    with len have "b = []" by simp
    with True s1 show ?thesis by (simp add: tcp_recv_def Let_def)
  next
    case False
    with s1 s2 len show ?thesis by (simp add: tcp_recv_def Let_def)
  qed
qed

text \<open>The frames in a byte stream, by the receiver's rule.\<close>

function deframe :: "bytes \<Rightarrow> bytes list" where
  "deframe bs =
     (let n = unat (ntohl (take 4 bs)) in
      if length bs < 4 + n then [] else take n (drop 4 bs) # deframe (drop (4 + n) bs))"
  by auto
termination
  by (relation "measure length") (auto simp: Let_def)

declare deframe.simps [simp del]

lemma deframe_nil [simp]: "deframe [] = []"
  by (simp add: deframe.simps)

lemma deframe_frame:
  "length b = unat len \<Longrightarrow> deframe (be32 len @ b @ r) = b # deframe r"
  by (subst deframe.simps) (simp add: Let_def)

lemma tcp_encode_small:
  "length b < 2 ^ 32 \<Longrightarrow> tcp_encode b = be32 (c_uint32 (length b)) @ b"
  by (auto simp: tcp_encode_def word_unat_eq_iff)

lemma deframe_encode: "length b < 2 ^ 32 \<Longrightarrow> deframe (tcp_encode b @ r) = b # deframe r"
  by (simp add: tcp_encode_small deframe_frame)

definition tcp_usable :: "('s \<Rightarrow> bytes) \<Rightarrow> ('s \<Rightarrow> bool) \<Rightarrow> 's \<Rightarrow> bool" where
  "tcp_usable pipe up s \<longleftrightarrow> up s \<and>
     (\<exists>fs. list_all (\<lambda>b. length b < 2 ^ 32) fs \<and> pipe s = concat (map tcp_encode fs))"

lemma deframe_frames:
  "list_all (\<lambda>b. length b < 2 ^ 32) fs \<Longrightarrow> deframe (concat (map tcp_encode fs) @ r) = fs @ deframe r"
  by (induction fs) (simp_all add: deframe_encode)

lemma tcp_frame_link:
  assumes C: "asio_contract A pipe up"
  shows "frame_link (tcp_send A) (tcp_recv A) (\<lambda>s. deframe (pipe s)) (\<lambda>b. length b < 2 ^ 32) (tcp_usable pipe up)"
proof
  fix s and b :: bytes
  assume s: "tcp_usable pipe up s" and b: "length b < 2 ^ 32"
  then obtain fs where fs: "list_all (\<lambda>b. length b < 2 ^ 32) fs" "pipe s = concat (map tcp_encode fs)"
    and up: "up s" by (auto simp: tcp_usable_def)
  let ?s' = "snd (tcp_send A b s)"
  have snd: "fst (tcp_send A b s)" "up ?s'" "pipe ?s' = concat (map tcp_encode (fs @ [b]))"
    using tcp_send_law [OF C up, of b] fs(2) by simp_all
  moreover have "list_all (\<lambda>b. length b < 2 ^ 32) (fs @ [b])" using fs(1) b by simp
  ultimately have "tcp_usable pipe up ?s'" unfolding tcp_usable_def by blast
  moreover have "deframe (pipe ?s') = deframe (pipe s) @ [b]"
    using deframe_frames [of "fs @ [b]" "[]"] deframe_frames [of fs "[]"] fs b snd(3) by simp
  ultimately show "fst (tcp_send A b s) \<and> tcp_usable pipe up ?s' \<and> deframe (pipe ?s') = deframe (pipe s) @ [b]"
    using snd(1) by simp
next
  fix s and b :: bytes and bs
  assume s: "tcp_usable pipe up s" and p: "deframe (pipe s) = b # bs" and b: "length b < 2 ^ 32"
  then obtain fs where fs: "list_all (\<lambda>b. length b < 2 ^ 32) fs" "pipe s = concat (map tcp_encode fs)"
    and up: "up s" by (auto simp: tcp_usable_def)
  have "fs = b # bs" using deframe_frames [OF fs(1), of "[]"] fs(2) p by simp
  then have split: "pipe s = be32 (c_uint32 (length b)) @ b @ concat (map tcp_encode bs)"
    and bs: "list_all (\<lambda>b. length b < 2 ^ 32) bs"
    using fs b by (simp_all add: tcp_encode_small)
  have len: "length b = unat (c_uint32 (length b))" using b by simp
  have recv: "fst (tcp_recv A s) = Ret (Some b)" "up (snd (tcp_recv A s))"
    "pipe (snd (tcp_recv A s)) = concat (map tcp_encode bs)"
    using tcp_recv_law [OF C up split len] by simp_all
  then have "tcp_usable pipe up (snd (tcp_recv A s))"
    using bs by (auto simp: tcp_usable_def)
  moreover have "deframe (pipe (snd (tcp_recv A s))) = bs"
    using deframe_frames [OF bs, of "[]"] recv(3) by simp
  ultimately show "fst (tcp_recv A s) = Ret (Some b) \<and> tcp_usable pipe up (snd (tcp_recv A s)) \<and>
      deframe (pipe (snd (tcp_recv A s))) = bs"
    using recv(1) by simp
qed

text \<open>C26: over a reliable byte stream every list of frames below 4 GiB that is sent through the TCP
  transport is received frame by frame, whole and in order, whatever the stream still carried in front.\<close>

theorem tcp_frames_in_order:
  assumes "asio_contract A pipe up" and "up s" and "pipe s = concat (map tcp_encode before)"
    and "list_all (\<lambda>b. length b < 2 ^ 32) (before @ frames)"
  shows "fst (send_frames (tcp_send A) frames s) \<and>
    fst (recv_frames (tcp_recv A) (length before + length frames) (snd (send_frames (tcp_send A) frames s))) =
      before @ frames"
proof -
  note link = tcp_frame_link [OF assms(1)]
  have s: "tcp_usable pipe up s" "deframe (pipe s) = before" "list_all (\<lambda>b. length b < 2 ^ 32) frames"
    using assms(2-4) deframe_frames [of before "[]"] by (auto simp: tcp_usable_def)
  let ?s' = "snd (send_frames (tcp_send A) frames s)"
  have "list_all (\<lambda>b. length b < 2 ^ 32) (deframe (pipe s))"
    using s(2) assms(4) by simp
  then have "fst (send_frames (tcp_send A) frames s)" and "tcp_usable pipe up ?s'"
    and "deframe (pipe ?s') = before @ frames"
    using frame_link.send_frames_law [OF link s(1) _ s(3)] s(2) by simp_all
  with frame_link.recv_frames_law [OF link, of ?s' "length before + length frames"] assms(4)
  show ?thesis by simp
qed

text \<open>C27: what the receiver gets first for a frame of any size is its first \<open>length mod 2^32\<close> bytes; a
  frame whose length is a multiple of 4 GiB arrives empty, and every other frame of 4 GiB or more
  leaves the rest of its body in the stream, where the receiver takes it for the next header.\<close>

theorem tcp_frame_of_any_size:
  assumes "asio_contract A pipe up" and "up s" and "pipe s = []"
  shows "fst (tcp_recv A (snd (tcp_send A b s))) = Ret (Some (take (length b mod 2 ^ 32) b)) \<and>
    pipe (snd (tcp_recv A (snd (tcp_send A b s)))) =
      (if length b mod 2 ^ 32 = 0 then [] else drop (length b mod 2 ^ 32) b)"
proof -
  let ?n = "length b mod 2 ^ 32" and ?len = "c_uint32 (length b)"
  have n: "unat ?len = ?n" by (simp add: c_uint32_def unat_of_nat take_bit_eq_mod)
  then have zero: "?len = 0 \<longleftrightarrow> ?n = 0" by (metis unat_eq_0)
  let ?s' = "snd (tcp_send A b s)"
  have s': "up ?s'" "pipe ?s' = tcp_encode b"
    using tcp_send_law [OF assms(1,2), of b] assms(3) by simp_all
  let ?rest = "if ?n = 0 then [] else drop ?n b"
  have "tcp_encode b = be32 ?len @ take ?n b @ ?rest"
    using zero by (simp add: tcp_encode_def)
  moreover have "length (take ?n b) = unat ?len"
    using n by simp
  ultimately show ?thesis
    using tcp_recv_law [OF assms(1) s'(1), of ?len "take ?n b" ?rest] s'(2) by simp
qed

text \<open>The in-memory channel of the loopback test and the WebSocket inbox deliver what was put in,
  whole, once and in order; the inbox does so even after the socket has closed, and only then reports
  the end of the connection.\<close>

theorem queues_in_order:
  assumes "\<not> ch_closed ch" and "ch_q ch = []" and w: "ws_inbox w = []"
  shows "fst (recv_frames recv_from (length frames) (snd (send_frames send_to frames ch))) = frames \<and>
     fst (recv_frames ws_recv (length frames)
       (ws_on_disconnected (snd (send_frames (\<lambda>msg w. (True, ws_on_message msg w)) frames w)))) = frames \<and>
     fst (ws_recv (snd (recv_frames ws_recv (length frames)
       (ws_on_disconnected (snd (send_frames (\<lambda>msg w. (True, ws_on_message msg w)) frames w)))))) = Ret None"
proof (intro conjI)
  show "fst (recv_frames recv_from (length frames) (snd (send_frames send_to frames ch))) = frames"
    using chan.fifo(2) [of ch frames] assms by (simp add: list_all_iff)
next
  let ?w' = "snd (send_frames (\<lambda>msg w. (True, ws_on_message msg w)) frames w)"
  let ?d = "ws_on_disconnected ?w'"
  have inbox: "ws_inbox ?d = frames"
    using ws.send_frames_law [of w frames] w by (simp add: list_all_iff ws_on_disconnected_def)
  note got = ws.recv_frames_law [of ?d "length frames"]
  then show "fst (recv_frames ws_recv (length frames) ?d) = frames"
    using inbox by (simp add: list_all_iff)
  have step: "ws_closed (snd (ws_recv v)) = ws_closed v" for v :: "'a ws_transport"
    by (simp add: ws_recv_def split: list.splits)
  have closed: "ws_closed (snd (recv_frames ws_recv n v)) = ws_closed v" for n and v :: "'a ws_transport"
  proof (induction n arbitrary: v)
    case (Suc n)
    show ?case
      using Suc [of "snd (ws_recv v)"] step [of v]
      by (cases "ws_recv v") (auto split: await.split option.split prod.split)
  qed simp
  have "ws_inbox (snd (recv_frames ws_recv (length frames) ?d)) = []"
    using got inbox by (simp add: list_all_iff)
  moreover have "ws_closed (snd (recv_frames ws_recv (length frames) ?d))"
    using closed by (simp add: ws_on_disconnected_def)
  ultimately show "fst (ws_recv (snd (recv_frames ws_recv (length frames) ?d))) = Ret None"
    by (simp add: ws_recv_def)
qed

end
