(* ===== verification/Ws_Url.thy ===== *)
theory Ws_Url
  imports Cxx_String
begin

text \<open>
  The URLs of the relay: \<open>ws_join\<close> and \<open>url_host\<close> of \<^verbatim>\<open>relay_cli.cpp\<close>, \<open>parse_ws_url\<close> of
  \<^verbatim>\<open>beast_ws_transport.cpp\<close>, and \<open>url_decode\<close>, \<open>get_query_value\<close> and the request dispatch of
  \<^verbatim>\<open>relay_server.cpp\<close>; what a room name becomes on its way from the command line to the relay.
\<close>

section \<open>Building the URL\<close>

definition ws_join :: "string \<Rightarrow> string \<Rightarrow> string" where
  "ws_join base room =
     (let url = base;
          url = (if starts_with ''http://'' url then ''ws'' @ drop 4 url
                 else if starts_with ''https://'' url then ''wss'' @ drop 5 url else url);
          url = (if cxx_find ''/'' url (past 3 (cxx_find ''://'' url 0)) = None then url @ ''/ws'' else url);
          url = (if cxx_find ''/ws'' url (past 3 (cxx_find ''://'' url 0)) = None
                 then (let slash = cxx_find ''://'' url 0;
                           hostend = cxx_find ''/'' url (past 3 slash)
                       in if hostend = None then url @ ''/ws'' else url)
                 else url);
          url = url @ (if cxx_find ''?'' url 0 = None then ''?'' else ''&'')
      in url @ ''room='' @ room)"

definition url_host :: "string \<Rightarrow> string" where
  "url_host url =
     (let rest = (case cxx_find ''://'' url 0 of None \<Rightarrow> url | Some pos \<Rightarrow> drop (pos + 3) url)
      in case cxx_find ''/'' rest 0 of None \<Rightarrow> rest | Some slash \<Rightarrow> take slash rest)"

section \<open>Parsing it again\<close>

record parsed_url =
  pu_scheme :: string
  pu_host :: string
  pu_port :: string
  pu_target :: string

text \<open>\<open>None\<close> where the source returns false before any assignment to \<open>out\<close>.\<close>

definition parse_ws_url :: "string \<Rightarrow> parsed_url \<Rightarrow> bool \<times> parsed_url" where
  "parse_ws_url url out =
     (case cxx_find ''://'' url 0 of
        None \<Rightarrow> (False, out)
      | Some pos \<Rightarrow>
         (let scheme = substr url 0 pos;
              rest = drop (pos + 3) url;
              slash = cxx_find ''/'' rest 0;
              hostport = (case slash of None \<Rightarrow> rest | Some i \<Rightarrow> substr rest 0 i);
              target = (case slash of None \<Rightarrow> ''/'' | Some i \<Rightarrow> drop i rest);
              (host, port) = (case cxx_rfind CHR '':'' hostport of
                  Some colon \<Rightarrow> (substr hostport 0 colon, drop (colon + 1) hostport)
                | None \<Rightarrow> (hostport, if scheme = ''wss'' then ''443'' else ''80''));
              target = (if target = [] then ''/'' else target)
          in (host \<noteq> [], \<lparr>pu_scheme = scheme, pu_host = host, pu_port = port, pu_target = target\<rparr>)))"

section \<open>Decoding in the relay\<close>

text \<open>\<open>ss << std::hex << two; ss >> x;\<close> for an \<open>unsigned int\<close>: white space, a sign, an optional
  \<open>0x\<close>, hexadecimal digits; nothing readable gives 0.\<close>

definition hex_digit :: "char \<Rightarrow> nat option" where
  "hex_digit c = (let n = of_char c in
     if 48 \<le> n \<and> n \<le> 57 then Some (n - 48)
     else if 97 \<le> n \<and> n \<le> 102 then Some (n - 87)
     else if 65 \<le> n \<and> n \<le> 70 then Some (n - 55) else None)"

definition read_hex :: "string \<Rightarrow> 32 word" where
  "read_hex s =
     (let s = dropWhile is_space s;
          (neg, s) = (case s of c # r \<Rightarrow> if c = CHR ''-'' then (True, r)
                                      else if c = CHR ''+'' then (False, r) else (False, s)
                      | [] \<Rightarrow> (False, s));
          s = (if take 2 s \<in> {''0x'', ''0X''} then drop 2 s else s);
          ds = takeWhile (\<lambda>c. hex_digit c \<noteq> None) s;
          v = foldl (\<lambda>acc c. 16 * acc + word_of_nat (the (hex_digit c))) 0 ds
      in if neg then - v else v)"

text \<open>\<open>static_cast<char>(x)\<close> keeps the low byte.\<close>

definition char_of_u32 :: "32 word \<Rightarrow> char" where
  "char_of_u32 x = char_of (unat x mod 256)"

fun url_decode :: "string \<Rightarrow> string" where
  "url_decode [] = []"
| "url_decode (c # s) =
     (if c = CHR ''%'' \<and> 2 \<le> length s
      then char_of_u32 (read_hex (take 2 s)) # url_decode (drop 2 s)
      else if c = CHR ''+'' then CHR '' '' # url_decode s
      else c # url_decode s)"

text \<open>The \<open>while\<close> loop of \<open>get_query_value\<close>, from position \<open>pos\<close> of the query.\<close>

function query_loop :: "string \<Rightarrow> string \<Rightarrow> nat \<Rightarrow> string" where
  "query_loop query key pos =
     (if pos < length query then
        (let amp = cxx_find ''&'' query pos;
             part = (case amp of None \<Rightarrow> drop pos query | Some a \<Rightarrow> substr query pos (a - pos));
             eq = cxx_find ''='' part 0;
             k = url_decode (case eq of None \<Rightarrow> part | Some e \<Rightarrow> substr part 0 e);
             v = url_decode (case eq of None \<Rightarrow> [] | Some e \<Rightarrow> drop (e + 1) part)
         in if k = key then v
            else case amp of None \<Rightarrow> [] | Some a \<Rightarrow> query_loop query key (a + 1))
      else [])"
  by auto
termination
  by (relation "measure (\<lambda>(query, key, pos). length query - pos)")
     (auto dest!: sym [of "Some _"] cxx_find_ge)

declare query_loop.simps [simp del]

definition get_query_value :: "string \<Rightarrow> string \<Rightarrow> string" where
  "get_query_value target key =
     (case cxx_find ''?'' target 0 of
        None \<Rightarrow> []
      | Some qpos \<Rightarrow> query_loop (drop (qpos + 1) target) key 0)"

section \<open>Dispatching a request\<close>

text \<open>
  A request as Beast hands it over: \<open>rq_upgrade\<close> is \<open>websocket::is_upgrade(req)\<close>, \<open>rq_accept_ok\<close> the
  absence of an error from \<open>ws.accept\<close>, \<open>rq_write_ok\<close> that \<open>http::write(socket, res)\<close> succeeds. That
  overload throws when it fails; nothing catches it in the detached thread, so \<open>std::terminate\<close> ends
  the process.
\<close>

record http_request =
  rq_is_get :: bool
  rq_target :: string
  rq_upgrade :: bool
  rq_accept_ok :: bool
  rq_write_ok :: bool

datatype http_reply =
    HealthOk
  | BadRequest
  | JoinRoom string
  | AcceptError
  | NotFound
  | Terminated

definition http_write :: "http_request \<Rightarrow> http_reply \<Rightarrow> http_reply" where
  "http_write req res = (if rq_write_ok req then res else Terminated)"

definition do_http :: "http_request \<Rightarrow> http_reply" where
  "do_http req =
     (if rq_is_get req \<and> rq_target req = ''/health'' then http_write req HealthOk
      else if rq_upgrade req then
        (let target = rq_target req in
         if \<not> starts_with ''/ws'' target then http_write req BadRequest
         else
          (let room = get_query_value target ''room'';
               room = (if room = [] then ''default'' else room)
           in if \<not> rq_accept_ok req then AcceptError else JoinRoom room))
      else http_write req NotFound)"

section \<open>What the query loop computes\<close>

text \<open>The specification: split at \<open>&\<close>, split each part at its first \<open>=\<close>, decode, take the first match.\<close>

definition query_param :: "string \<Rightarrow> string \<times> string" where
  "query_param part = (url_decode (takeWhile (\<lambda>c. c \<noteq> CHR ''='') part),
     url_decode (drop 1 (dropWhile (\<lambda>c. c \<noteq> CHR ''='') part)))"

definition query_params :: "string \<Rightarrow> (string \<times> string) list" where
  "query_params query = map query_param (split_on CHR ''&'' query)"

definition param_or_empty :: "(string \<times> string) list \<Rightarrow> string \<Rightarrow> string" where
  "param_or_empty ps key = (case map_of ps key of None \<Rightarrow> [] | Some v \<Rightarrow> v)"

lemma query_param_eq:
  "query_param part =
     (let eq = cxx_find ''='' part 0 in
      (url_decode (case eq of None \<Rightarrow> part | Some e \<Rightarrow> substr part 0 e),
       url_decode (case eq of None \<Rightarrow> [] | Some e \<Rightarrow> drop (e + 1) part)))"
proof (cases "search ''='' part")
  case None
  then have whole: "takeWhile (\<lambda>c. c \<noteq> CHR ''='') part = part" "dropWhile (\<lambda>c. c \<noteq> CHR ''='') part = []"
    unfolding search_char_None takeWhile_eq_all_conv dropWhile_eq_Nil_conv by auto
  show ?thesis using None by (simp add: query_param_def cxx_find_0 whole)
next
  case (Some i)
  then obtain a b where ab: "part = a @ CHR ''='' # b" "length a = i" "CHR ''='' \<notin> set a"
    by (rule search_char_split)
  then have "takeWhile (\<lambda>c. c \<noteq> CHR ''='') part = a" "dropWhile (\<lambda>c. c \<noteq> CHR ''='') part = CHR ''='' # b"
    by (auto simp: takeWhile_append dropWhile_append)
  with Some ab show ?thesis by (simp add: query_param_def cxx_find_0 substr_def)
qed

lemma url_decode_Nil_param: "query_param [] = ([], [])"
  by (simp add: query_param_def)

lemma query_loop_step:
  "query_loop query key pos =
     (if pos < length query then
        (let amp = cxx_find ''&'' query pos;
             part = (case amp of None \<Rightarrow> drop pos query | Some a \<Rightarrow> substr query pos (a - pos))
         in if fst (query_param part) = key then snd (query_param part)
            else case amp of None \<Rightarrow> [] | Some a \<Rightarrow> query_loop query key (a + 1))
      else [])"
  by (subst query_loop.simps) (simp add: query_param_eq Let_def)

lemma query_loop_spec:
  "key \<noteq> [] \<Longrightarrow> query_loop query key pos = param_or_empty (query_params (drop pos query)) key"
proof (induction query key pos rule: query_loop.induct)
  case (1 query key pos)
  show ?case
  proof (cases "pos < length query")
    case False
    then show ?thesis
      using "1.prems" by (simp add: query_loop_step [of query key pos] query_params_def param_or_empty_def url_decode_Nil_param)
  next
    case pos: True
    show ?thesis
    proof (cases "search ''&'' (drop pos query)")
      case None
      then have "query_params (drop pos query) = [query_param (drop pos query)]"
        by (simp add: query_params_def split_on_whole search_char_None)
      with None pos show ?thesis
        by (auto simp add: query_loop_step [of query key pos] cxx_find_def [of "''&''"] param_or_empty_def
            Let_def)
    next
      case (Some i)
      then obtain a b where ab: "drop pos query = a @ CHR ''&'' # b" "length a = i" "CHR ''&'' \<notin> set a"
        by (rule search_char_split)
      then have b: "drop (Suc (pos + i)) query = b"
        by (metis add.commute add_Suc_right append_eq_conv_conj drop_Suc_Cons drop_drop
            append_Cons append_Nil length_append_singleton append_assoc)
      have amp: "cxx_find ''&'' query pos = Some (pos + i)"
        using Some pos by (simp add: cxx_find_def)
      have part: "substr query pos i = a"
        using ab by (simp add: substr_def)
      have "query_params (drop pos query) = query_param a # query_params b"
        using ab by (simp add: query_params_def split_on_first)
      moreover have "query_loop query key (pos + i + 1) = param_or_empty (query_params b) key"
        if "fst (query_param a) \<noteq> key"
        using "1.IH" [OF pos refl refl refl refl refl, of "pos + i"] that "1.prems" amp part b
        by (simp add: query_param_eq Let_def cong: option.case_cong)
      ultimately show ?thesis
        using pos amp part
        by (auto simp add: query_loop_step [of query key pos] param_or_empty_def Let_def)
    qed
  qed
qed

text \<open>C28: the relay's query parser returns the decoded value of the first parameter of that name, and
  the empty string when there is none or no query.\<close>

theorem get_query_value_spec:
  assumes "key \<noteq> []"
  shows "get_query_value target key =
     param_or_empty (query_params (drop 1 (dropWhile (\<lambda>c. c \<noteq> CHR ''?'') target))) key"
proof (cases "search ''?'' target")
  case None
  then have none: "dropWhile (\<lambda>c. c \<noteq> CHR ''?'') target = []"
    unfolding search_char_None dropWhile_eq_Nil_conv by auto
  show ?thesis
    using None assms by (simp add: none get_query_value_def cxx_find_0 query_params_def url_decode_Nil_param param_or_empty_def)
next
  case (Some i)
  then obtain a b where ab: "target = a @ CHR ''?'' # b" "length a = i" "CHR ''?'' \<notin> set a"
    by (rule search_char_split)
  then have "dropWhile (\<lambda>c. c \<noteq> CHR ''?'') target = CHR ''?'' # b"
    by (auto simp: dropWhile_append)
  with Some ab assms show ?thesis
    by (simp add: get_query_value_def cxx_find_0 query_loop_spec)
qed

section \<open>From the command line to the relay\<close>

definition ws_scheme :: "string \<Rightarrow> string" where
  "ws_scheme s = (if s = ''http'' then ''ws'' else if s = ''https'' then ''wss'' else s)"

definition relay_schemes :: "string set" where
  "relay_schemes = {''http'', ''https'', ''ws'', ''wss''}"

lemma scheme_chars: "s \<in> relay_schemes \<Longrightarrow> CHR '':'' \<notin> set s \<and> CHR ''/'' \<notin> set s \<and> CHR ''?'' \<notin> set s"
  by (auto simp: relay_schemes_def)

lemma ws_scheme_relay: "s \<in> relay_schemes \<Longrightarrow> ws_scheme s \<in> relay_schemes"
  by (auto simp: relay_schemes_def ws_scheme_def)

lemma replace_scheme:
  "s \<in> relay_schemes \<Longrightarrow>
     (if starts_with ''http://'' (s @ ''://'' @ h) then ''ws'' @ drop 4 (s @ ''://'' @ h)
      else if starts_with ''https://'' (s @ ''://'' @ h) then ''wss'' @ drop 5 (s @ ''://'' @ h)
      else s @ ''://'' @ h) = ws_scheme s @ ''://'' @ h"
proof -
  assume "s \<in> relay_schemes"
  then consider "s = ''http''" | "s = ''https''" | "s = ''ws''" | "s = ''wss''"
    by (auto simp: relay_schemes_def)
  then show ?thesis
    by cases (simp_all add: ws_scheme_def starts_with_def)
qed

lemma find_scheme: "CHR '':'' \<notin> set s \<Longrightarrow> cxx_find ''://'' (s @ ''://'' @ h) 0 = Some (length s)"
  using search_found [of "''://''" s h] by (simp add: cxx_find_0)

lemma find_past_scheme:
  "CHR '':'' \<notin> set s \<Longrightarrow> cxx_find p (s @ ''://'' @ h) (past 3 (cxx_find ''://'' (s @ ''://'' @ h) 0)) =
     map_option ((+) (length s + 3)) (search p h)"
  using find_scheme [of s h] cxx_find_skip [of "length s + 3" "s @ ''://''" p h]
  by (simp add: past_def)

lemma ws_join_plain:
  assumes s: "s \<in> relay_schemes" and h: "CHR ''/'' \<notin> set h" "CHR ''?'' \<notin> set h"
  shows "ws_join (s @ ''://'' @ h) room = ws_scheme s @ ''://'' @ h @ ''/ws?room='' @ room"
proof -
  let ?w = "ws_scheme s"
  have w: "CHR '':'' \<notin> set ?w" "CHR ''?'' \<notin> set ?w"
    using scheme_chars [OF ws_scheme_relay [OF s]] by auto
  have slash: "search ''/'' h = None" using h by (simp add: search_char_None)
  have ws: "search ''/ws'' (h @ ''/ws'') = Some (length h)"
    using search_found [of "''/ws''" h "[]"] h by simp
  have q: "search ''?'' (?w @ ''://'' @ h @ ''/ws'') = None"
    using w h by (simp add: search_char_None)
  show ?thesis
    unfolding ws_join_def Let_def replace_scheme [OF s]
    using find_past_scheme [OF w(1), of "''/''" h] find_past_scheme [OF w(1), of "''/ws''" "h @ ''/ws''"]
      slash ws q
    by (simp add: cxx_find_0)
qed

text \<open>
  Beast writes the target into the request line and the relay's \<open>http::read\<close> parses it there: a target
  without spaces and control characters arrives as it was written. \<open>deliver\<close> is what the relay reads when
  a client asks for the upgrade with a given target.
\<close>

definition target_char :: "char \<Rightarrow> bool" where
  "target_char c \<longleftrightarrow> 33 \<le> (of_char c :: nat) \<and> (of_char c :: nat) \<noteq> 127"

definition beast_wire :: "(string \<Rightarrow> http_request) \<Rightarrow> bool" where
  "beast_wire deliver \<longleftrightarrow>
     (\<forall>t. list_all target_char t \<longrightarrow>
        deliver t = \<lparr>rq_is_get = True, rq_target = t, rq_upgrade = True,
       rq_accept_ok = True, rq_write_ok = True\<rparr>)"

text \<open>The request the relay sees when the CLI joins \<open>room\<close> through \<open>base\<close>.\<close>

definition cli_request :: "(string \<Rightarrow> http_request) \<Rightarrow> string \<Rightarrow> string \<Rightarrow> http_request" where
  "cli_request deliver base room =
     deliver (pu_target (snd (parse_ws_url (ws_join base room)
        \<lparr>pu_scheme = [], pu_host = [], pu_port = [], pu_target = []\<rparr>)))"

lemma beast_wire_run:
  "beast_wire deliver \<Longrightarrow> list_all target_char t \<Longrightarrow>
     deliver t = \<lparr>rq_is_get = True, rq_target = t, rq_upgrade = True,
       rq_accept_ok = True, rq_write_ok = True\<rparr>"
  by (simp add: beast_wire_def)

lemma parse_target:
  assumes "CHR '':'' \<notin> set s" and "CHR ''/'' \<notin> set h" and "t \<noteq> []"
  shows "pu_target (snd (parse_ws_url (s @ ''://'' @ h @ CHR ''/'' # t) out)) = CHR ''/'' # t"
    and "pu_scheme (snd (parse_ws_url (s @ ''://'' @ h @ CHR ''/'' # t) out)) = s"
proof -
  have slash: "search ''/'' (h @ CHR ''/'' # t) = Some (length h)"
    by (rule search_char_found) (rule assms(2))
  show "pu_target (snd (parse_ws_url (s @ ''://'' @ h @ CHR ''/'' # t) out)) = CHR ''/'' # t"
    and "pu_scheme (snd (parse_ws_url (s @ ''://'' @ h @ CHR ''/'' # t) out)) = s"
    using find_scheme [OF assms(1), of "h @ CHR ''/'' # t"] slash
    by (simp_all add: parse_ws_url_def cxx_find_0 substr_def Let_def split_def)
qed

lemma relay_room_of_query:
  "query_params (''room='' @ room) =
     (''room'', url_decode (takeWhile (\<lambda>c. c \<noteq> CHR ''&'') room)) #
     (if CHR ''&'' \<in> set room then query_params (drop 1 (dropWhile (\<lambda>c. c \<noteq> CHR ''&'') room)) else [])"
proof (cases "CHR ''&'' \<in> set room")
  case False
  then have tw: "takeWhile (\<lambda>c. c \<noteq> CHR ''&'') room = room"
    unfolding takeWhile_eq_all_conv by auto
  have "query_params (''room='' @ room) = [query_param (''room='' @ room)]"
    using False by (subst query_params_def, subst split_on_whole) simp_all
  then show ?thesis using False by (simp add: query_param_def tw)
next
  case True
  then obtain a b where ab: "room = a @ CHR ''&'' # b" "CHR ''&'' \<notin> set a" by (meson split_list_first)
  then have tw: "takeWhile (\<lambda>c. c \<noteq> CHR ''&'') room = a" "dropWhile (\<lambda>c. c \<noteq> CHR ''&'') room = CHR ''&'' # b"
    by (auto simp: takeWhile_append dropWhile_append)
  have "query_params (''room='' @ room) = query_param (''room='' @ a) # query_params b"
    using split_on_first [of "CHR ''&''" "''room='' @ a" b] ab by (simp add: query_params_def)
  then show ?thesis using True tw by (simp add: query_param_def)
qed

lemma ws_target_query:
  "dropWhile (\<lambda>c. c \<noteq> CHR ''?'') (''/ws?room='' @ room) = CHR ''?'' # ''room='' @ room"
  by simp

text \<open>Joining a room from the command line through \<open>scheme://host:port\<close> puts the client in the room
  whose name is the decoded part of the argument before its first \<open>&\<close> (or \<open>default\<close>): the CLI puts the
  argument into the URL as it is, and the relay decodes it.\<close>

theorem cli_room_at_relay:
  assumes "beast_wire deliver" and "s \<in> relay_schemes" and "CHR ''/'' \<notin> set h" and "CHR ''?'' \<notin> set h"
    and "list_all target_char room"
  shows "do_http (cli_request deliver (s @ ''://'' @ h) room) =
     JoinRoom (let r = url_decode (takeWhile (\<lambda>c. c \<noteq> CHR ''&'') room) in if r = [] then ''default'' else r)"
proof -
  have w: "CHR '':'' \<notin> set (ws_scheme s)"
    using scheme_chars [OF ws_scheme_relay [OF assms(2)]] by auto
  have "cli_request deliver (s @ ''://'' @ h) room = deliver (''/ws?room='' @ room)"
    using parse_target(1) [OF w assms(3), of "''ws?room='' @ room"] ws_join_plain [OF assms(2-4), of room]
    by (simp add: cli_request_def)
  moreover have "list_all target_char (''/ws?room='' @ room)"
    using assms(5) by (simp add: target_char_def)
  ultimately have req: "cli_request deliver (s @ ''://'' @ h) room =
      \<lparr>rq_is_get = True, rq_target = ''/ws?room='' @ room, rq_upgrade = True,
       rq_accept_ok = True, rq_write_ok = True\<rparr>"
    using beast_wire_run [OF assms(1)] by simp
  have "get_query_value (''/ws?room='' @ room) ''room'' =
      url_decode (takeWhile (\<lambda>c. c \<noteq> CHR ''&'') room)"
    unfolding get_query_value_spec [of "''room''", simplified] ws_target_query
    using relay_room_of_query [of room] by (simp add: param_or_empty_def)
  then show ?thesis
    using req by (simp add: do_http_def starts_with_def Let_def)
qed

text \<open>A name without \<open>%\<close>, \<open>+\<close> and \<open>&\<close> arrives as it is.\<close>

lemma url_decode_plain:
  "CHR ''%'' \<notin> set s \<Longrightarrow> CHR ''+'' \<notin> set s \<Longrightarrow> url_decode s = s"
  by (induction s) auto

definition plain_room :: "string \<Rightarrow> bool" where
  "plain_room r \<longleftrightarrow> r \<noteq> [] \<and> list_all (\<lambda>c. target_char c \<and> c \<notin> {CHR ''%'', CHR ''+'', CHR ''&''}) r"

text \<open>Room names of printable characters other than \<open>%\<close>, \<open>+\<close> and \<open>&\<close> are kept apart: the client
  joins the room of that name, so two such names reach the same room exactly when they are equal.\<close>

theorem plain_rooms_kept_apart:
  assumes "beast_wire deliver" and "s \<in> relay_schemes" and "CHR ''/'' \<notin> set h" and "CHR ''?'' \<notin> set h"
    and "plain_room r" and "plain_room r'"
  shows "do_http (cli_request deliver (s @ ''://'' @ h) r) = JoinRoom r \<and>
    (do_http (cli_request deliver (s @ ''://'' @ h) r) = do_http (cli_request deliver (s @ ''://'' @ h) r') \<longleftrightarrow>
       r = r')"
proof -
  have plain: "do_http (cli_request deliver (s @ ''://'' @ h) x) = JoinRoom x" if x: "plain_room x" for x
  proof -
    have tw: "takeWhile (\<lambda>c. c \<noteq> CHR ''&'') x = x"
      unfolding takeWhile_eq_all_conv using x by (auto simp: plain_room_def list_all_iff)
    have legal: "list_all target_char x" and decode: "url_decode x = x" and "x \<noteq> []"
      using x by (auto simp: plain_room_def list_all_iff intro!: url_decode_plain)
    then show ?thesis
      using cli_room_at_relay [OF assms(1-4) legal] by (simp add: tw)
  qed
  show ?thesis using plain [OF assms(5)] plain [OF assms(6)] by simp
qed

text \<open>Without that restriction they are not: everything after an \<open>&\<close> is ignored, so different names
  on the command line put their users into one room.\<close>

theorem room_names_collide:
  assumes "beast_wire deliver" and "s \<in> relay_schemes" and "CHR ''/'' \<notin> set h" and "CHR ''?'' \<notin> set h"
    and "list_all target_char (room @ x)"
  shows "do_http (cli_request deliver (s @ ''://'' @ h) (room @ ''&'' @ x)) =
    do_http (cli_request deliver (s @ ''://'' @ h) room)"
proof -
  have "takeWhile (\<lambda>c. c \<noteq> CHR ''&'') (room @ ''&'' @ x) = takeWhile (\<lambda>c. c \<noteq> CHR ''&'') room"
    by (induction room) auto
  moreover have "list_all target_char (room @ ''&'' @ x)" "list_all target_char room"
    using assms(5) by (simp_all add: target_char_def)
  ultimately show ?thesis
    by (simp only: cli_room_at_relay [OF assms(1-4)])
qed

text \<open>A relay URL with a trailing slash is not completed with \<open>/ws\<close>, and the relay refuses the
  request, whatever the room.\<close>

theorem trailing_slash_refused:
  assumes "beast_wire deliver" and "s \<in> relay_schemes" and "CHR ''/'' \<notin> set h" and "CHR ''?'' \<notin> set h"
    and "list_all target_char room"
  shows "do_http (cli_request deliver (s @ ''://'' @ h @ ''/'') room) = BadRequest"
proof -
  let ?w = "ws_scheme s"
  have w: "CHR '':'' \<notin> set ?w" "CHR ''?'' \<notin> set ?w"
    using scheme_chars [OF ws_scheme_relay [OF assms(2)]] by auto
  have slash: "search ''/'' (h @ ''/'') = Some (length h)"
    using search_char_found [OF assms(3), of "[]"] by simp
  have "search ''/ws'' ''/'' = None"
    by (simp add: search.simps)
  then have ws: "search ''/ws'' (h @ ''/'') = None"
    using search_skip [of "''/ws''" h "''/''"] assms(3) by simp
  have q: "search ''?'' (?w @ ''://'' @ h @ ''/'') = None"
    using w assms(4) by (simp add: search_char_None)
  have "ws_join (s @ ''://'' @ h @ ''/'') room = ?w @ ''://'' @ h @ ''/?room='' @ room"
    unfolding ws_join_def Let_def replace_scheme [OF assms(2)]
    using find_past_scheme [OF w(1), of "''/''" "h @ ''/''"] find_past_scheme [OF w(1), of "''/ws''" "h @ ''/''"]
      slash ws q
    by (simp add: cxx_find_0)
  then have "cli_request deliver (s @ ''://'' @ h @ ''/'') room = deliver (''/?room='' @ room)"
    using parse_target(1) [OF w(1) assms(3), of "''?room='' @ room"] by (simp add: cli_request_def)
  moreover have "list_all target_char (''/?room='' @ room)"
    using assms(5) by (simp add: target_char_def)
  ultimately show ?thesis
    using beast_wire_run [OF assms(1)] by (simp add: do_http_def http_write_def starts_with_def)
qed

end
