(* ===== verification/Steps.thy ===== *)
theory Steps
  imports Main
begin

text \<open>
  What the concurrent components share: finite runs of a labelled step relation, invariants of
  runs, and simulations of one step relation by another, as locales that a component interprets on
  its own relations.
\<close>

section \<open>Runs\<close>

inductive run :: "('s \<Rightarrow> 'a \<Rightarrow> 's \<Rightarrow> bool) \<Rightarrow> 's \<Rightarrow> 'a list \<Rightarrow> 's \<Rightarrow> bool" for step where
  run_Nil [intro]: "run step s [] s"
| run_Cons [intro]: "step s a s1 \<Longrightarrow> run step s1 as s' \<Longrightarrow> run step s (a # as) s'"

inductive_simps run_Nil_simp [simp]: "run step s [] s'"
inductive_simps run_Cons_simp: "run step s (a # as) s'"

lemma run_append:
  "run step s as s1 \<Longrightarrow> run step s1 bs s' \<Longrightarrow> run step s (as @ bs) s'"
  by (induction rule: run.induct) auto

lemma run_snoc: "run step s as s1 \<Longrightarrow> step s1 a s' \<Longrightarrow> run step s (as @ [a]) s'"
  by (rule run_append) auto

lemma run_split:
  "run step s (as @ bs) s' \<longleftrightarrow> (\<exists>s1. run step s as s1 \<and> run step s1 bs s')"
  by (induction as arbitrary: s) (auto simp: run_Cons_simp)

section \<open>Invariants\<close>

locale step_invariant =
  fixes step :: "'s \<Rightarrow> 'a \<Rightarrow> 's \<Rightarrow> bool"
    and init :: 's
    and inv :: "'s \<Rightarrow> bool"
  assumes init_inv: "inv init"
    and step_inv: "inv s \<Longrightarrow> step s a s' \<Longrightarrow> inv s'"
begin

lemma run_inv: "run step s as s' \<Longrightarrow> inv s \<Longrightarrow> inv s'"
  by (induction rule: run.induct) (auto intro: step_inv)

lemma reach_inv: "run step init as s \<Longrightarrow> inv s"
  using run_inv init_inv by blast

end

section \<open>Simulations\<close>

locale step_simulation = step_invariant +
  fixes astep :: "'t \<Rightarrow> 'a \<Rightarrow> 't \<Rightarrow> bool"
    and abs :: "'s \<Rightarrow> 't"
  assumes sim: "inv s \<Longrightarrow> step s a s' \<Longrightarrow> astep (abs s) a (abs s')"
begin

lemma run_sim: "run step s as s' \<Longrightarrow> inv s \<Longrightarrow> run astep (abs s) as (abs s')"
  by (induction rule: run.induct) (auto intro: sim step_inv)

lemma reach_sim: "run step init as s \<Longrightarrow> run astep (abs init) as (abs s)"
  using run_sim init_inv by blast

end

end
