(* ===== verification/Beast.thy ===== *)
theory Beast
  imports Transport Ws_Url Steps
begin

text \<open>
  \<^verbatim>\<open>beast_ws_transport.cpp\<close>: the WebSocket client of the command line program, with its two owning
  pointers, the exceptions its calls may throw and the null dereferences they may run into.
\<close>

section \<open>Boost.Beast as a parameter\<close>

text \<open>
  \<open>'w\<close> is the network, \<open>'k\<close> a stream object, \<open>'ep\<close> a list of resolved endpoints. \<open>None\<close> and \<open>False\<close> of
  the calls that connect stand for a thrown \<open>boost::system::system_error\<close>; \<open>False\<close> and \<open>None\<close> of \<open>bw_write\<close>
  and \<open>bw_read\<close> for an error code.
\<close>

record ('w, 'k, 'ep) beast =
  bw_resolve :: "string \<Rightarrow> string \<Rightarrow> 'w \<Rightarrow> 'ep option \<times> 'w"
  bw_new_wss :: "'w \<Rightarrow> 'k \<times> 'w"
  bw_new_ws :: "'w \<Rightarrow> 'k \<times> 'w"
  bw_connect :: "'k \<Rightarrow> 'ep \<Rightarrow> 'w \<Rightarrow> bool \<times> 'w"
  bw_tls :: "'k \<Rightarrow> 'w \<Rightarrow> bool \<times> 'w"
  bw_handshake :: "'k \<Rightarrow> string \<Rightarrow> string \<Rightarrow> 'w \<Rightarrow> bool \<times> 'w"
  bw_write :: "'k \<Rightarrow> bytes \<Rightarrow> 'w \<Rightarrow> bool \<times> 'w"
  bw_read :: "'k \<Rightarrow> 'w \<Rightarrow> bytes option await \<times> 'w"
  bw_close :: "'k \<Rightarrow> 'w \<Rightarrow> 'w"

text \<open>How a call ends.\<close>

datatype 'a call = Returns 'a | Throws | NullDeref | Waits

section \<open>The members of \<open>Impl\<close>\<close>

record ('w, 'k) impl =
  im_wss :: "'k option"
  im_ws :: "'k option"
  im_u :: parsed_url
  im_open :: bool
  im_net :: 'w

definition impl_new :: "'w \<Rightarrow> ('w, 'k) impl" where
  "impl_new w = \<lparr>im_wss = None, im_ws = None,
     im_u = \<lparr>pu_scheme = [], pu_host = [], pu_port = [], pu_target = []\<rparr>, im_open = False, im_net = w\<rparr>"

text \<open>A throwing call on the network, inside a function that does not catch.\<close>

definition or_throw ::
  "('w \<Rightarrow> bool \<times> 'w) \<Rightarrow> (('w, 'k) impl \<Rightarrow> 'a call \<times> ('w, 'k) impl) \<Rightarrow> ('w, 'k) impl \<Rightarrow> 'a call \<times> ('w, 'k) impl" where
  "or_throw f k im =
     (case f (im_net im) of (ok, w) \<Rightarrow> if ok then k (im\<lparr>im_net := w\<rparr>) else (Throws, im\<lparr>im_net := w\<rparr>))"

definition beast_connect ::
  "('w, 'k, 'ep) beast \<Rightarrow> string \<Rightarrow> ('w, 'k) impl \<Rightarrow> bool call \<times> ('w, 'k) impl" where
  "beast_connect B url im =
     (case parse_ws_url url (im_u im) of
        (False, u) \<Rightarrow> (Returns False, im\<lparr>im_u := u\<rparr>)
      | (True, u) \<Rightarrow>
         (let im = im\<lparr>im_u := u\<rparr> in
          case bw_resolve B (pu_host u) (pu_port u) (im_net im) of
            (None, w) \<Rightarrow> (Throws, im\<lparr>im_net := w\<rparr>)
          | (Some results, w) \<Rightarrow>
              if pu_scheme u = ''wss'' then
                (case bw_new_wss B w of (k, w) \<Rightarrow>
                   or_throw (bw_connect B k results)
                    (or_throw (bw_tls B k)
                     (or_throw (bw_handshake B k (pu_host u) (pu_target u))
                      (\<lambda>im. (Returns True, im\<lparr>im_open := True\<rparr>)))) (im\<lparr>im_wss := Some k, im_net := w\<rparr>))
              else
                (case bw_new_ws B w of (k, w) \<Rightarrow>
                   or_throw (bw_connect B k results)
                    (or_throw (bw_handshake B k (pu_host u) (pu_target u))
                     (\<lambda>im. (Returns True, im\<lparr>im_open := True\<rparr>))) (im\<lparr>im_ws := Some k, im_net := w\<rparr>))))"

text \<open>The stream \<open>send\<close> and \<open>recv\<close> use: \<open>wss\<close> when it is set, \<open>*ws\<close> otherwise.\<close>

definition current_stream :: "('w, 'k) impl \<Rightarrow> 'k option" where
  "current_stream im = (case im_wss im of Some k \<Rightarrow> Some k | None \<Rightarrow> im_ws im)"

definition beast_send ::
  "('w, 'k, 'ep) beast \<Rightarrow> bytes \<Rightarrow> ('w, 'k) impl \<Rightarrow> bool call \<times> ('w, 'k) impl" where
  "beast_send B data im =
     (if \<not> im_open im then (Returns False, im)
      else case current_stream im of
        None \<Rightarrow> (NullDeref, im)
      | Some k \<Rightarrow> (case bw_write B k data (im_net im) of (ok, w) \<Rightarrow> (Returns ok, im\<lparr>im_net := w\<rparr>)))"

definition beast_recv ::
  "('w, 'k, 'ep) beast \<Rightarrow> ('w, 'k) impl \<Rightarrow> bytes option call \<times> ('w, 'k) impl" where
  "beast_recv B im =
     (if \<not> im_open im then (Returns None, im)
      else case current_stream im of
        None \<Rightarrow> (NullDeref, im)
      | Some k \<Rightarrow> (case bw_read B k (im_net im) of
            (Blocked, _) \<Rightarrow> (Waits, im)
          | (Ret r, w) \<Rightarrow> (Returns r, im\<lparr>im_net := w\<rparr>)))"

definition beast_close ::
  "('w, 'k, 'ep) beast \<Rightarrow> ('w, 'k) impl \<Rightarrow> ('w, 'k) impl" where
  "beast_close B im =
     (if \<not> im_open im then im
      else (let im = (case im_wss im of
                Some k \<Rightarrow> im\<lparr>im_net := bw_close B k (im_net im)\<rparr>
              | None \<Rightarrow> (case im_ws im of
                    Some k \<Rightarrow> im\<lparr>im_net := bw_close B k (im_net im)\<rparr>
                  | None \<Rightarrow> im))
            in im\<lparr>im_open := False\<rparr>))"

section \<open>Using the object\<close>

datatype beast_act = Connect string | Send bytes | Recv | Close

text \<open>One call on the object; a caller may catch what \<open>connect_url\<close> throws and go on.\<close>

fun beast_call ::
  "('w, 'k, 'ep) beast \<Rightarrow> beast_act \<Rightarrow> ('w, 'k) impl \<Rightarrow> unit call \<times> ('w, 'k) impl" where
  "beast_call B (Connect url) im = (case beast_connect B url im of (r, im) \<Rightarrow> (map_call (\<lambda>_. ()) r, im))"
| "beast_call B (Send data) im = (case beast_send B data im of (r, im) \<Rightarrow> (map_call (\<lambda>_. ()) r, im))"
| "beast_call B Recv im = (case beast_recv B im of (r, im) \<Rightarrow> (map_call (\<lambda>_. ()) r, im))"
| "beast_call B Close im = (Returns (), beast_close B im)"

definition beast_step :: "('w, 'k, 'ep) beast \<Rightarrow> ('w, 'k) impl \<Rightarrow> beast_act \<Rightarrow> ('w, 'k) impl \<Rightarrow> bool" where
  "beast_step B im a im' \<longleftrightarrow> snd (beast_call B a im) = im'"

definition open_ok :: "('w, 'k) impl \<Rightarrow> bool" where
  "open_ok im \<longleftrightarrow> (im_open im \<longrightarrow> current_stream im \<noteq> None)"

lemma or_throw_cases:
  "(fst (or_throw f k im) = Throws \<and> snd (or_throw f k im) = im\<lparr>im_net := snd (f (im_net im))\<rparr> \<and> \<not> fst (f (im_net im))) \<or>
   (or_throw f k im = k (im\<lparr>im_net := snd (f (im_net im))\<rparr>) \<and> fst (f (im_net im)))"
  by (simp add: or_throw_def split: prod.split)

text \<open>A thrown error leaves the pointers and \<open>open\<close> as they were set when it was thrown.\<close>

lemma or_throw_keeps:
  assumes "\<And>w. P (im\<lparr>im_net := w\<rparr>)" and "\<And>w. P (snd (k (im\<lparr>im_net := w\<rparr>)))"
  shows "P (snd (or_throw f k im))"
  using assms by (auto simp: or_throw_def split: prod.split)

lemma open_ok_connect:
  assumes "open_ok im"
  shows "open_ok (snd (beast_connect B url im))"
  using assms
  by (auto simp: beast_connect_def open_ok_def current_stream_def Let_def or_throw_def
      split: prod.splits option.splits bool.splits)

lemma open_ok_call: "open_ok im \<Longrightarrow> open_ok (snd (beast_call B a im))"
proof (cases a)
  case (Connect url)
  assume "open_ok im"
  from open_ok_connect [OF this, of B url] Connect show ?thesis
    by (cases "beast_connect B url im") simp
qed (auto simp: beast_send_def beast_recv_def beast_close_def open_ok_def current_stream_def Let_def
      split: prod.splits option.splits await.splits)

interpretation beast_object: step_invariant "beast_step B" "impl_new w" open_ok
proof
  show "open_ok (impl_new w)" by (simp add: open_ok_def impl_new_def)
  show "open_ok im \<Longrightarrow> beast_step B im a im' \<Longrightarrow> open_ok im'" for im a im'
    unfolding beast_step_def using open_ok_call by blast
qed

text \<open>However the calls on a BeastWebSocketTransport follow one another, failed connects included, none of
  them dereferences a null stream.\<close>

theorem beast_never_null:
  assumes "run (beast_step B) (impl_new w) acts im"
  shows "fst (beast_call B a im) \<noteq> NullDeref"
proof -
  have "open_ok im" by (rule beast_object.reach_inv [OF assms])
  then show ?thesis
    by (cases a)
      (auto simp: beast_connect_def beast_send_def beast_recv_def open_ok_def Let_def or_throw_def
        split: prod.splits option.splits await.splits bool.splits)
qed

text \<open>\<open>connect_url\<close> returns false exactly for a URL that does not parse; when the name does not resolve, the
  host cannot be reached or one of the handshakes fails it throws, and \<open>main\<close> does not catch.\<close>

theorem connect_false_iff_malformed:
  "fst (beast_connect B url im) = Returns False \<longleftrightarrow> \<not> fst (parse_ws_url url (im_u im))"
  by (auto simp: beast_connect_def Let_def or_throw_def split: prod.splits option.splits bool.splits)

text \<open>An object that once made a \<open>wss\<close> stream never uses a later plain one: after it is connected again
  with a \<open>ws\<close> URL its frames still go to the old stream.\<close>

theorem reconnect_keeps_old_stream:
  assumes "im_wss im = Some k" and "fst (beast_connect B url im) = Returns True"
    and "pu_scheme (snd (parse_ws_url url (im_u im))) \<noteq> ''wss''"
  shows "beast_send B data (snd (beast_connect B url im)) =
    (let im' = snd (beast_connect B url im); r = bw_write B k data (im_net im')
     in (Returns (fst r), im'\<lparr>im_net := snd r\<rparr>)) \<and>
    im_ws (snd (beast_connect B url im)) \<noteq> None"
proof -
  let ?im' = "snd (beast_connect B url im)"
  have "im_open ?im'" "im_wss ?im' = Some k" "im_ws ?im' \<noteq> None"
    using assms
    by (auto simp: beast_connect_def Let_def or_throw_def split: prod.splits option.splits bool.splits if_splits)
  then show ?thesis
    by (simp add: beast_send_def current_stream_def Let_def split_def)
qed

end
