(* ===== verification/Net_Witnesses.thy ===== *)
theory Net_Witnesses
  imports Transport Ws_Url Beast
begin

text \<open>
  Concrete instances for the properties of the transports and of the relay's URLs: a byte pipe that
  satisfies the contract of the socket, and a wire that delivers every request target.
\<close>

section \<open>A byte pipe\<close>

definition pipe_asio :: "(bytes, unit) asio" where
  "pipe_asio = \<lparr>asio_resolve = (\<lambda>_ _ s. (Some (), s)), asio_connect = (\<lambda>_ s. (True, s)),
     asio_listen = (\<lambda>_ s. (True, s)), asio_accept = (\<lambda>s. (True, s)),
     asio_write = (\<lambda>b s. (True, s @ b)),
     asio_read = (\<lambda>n s. if n \<le> length s then (Ret (Some (take n s)), drop n s) else (Blocked, s)),
     asio_shutdown = (\<lambda>s. s), asio_close = (\<lambda>s. s)\<rparr>"

lemma pipe_asio_contract: "asio_contract pipe_asio (\<lambda>s. s) (\<lambda>_. True)"
  by (simp add: asio_contract_def pipe_asio_def)

lemma tcp_frames_in_order_witness:
  "fst (send_frames (tcp_send pipe_asio) [[1, 2], []] (tcp_encode [7])) \<and>
   fst (recv_frames (tcp_recv pipe_asio) (length [[7 :: byte]] + length [[1, 2], [] :: bytes])
     (snd (send_frames (tcp_send pipe_asio) [[1, 2], []] (tcp_encode [7])))) = [[7]] @ [[1, 2], []]"
  by (rule tcp_frames_in_order [OF pipe_asio_contract]) simp_all

lemma tcp_frame_of_any_size_witness:
  "fst (tcp_recv pipe_asio (snd (tcp_send pipe_asio [1, 2, 3] []))) = Ret (Some [1, 2, 3])"
  using tcp_frame_of_any_size [OF pipe_asio_contract, of "[]" "[1, 2, 3]"] by simp

lemma queues_in_order_witness:
  "fst (recv_frames recv_from (length [[1], [2, 3 :: byte]])
     (snd (send_frames send_to [[1], [2, 3]] \<lparr>ch_q = [], ch_closed = False\<rparr>))) = [[1], [2, 3]]"
  by (rule conjunct1 [OF queues_in_order
      [where w = "\<lparr>ws_connected = True, ws_closed = False, ws_inbox = [], ws_socket = ()\<rparr>"]]) simp_all

section \<open>Room names\<close>

definition plain_wire :: "string \<Rightarrow> http_request" where
  "plain_wire t = \<lparr>rq_is_get = True, rq_target = t, rq_upgrade = True, rq_accept_ok = True,
     rq_write_ok = True\<rparr>"

lemma plain_wire_ok: "beast_wire plain_wire"
  by (simp add: beast_wire_def plain_wire_def)

lemma http_relay: "''http'' \<in> relay_schemes" "CHR ''/'' \<notin> set ''127.0.0.1:8080''"
  "CHR ''?'' \<notin> set ''127.0.0.1:8080''"
  by (simp_all add: relay_schemes_def)

lemma get_query_value_spec_witness:
  "get_query_value ''/ws?user=a&room=b'' ''room'' = param_or_empty (query_params ''user=a&room=b'') ''room''"
  using get_query_value_spec [of "''room''" "''/ws?user=a&room=b''"] by simp

lemma cli_room_at_relay_witness:
  "do_http (cli_request plain_wire (''http'' @ ''://'' @ ''127.0.0.1:8080'') ''al%20ice&x'') =
     JoinRoom (''al'' @ [char_of (32 :: nat)] @ ''ice'')"
  using cli_room_at_relay [OF plain_wire_ok http_relay, of "''al%20ice&x''"]
  by (simp add: target_char_def char_of_u32_def read_hex_def hex_digit_def is_space_def)

lemma plain_rooms_kept_apart_witness:
  "do_http (cli_request plain_wire (''http'' @ ''://'' @ ''127.0.0.1:8080'') ''alice'') \<noteq>
   do_http (cli_request plain_wire (''http'' @ ''://'' @ ''127.0.0.1:8080'') ''bob'')"
  using plain_rooms_kept_apart [OF plain_wire_ok http_relay, of "''alice''" "''bob''"]
  by (force simp: plain_room_def target_char_def)

lemma room_names_collide_witness:
  "do_http (cli_request plain_wire (''http'' @ ''://'' @ ''127.0.0.1:8080'') (''alice'' @ ''&'' @ ''x'')) =
   do_http (cli_request plain_wire (''http'' @ ''://'' @ ''127.0.0.1:8080'') ''alice'')"
  using room_names_collide [OF plain_wire_ok http_relay, of "''alice''" "''x''"]
  by (simp add: target_char_def)

lemma trailing_slash_refused_witness:
  "do_http (cli_request plain_wire (''http'' @ ''://'' @ ''127.0.0.1:8080'' @ ''/'') ''alice'') = BadRequest"
  using trailing_slash_refused [OF plain_wire_ok http_relay, of "''alice''"]
  by (simp add: target_char_def)

section \<open>A Beast that accepts everything\<close>

text \<open>The network logs which stream each frame was written to.\<close>

definition log_beast :: "((nat \<times> bytes) list, nat, unit) beast" where
  "log_beast = \<lparr>bw_resolve = (\<lambda>_ _ w. (Some (), w)), bw_new_wss = (\<lambda>w. (5, w)), bw_new_ws = (\<lambda>w. (2, w)),
     bw_connect = (\<lambda>_ _ w. (True, w)), bw_tls = (\<lambda>_ w. (True, w)), bw_handshake = (\<lambda>_ _ _ w. (True, w)),
     bw_write = (\<lambda>k b w. (True, w @ [(k, b)])), bw_read = (\<lambda>_ w. (Blocked, w)), bw_close = (\<lambda>_ w. w)\<rparr>"

lemma beast_never_null_witness:
  "fst (beast_call log_beast (Send [1]) (snd (beast_call log_beast (Connect ''ws://h'') (impl_new [])))) \<noteq> NullDeref"
  by (rule beast_never_null [of log_beast "[]" "[Connect ''ws://h'']"]) (auto simp: beast_step_def)

lemma reconnect_keeps_old_stream_witness:
  "im_net (snd (beast_send log_beast [7]
     (snd (beast_connect log_beast ''ws://h'' ((impl_new [])\<lparr>im_wss := Some 5\<rparr>))))) = [(5, [7])]"
proof -
  let ?im = "(impl_new [])\<lparr>im_wss := Some 5\<rparr> :: ((nat \<times> bytes) list, nat) impl"
  have parse: "parse_ws_url ''ws://h'' u = (True, \<lparr>pu_scheme = ''ws'', pu_host = ''h'', pu_port = ''80'', pu_target = ''/''\<rparr>)" for u
    by (simp add: parse_ws_url_def cxx_find_def cxx_rfind_def substr_def search.simps Let_def)
  have connect: "beast_connect log_beast ''ws://h'' ?im = (Returns True, ?im\<lparr>im_u :=
      \<lparr>pu_scheme = ''ws'', pu_host = ''h'', pu_port = ''80'', pu_target = ''/''\<rparr>, im_ws := Some 2, im_open := True\<rparr>)"
    by (simp add: beast_connect_def parse log_beast_def or_throw_def impl_new_def)
  show ?thesis
    using reconnect_keeps_old_stream [of ?im 5 log_beast "''ws://h''" "[7]"]
    by (simp add: parse connect) (simp add: log_beast_def impl_new_def)
qed

end
