(* ===== verification/Relay.thy ===== *)
theory Relay
  imports Ws_Url Steps "HOL-Library.Sublist"
begin

text \<open>
  The relay process of \<^verbatim>\<open>relay_server.cpp\<close>: the table \<open>g_rooms\<close>, one thread per WebSocket session that
  runs \<open>WsSession::do_run\<close>, and the threads of \<open>do_http\<close> that start them. Threads interleave between
  the critical sections of \<open>g_rooms_mtx\<close> and between the start and the end of a write.
\<close>

section \<open>The state of the process\<close>

text \<open>
  Where the thread of a session is: started and not yet in its room; in \<open>ws.read\<close>; with a frame read and
  the lock not yet taken; in the loop over \<open>peers\<close> before, and during, the write number \<open>n\<close>; after the
  loop; returned.
\<close>

datatype phase =
    Starting
  | Reading
  | Got bytes
  | Sending bytes "nat list" nat
  | Writing bytes "nat list" nat
  | Leaving
  | Gone

text \<open>
  \<open>ss_in\<close> records the frames a session's thread has read, \<open>ss_out\<close> the frames that were written to its
  socket without an error and whose they were. A session is its index in \<open>sessions\<close>.
\<close>

record session =
  ss_room :: string
  ss_phase :: phase
  ss_in :: "bytes list"
  ss_out :: "(nat \<times> bytes) list"

record relay =
  g_rooms :: "string \<Rightarrow> nat list option"
  sessions :: "session list"
  stopped :: bool

definition relay_init :: relay where
  "relay_init = \<lparr>g_rooms = (\<lambda>_. None), sessions = [], stopped = False\<rparr>"

abbreviation room_of :: "relay \<Rightarrow> nat \<Rightarrow> string" where
  "room_of r i \<equiv> ss_room (sessions r ! i)"

abbreviation phase_at :: "relay \<Rightarrow> nat \<Rightarrow> phase" where
  "phase_at r i \<equiv> ss_phase (sessions r ! i)"

definition phase_of :: "relay \<Rightarrow> nat \<Rightarrow> phase option" where
  "phase_of r i = (if i < length (sessions r) then Some (phase_at r i) else None)"

section \<open>Weak pointers\<close>

text \<open>
  A session object lives as long as its own thread (the lambda holds a \<open>shared_ptr\<close>) or as the vector
  \<open>peers\<close> of some thread that holds it, which lives until the end of the round.
\<close>

fun peers_of :: "phase \<Rightarrow> nat list" where
  "peers_of (Sending f ps n) = ps"
| "peers_of (Writing f ps n) = ps"
| "peers_of _ = []"

definition expired :: "relay \<Rightarrow> nat \<Rightarrow> bool" where
  "expired r w \<longleftrightarrow>
     list_all (\<lambda>i. \<not> (i = w \<and> phase_at r i \<noteq> Gone) \<and> w \<notin> set (peers_of (phase_at r i)))
       [0..<length (sessions r)]"

section \<open>The critical sections of a session's thread\<close>

definition do_run_join :: "relay \<Rightarrow> nat \<Rightarrow> relay" where
  "do_run_join r i =
     (let room = room_of r i;
          vec = (case g_rooms r room of None \<Rightarrow> [] | Some vec \<Rightarrow> vec);
          vec = filter (\<lambda>w. \<not> expired r w) vec
      in r\<lparr>g_rooms := (g_rooms r)(room \<mapsto> vec @ [i])\<rparr>)"

definition do_run_peers :: "relay \<Rightarrow> nat \<Rightarrow> nat list \<times> relay" where
  "do_run_peers r i =
     (let room = room_of r i in
      case g_rooms r room of
        None \<Rightarrow> ([], r)
      | Some vec \<Rightarrow>
          (filter (\<lambda>w. \<not> expired r w \<and> w \<noteq> i) vec,
           r\<lparr>g_rooms := (g_rooms r)(room \<mapsto> filter (\<lambda>w. \<not> expired r w) vec)\<rparr>))"

definition do_run_leave :: "relay \<Rightarrow> nat \<Rightarrow> relay" where
  "do_run_leave r i =
     (let room = room_of r i in
      case g_rooms r room of
        None \<Rightarrow> r
      | Some vec \<Rightarrow>
          (let vec = filter (\<lambda>w. \<not> (expired r w \<or> w = i)) vec in
           if vec = [] then r\<lparr>g_rooms := (g_rooms r)(room := None)\<rparr>
           else r\<lparr>g_rooms := (g_rooms r)(room \<mapsto> vec)\<rparr>))"

section \<open>The steps of the threads\<close>

definition set_session :: "relay \<Rightarrow> nat \<Rightarrow> (session \<Rightarrow> session) \<Rightarrow> relay" where
  "set_session r i f = r\<lparr>sessions := (sessions r)[i := f (sessions r ! i)]\<rparr>"

abbreviation set_phase :: "relay \<Rightarrow> nat \<Rightarrow> phase \<Rightarrow> relay" where
  "set_phase r i ph \<equiv> set_session r i (\<lambda>s. s\<lparr>ss_phase := ph\<rparr>)"

datatype relay_act =
    Request http_request
  | Join nat
  | Frame nat bytes
  | ReadError nat
  | Collect nat
  | StartWrite nat
  | FinishWrite nat bool
  | EndRound nat
  | Leave nat

fun relay_next :: "relay \<Rightarrow> relay_act \<Rightarrow> relay option" where
  "relay_next r (Request req) =
     (case do_http req of
        JoinRoom room \<Rightarrow> Some (r\<lparr>sessions := sessions r @
            [\<lparr>ss_room = room, ss_phase = Starting, ss_in = [], ss_out = []\<rparr>]\<rparr>)
      | Terminated \<Rightarrow> Some (r\<lparr>stopped := True\<rparr>)
      | _ \<Rightarrow> Some r)"
| "relay_next r (Join i) =
     (if phase_of r i = Some Starting then Some (set_phase (do_run_join r i) i Reading) else None)"
| "relay_next r (Frame i f) =
     (if phase_of r i = Some Reading
      then Some (set_session r i (\<lambda>s. s\<lparr>ss_phase := Got f, ss_in := ss_in s @ [f]\<rparr>)) else None)"
| "relay_next r (ReadError i) =
     (if phase_of r i = Some Reading then Some (set_phase r i Leaving) else None)"
| "relay_next r (Collect i) =
     (case phase_of r i of
        Some (Got f) \<Rightarrow> (case do_run_peers r i of (peers, r') \<Rightarrow> Some (set_phase r' i (Sending f peers 0)))
      | _ \<Rightarrow> None)"
| "relay_next r (StartWrite i) =
     (case phase_of r i of
        Some (Sending f ps n) \<Rightarrow> if n < length ps then Some (set_phase r i (Writing f ps n)) else None
      | _ \<Rightarrow> None)"
| "relay_next r (FinishWrite i ok) =
     (case phase_of r i of
        Some (Writing f ps n) \<Rightarrow>
          (let r' = (if ok then set_session r (ps ! n) (\<lambda>p. p\<lparr>ss_out := ss_out p @ [(i, f)]\<rparr>) else r)
           in Some (set_phase r' i (Sending f ps (n + 1))))
      | _ \<Rightarrow> None)"
| "relay_next r (EndRound i) =
     (case phase_of r i of
        Some (Sending f ps n) \<Rightarrow> if n < length ps then None else Some (set_phase r i Reading)
      | _ \<Rightarrow> None)"
| "relay_next r (Leave i) =
     (if phase_of r i = Some Leaving then Some (set_phase (do_run_leave r i) i Gone) else None)"

definition relay_step :: "relay \<Rightarrow> relay_act \<Rightarrow> relay \<Rightarrow> bool" where
  "relay_step r a r' \<longleftrightarrow> \<not> stopped r \<and> relay_next r a = Some r'"

lemma phase_of_Some: "phase_of r i = Some ph \<longleftrightarrow> i < length (sessions r) \<and> phase_at r i = ph"
  by (auto simp: phase_of_def)

fun_cases next_requestE: "relay_next r (Request req) = Some r'"

lemma relay_step_simps:
  "relay_step r (Request req) r' \<longleftrightarrow> \<not> stopped r \<and>
     ((\<exists>room. do_http req = JoinRoom room \<and> r' = r\<lparr>sessions := sessions r @
          [\<lparr>ss_room = room, ss_phase = Starting, ss_in = [], ss_out = []\<rparr>]\<rparr>) \<or>
      (do_http req = Terminated \<and> r' = r\<lparr>stopped := True\<rparr>) \<or>
      (do_http req \<in> {HealthOk, BadRequest, AcceptError, NotFound} \<and> r' = r))"
  "relay_step r (Join i) r' \<longleftrightarrow> \<not> stopped r \<and> i < length (sessions r) \<and> phase_at r i = Starting \<and>
     r' = set_phase (do_run_join r i) i Reading"
  "relay_step r (Frame i f) r' \<longleftrightarrow> \<not> stopped r \<and> i < length (sessions r) \<and> phase_at r i = Reading \<and>
     r' = set_session r i (\<lambda>s. s\<lparr>ss_phase := Got f, ss_in := ss_in s @ [f]\<rparr>)"
  "relay_step r (ReadError i) r' \<longleftrightarrow> \<not> stopped r \<and> i < length (sessions r) \<and> phase_at r i = Reading \<and>
     r' = set_phase r i Leaving"
  "relay_step r (Collect i) r' \<longleftrightarrow> \<not> stopped r \<and> i < length (sessions r) \<and>
     (\<exists>f. phase_at r i = Got f \<and>
        r' = set_phase (snd (do_run_peers r i)) i (Sending f (fst (do_run_peers r i)) 0))"
  "relay_step r (StartWrite i) r' \<longleftrightarrow> \<not> stopped r \<and> i < length (sessions r) \<and>
     (\<exists>f ps n. phase_at r i = Sending f ps n \<and> n < length ps \<and> r' = set_phase r i (Writing f ps n))"
  "relay_step r (FinishWrite i ok) r' \<longleftrightarrow> \<not> stopped r \<and> i < length (sessions r) \<and>
     (\<exists>f ps n. phase_at r i = Writing f ps n \<and>
        r' = set_phase (if ok then set_session r (ps ! n) (\<lambda>p. p\<lparr>ss_out := ss_out p @ [(i, f)]\<rparr>) else r)
               i (Sending f ps (n + 1)))"
  "relay_step r (EndRound i) r' \<longleftrightarrow> \<not> stopped r \<and> i < length (sessions r) \<and>
     (\<exists>f ps n. phase_at r i = Sending f ps n \<and> \<not> n < length ps \<and> r' = set_phase r i Reading)"
  "relay_step r (Leave i) r' \<longleftrightarrow> \<not> stopped r \<and> i < length (sessions r) \<and> phase_at r i = Leaving \<and>
     r' = set_phase (do_run_leave r i) i Gone"
  by (auto simp: relay_step_def phase_of_def Let_def split: http_reply.splits phase.splits prod.splits
      if_splits)

section \<open>Who is in a room\<close>

definition joined :: "phase \<Rightarrow> bool" where
  "joined ph \<longleftrightarrow> ph \<noteq> Starting \<and> ph \<noteq> Gone"

definition members :: "relay \<Rightarrow> string \<Rightarrow> nat set" where
  "members r room = {i. i < length (sessions r) \<and> room_of r i = room \<and> joined (phase_at r i)}"

definition vec_of :: "relay \<Rightarrow> string \<Rightarrow> nat list" where
  "vec_of r room = (case g_rooms r room of None \<Rightarrow> [] | Some vec \<Rightarrow> vec)"

text \<open>The table lists every member of every room once, nobody else, and no empty room.\<close>

definition rooms_ok :: "relay \<Rightarrow> bool" where
  "rooms_ok r \<longleftrightarrow>
     (\<forall>room. distinct (vec_of r room) \<and> set (vec_of r room) = members r room \<and> g_rooms r room \<noteq> Some [])"

lemma rooms_okD:
  assumes "rooms_ok r"
  shows "distinct (vec_of r room)" and "set (vec_of r room) = members r room" and "g_rooms r room \<noteq> Some []"
  using assms by (simp_all add: rooms_ok_def)

lemma nth_update: "k < length xs \<Longrightarrow> xs[j := x] ! k = (if j = k then x else xs ! k)"
  by (simp add: nth_list_update)

lemma sessions_set_session [simp]:
  "sessions (set_session r i f) = (sessions r)[i := f (sessions r ! i)]"
  "g_rooms (set_session r i f) = g_rooms r"
  "stopped (set_session r i f) = stopped r"
  by (simp_all add: set_session_def)

lemma critical_sections_sessions [simp]:
  "sessions (do_run_join r i) = sessions r"
  "sessions (snd (do_run_peers r i)) = sessions r"
  "sessions (do_run_leave r i) = sessions r"
  "stopped (do_run_join r i) = stopped r"
  "stopped (snd (do_run_peers r i)) = stopped r"
  "stopped (do_run_leave r i) = stopped r"
  by (simp_all add: do_run_join_def do_run_peers_def do_run_leave_def Let_def split: option.splits)

lemma member_not_expired: "w \<in> members r room \<Longrightarrow> \<not> expired r w"
  by (auto simp: members_def expired_def joined_def list_all_iff)

text \<open>So the cleaning of expired entries finds nothing.\<close>

lemma rooms_ok_live:
  assumes "rooms_ok r"
  shows "filter (\<lambda>w. \<not> expired r w) (vec_of r room) = vec_of r room"
    and "filter (\<lambda>w. \<not> expired r w \<and> w \<noteq> i) (vec_of r room) = filter (\<lambda>w. w \<noteq> i) (vec_of r room)"
    and "filter (\<lambda>w. \<not> (expired r w \<or> w = i)) (vec_of r room) = filter (\<lambda>w. w \<noteq> i) (vec_of r room)"
  using rooms_okD(2) [OF assms, of room] member_not_expired [of _ r room]
  by (auto simp: filter_id_conv intro!: filter_cong)

lemma vec_of_Some: "g_rooms r room = Some vec \<Longrightarrow> vec = vec_of r room"
  by (simp add: vec_of_def)

lemma join_rooms:
  "rooms_ok r \<Longrightarrow>
     g_rooms (do_run_join r i) = (g_rooms r)(room_of r i \<mapsto> vec_of r (room_of r i) @ [i])"
  using rooms_ok_live(1) [of r "room_of r i"]
  by (simp add: do_run_join_def Let_def vec_of_def)

lemma peers_rooms:
  assumes "rooms_ok r"
  shows "g_rooms (snd (do_run_peers r i)) = g_rooms r"
    and "fst (do_run_peers r i) = filter (\<lambda>w. w \<noteq> i) (vec_of r (room_of r i))"
  using rooms_ok_live [OF assms, where room = "room_of r i"]
  by (auto simp: do_run_peers_def Let_def vec_of_def split: option.splits)

lemma leave_rooms:
  assumes "rooms_ok r"
  shows "g_rooms (do_run_leave r i) = (g_rooms r)(room_of r i :=
     (let vec = filter (\<lambda>w. w \<noteq> i) (vec_of r (room_of r i)) in if vec = [] then None else Some vec))"
  using rooms_ok_live(3) [OF assms, where room = "room_of r i" and i = i]
  by (auto simp: do_run_leave_def Let_def vec_of_def fun_upd_idem split: option.splits)

lemma peers_members:
  assumes "rooms_ok r"
  shows "set (fst (do_run_peers r i)) = members r (room_of r i) - {i}"
    and "distinct (fst (do_run_peers r i))"
  using rooms_okD [OF assms, of "room_of r i"] by (auto simp: peers_rooms(2) [OF assms])

lemma members_set:
  assumes "i < length (sessions r)" and "\<And>s. ss_room (f s) = ss_room s"
  shows "members (set_session r i f) room =
     (if room = room_of r i \<and> joined (ss_phase (f (sessions r ! i))) then insert i (members r room)
      else members r room - {i})"
  using assms by (auto simp: members_def nth_list_update)

lemma members_cong: "sessions r' = sessions r \<Longrightarrow> members r' = members r"
  by (simp add: members_def fun_eq_iff)

end
