(* ===== verification/Relay_Rooms.thy ===== *)
theory Relay_Rooms
  imports Relay
begin

text \<open>
  What holds in every reachable state of the relay: the table of rooms lists exactly the joined
  sessions, every round is addressed to other members of the room of its sender, and the frames
  written to a socket are those of its room, in the order each sender sent them.
\<close>

section \<open>The table of rooms\<close>

lemma members_stay:
  assumes "i < length (sessions r)" and "\<And>s. ss_room (f s) = ss_room s"
    and "joined (phase_at r i)" and "joined (ss_phase (f (sessions r ! i)))"
  shows "members (set_session r i f) = members r"
proof
  fix room
  have "i \<in> members r (room_of r i)" and "room \<noteq> room_of r i \<Longrightarrow> i \<notin> members r room"
    using assms(1,3) by (auto simp: members_def)
  then show "members (set_session r i f) room = members r room"
    using members_set [of i r f room, OF assms(1,2)] assms(4) by auto
qed

lemma members_log:
  "members (set_session r j (\<lambda>p. p\<lparr>ss_out := h p\<rparr>)) = members r"
  by (auto simp: fun_eq_iff members_def nth_update split: if_splits)

lemma joined_simps [simp]:
  "joined Reading" "joined (Got f)" "joined (Sending f ps n)" "joined (Writing f ps n)" "joined Leaving"
  "\<not> joined Starting" "\<not> joined Gone"
  by (simp_all add: joined_def)

lemma rooms_ok_same:
  "rooms_ok r \<Longrightarrow> g_rooms r' = g_rooms r \<Longrightarrow> members r' = members r \<Longrightarrow> rooms_ok r'"
  by (simp add: rooms_ok_def vec_of_def)

lemma members_join:
  assumes "i < length (sessions r)" and "phase_at r i = Starting"
  shows "members (set_phase (do_run_join r i) i Reading) room =
    (if room = room_of r i then insert i (members r room) else members r room)"
proof -
  have "i \<notin> members r room" using assms(2) by (simp add: members_def)
  then show ?thesis
    using assms(1) by (simp add: members_set members_cong [of "do_run_join r i" r])
qed

lemma members_leave:
  assumes "i < length (sessions r)"
  shows "members (set_phase (do_run_leave r i) i Gone) room = members r room - {i}"
  using assms by (simp add: members_set members_cong [of "do_run_leave r i" r])

lemma rooms_ok_join:
  assumes R: "rooms_ok r" and "i < length (sessions r)" and "phase_at r i = Starting"
  shows "rooms_ok (set_phase (do_run_join r i) i Reading)"
proof -
  let ?r' = "set_phase (do_run_join r i) i Reading"
  have "i \<notin> members r (room_of r i)" using assms(3) by (simp add: members_def)
  moreover have "vec_of ?r' room = (if room = room_of r i then vec_of r room @ [i] else vec_of r room)" for room
    by (simp add: vec_of_def join_rooms [OF R])
  moreover have "g_rooms ?r' room \<noteq> Some []" for room
    using rooms_okD(3) [OF R] by (simp add: join_rooms [OF R])
  ultimately show ?thesis
    using rooms_okD(1,2) [OF R] by (simp add: rooms_ok_def members_join [OF assms(2,3)])
qed

lemma rooms_ok_leave:
  assumes R: "rooms_ok r" and "i < length (sessions r)"
  shows "rooms_ok (set_phase (do_run_leave r i) i Gone)"
proof -
  let ?r' = "set_phase (do_run_leave r i) i Gone"
  have "vec_of ?r' room = (if room = room_of r i then filter (\<lambda>w. w \<noteq> i) (vec_of r room) else vec_of r room)" for room
    by (simp add: vec_of_def [of ?r'] leave_rooms [OF R] Let_def) (simp add: vec_of_def)
  moreover have "g_rooms ?r' room \<noteq> Some []" for room
    using rooms_okD(3) [OF R] by (simp add: leave_rooms [OF R] Let_def)
  moreover have "members r room - {i} = (if room = room_of r i then {w \<in> members r room. w \<noteq> i} else members r room)" for room
    by (auto simp: members_def)
  ultimately show ?thesis
    using rooms_okD(1,2) [OF R] unfolding rooms_ok_def members_leave [OF assms(2)]
    by simp
qed

lemma rooms_ok_step:
  assumes R: "rooms_ok r" and "relay_step r a r'"
  shows "rooms_ok r'"
proof (cases a)
  case (Request req)
  have new: "members (r\<lparr>sessions := sessions r @ [\<lparr>ss_room = room, ss_phase = Starting, ss_in = [], ss_out = []\<rparr>]\<rparr>)
      = members r" for room
    by (auto simp: fun_eq_iff members_def nth_append)
  have "relay_step r (Request req) r'" using assms(2) Request by simp
  then consider room where "r' = r\<lparr>sessions := sessions r @
        [\<lparr>ss_room = room, ss_phase = Starting, ss_in = [], ss_out = []\<rparr>]\<rparr>"
    | "r' = r\<lparr>stopped := True\<rparr>" | "r' = r"
    unfolding relay_step_simps(1) by blast
  then show ?thesis
  proof cases
    case 1
    show ?thesis unfolding 1 by (rule rooms_ok_same [OF R]) (simp, rule new)
  next
    case 2
    show ?thesis unfolding 2 by (rule rooms_ok_same [OF R]) (simp_all add: members_def fun_eq_iff)
  qed (simp add: R)
next
  case (Collect i)
  with assms(2) obtain f where i: "i < length (sessions r)" "phase_at r i = Got f"
    and r': "r' = set_phase (snd (do_run_peers r i)) i (Sending f (fst (do_run_peers r i)) 0)"
    by (auto simp: relay_step_simps)
  have "members r' = members (snd (do_run_peers r i))"
    unfolding r' by (rule members_stay) (simp_all add: i)
  then show ?thesis
    using R i by (auto simp: r' peers_rooms members_cong [of "snd (do_run_peers r i)" r] intro: rooms_ok_same [OF R])
next
  case (FinishWrite i ok)
  with assms(2) obtain f ps n where i: "i < length (sessions r)" "phase_at r i = Writing f ps n"
    and r': "r' = set_phase (if ok then set_session r (ps ! n) (\<lambda>p. p\<lparr>ss_out := ss_out p @ [(i, f)]\<rparr>) else r)
               i (Sending f ps (n + 1))"
    by (auto simp: relay_step_simps)
  let ?m = "if ok then set_session r (ps ! n) (\<lambda>p. p\<lparr>ss_out := ss_out p @ [(i, f)]\<rparr>) else r"
  have "joined (phase_at ?m i)" using i by (auto simp: nth_update)
  then have "members r' = members ?m"
    unfolding r' by (intro members_stay) (simp_all add: i)
  then show ?thesis
    using R by (auto simp: r' members_log intro: rooms_ok_same [OF R])
qed (use assms in \<open>auto simp: relay_step_simps rooms_ok_join rooms_ok_leave
        intro: rooms_ok_same [OF R] intro!: members_stay\<close>)

section \<open>Rounds and logs\<close>

text \<open>The frame of the current round, and the sessions it has not been written to yet.\<close>

fun holding :: "phase \<Rightarrow> bytes option" where
  "holding (Got f) = Some f"
| "holding (Sending f ps n) = Some f"
| "holding (Writing f ps n) = Some f"
| "holding _ = None"

fun unsent :: "phase \<Rightarrow> nat \<Rightarrow> bool" where
  "unsent (Got f) j \<longleftrightarrow> True"
| "unsent (Sending f ps n) j \<longleftrightarrow> j \<notin> set (take n ps)"
| "unsent (Writing f ps n) j \<longleftrightarrow> j \<notin> set (take n ps)"
| "unsent _ j \<longleftrightarrow> False"

fun within :: "phase \<Rightarrow> bool" where
  "within (Sending f ps n) \<longleftrightarrow> n \<le> length ps"
| "within (Writing f ps n) \<longleftrightarrow> n < length ps"
| "within _ \<longleftrightarrow> True"

definition round_ok :: "relay \<Rightarrow> nat \<Rightarrow> session \<Rightarrow> bool" where
  "round_ok r i s \<longleftrightarrow>
     distinct (peers_of (ss_phase s)) \<and> within (ss_phase s) \<and>
     (\<forall>j \<in> set (peers_of (ss_phase s)). j < length (sessions r) \<and> j \<noteq> i \<and> room_of r j = ss_room s) \<and>
     (\<forall>f. holding (ss_phase s) = Some f \<longrightarrow> ss_in s \<noteq> [] \<and> last (ss_in s) = f)"

text \<open>What session \<open>j\<close> may have received of the frames a session has read.\<close>

definition offered :: "session \<Rightarrow> nat \<Rightarrow> bytes list" where
  "offered s j = (if unsent (ss_phase s) j then butlast (ss_in s) else ss_in s)"

definition from_log :: "nat \<Rightarrow> session \<Rightarrow> bytes list" where
  "from_log i s = map snd (filter (\<lambda>e. fst e = i) (ss_out s))"

definition rounds_ok :: "relay \<Rightarrow> bool" where
  "rounds_ok r \<longleftrightarrow> (\<forall>i < length (sessions r). round_ok r i (sessions r ! i))"

definition logs_ok :: "relay \<Rightarrow> bool" where
  "logs_ok r \<longleftrightarrow>
     (\<forall>i < length (sessions r). \<forall>j < length (sessions r).
        subseq (from_log i (sessions r ! j)) (offered (sessions r ! i) j)) \<and>
     (\<forall>j < length (sessions r). \<forall>e \<in> set (ss_out (sessions r ! j)).
        fst e < length (sessions r) \<and> fst e \<noteq> j \<and> room_of r (fst e) = room_of r j)"

definition relay_inv :: "relay \<Rightarrow> bool" where
  "relay_inv r \<longleftrightarrow> rooms_ok r \<and> rounds_ok r \<and> logs_ok r"

text \<open>A step that changes one session and no log.\<close>

lemma local_step:
  assumes R: "rounds_ok r" and L: "logs_ok r" and i: "i < length (sessions r)"
    and s': "sessions r' = (sessions r)[i := s']"
    and room: "ss_room s' = room_of r i" and out: "ss_out s' = ss_out (sessions r ! i)"
    and ok: "round_ok r i s'"
    and more: "\<And>j. subseq (offered (sessions r ! i) j) (offered s' j)"
  shows "rounds_ok r' \<and> logs_ok r'"
proof
  have rooms: "room_of r' j = room_of r j" if "j < length (sessions r)" for j
    using that s' room by (simp add: nth_update)
  have same: "round_ok r' k s" if "round_ok r k s" for k s
    using that s' rooms by (auto simp: round_ok_def)
  show "rounds_ok r'"
    unfolding rounds_ok_def
  proof (intro allI impI)
    fix k assume "k < length (sessions r')"
    then show "round_ok r' k (sessions r' ! k)"
      using R ok s' by (auto simp: rounds_ok_def nth_update intro!: same)
  qed
  have logs: "from_log k (sessions r' ! j) = from_log k (sessions r ! j)"
    "ss_out (sessions r' ! j) = ss_out (sessions r ! j)" if "j < length (sessions r)" for k j
    using that s' out by (simp_all add: from_log_def nth_update)
  have "subseq (from_log k (sessions r' ! j)) (offered (sessions r' ! k) j)"
    if kj: "k < length (sessions r)" "j < length (sessions r)" for k j
  proof -
    have "subseq (from_log k (sessions r ! j)) (offered (sessions r ! k) j)"
      using L kj by (simp add: logs_ok_def)
    also have "subseq (offered (sessions r ! k) j) (offered (sessions r' ! k) j)"
      using s' more by (auto simp: nth_update [OF kj(1)])
    finally show ?thesis unfolding logs(1) [OF kj(2)] .
  qed
  moreover have "length (sessions r') = length (sessions r)" by (simp add: s')
  ultimately show "logs_ok r'"
    using L logs(2) rooms by (auto simp: logs_ok_def)
qed

text \<open>Every step of a thread that writes no frame is of that kind.\<close>

lemma subseq_butlast: "subseq (butlast xs) xs"
  by (metis append_butlast_last_id list_emb_Nil2 prefix_def subseq_order.order_refl subseq_rev_drop_many butlast.simps(1))

lemma offered_mono:
  "ss_in s' = ss_in s \<Longrightarrow> (unsent (ss_phase s') j \<Longrightarrow> unsent (ss_phase s) j) \<Longrightarrow> subseq (offered s j) (offered s' j)"
  by (simp add: offered_def subseq_butlast)

lemma phase_step:
  assumes "rounds_ok r" and "logs_ok r" and i: "i < length (sessions r)"
    and rooms: "sessions r' = (sessions r)[i := (sessions r ! i)\<lparr>ss_phase := ph\<rparr>]"
    and "round_ok r i ((sessions r ! i)\<lparr>ss_phase := ph\<rparr>)"
    and "\<And>j. unsent ph j \<Longrightarrow> unsent (phase_at r i) j"
  shows "rounds_ok r' \<and> logs_ok r'"
  using assms by (intro local_step [OF assms(1,2) i rooms]) (auto intro: offered_mono)

lemma frame_step:
  assumes "rounds_ok r" and "logs_ok r" and i: "i < length (sessions r)" and "phase_at r i = Reading"
    and r': "r' = set_session r i (\<lambda>s. s\<lparr>ss_phase := Got f, ss_in := ss_in s @ [f]\<rparr>)"
  shows "rounds_ok r' \<and> logs_ok r'"
proof (rule local_step [OF assms(1,2) i])
  show "sessions r' = (sessions r)[i := (sessions r ! i)\<lparr>ss_phase := Got f, ss_in := ss_in (sessions r ! i) @ [f]\<rparr>]"
    by (simp add: r')
  show "subseq (offered (sessions r ! i) j)
      (offered ((sessions r ! i)\<lparr>ss_phase := Got f, ss_in := ss_in (sessions r ! i) @ [f]\<rparr>) j)" for j
    using assms(4) by (simp add: offered_def)
qed (simp_all add: round_ok_def)

lemma collect_step:
  assumes ok: "rooms_ok r" "rounds_ok r" "logs_ok r" and i: "i < length (sessions r)" and ph: "phase_at r i = Got f"
    and r': "r' = set_phase (snd (do_run_peers r i)) i (Sending f (fst (do_run_peers r i)) 0)"
  shows "rounds_ok r' \<and> logs_ok r'"
proof (rule phase_step [OF ok(2,3) i])
  show "sessions r' = (sessions r)[i := (sessions r ! i)\<lparr>ss_phase := Sending f (fst (do_run_peers r i)) 0\<rparr>]"
    by (simp add: r')
  have "round_ok r i (sessions r ! i)" using ok(2) i by (simp add: rounds_ok_def)
  then show "round_ok r i ((sessions r ! i)\<lparr>ss_phase := Sending f (fst (do_run_peers r i)) 0\<rparr>)"
    using peers_members [OF ok(1), of i] ph by (auto simp: round_ok_def members_def)
qed (simp add: ph)

lemma write_ok_step:
  assumes R: "rounds_ok r" and L: "logs_ok r" and i: "i < length (sessions r)" and ph: "phase_at r i = Writing f ps n"
    and r': "r' = set_phase (set_session r (ps ! n) (\<lambda>p. p\<lparr>ss_out := ss_out p @ [(i, f)]\<rparr>)) i (Sending f ps (n + 1))"
  shows "rounds_ok r' \<and> logs_ok r'"
proof -
  let ?p = "ps ! n"
  have own: "round_ok r i (sessions r ! i)" using R i by (simp add: rounds_ok_def)
  then have n: "n < length ps" "distinct ps" and p: "?p < length (sessions r)" "?p \<noteq> i" "room_of r ?p = room_of r i"
    and f: "ss_in (sessions r ! i) \<noteq> []" "last (ss_in (sessions r ! i)) = f"
    using ph by (auto simp: round_ok_def)
  have sess: "sessions r' ! k = (if k = i then (sessions r ! i)\<lparr>ss_phase := Sending f ps (n + 1)\<rparr>
      else if k = ?p then (sessions r ! ?p)\<lparr>ss_out := ss_out (sessions r ! ?p) @ [(i, f)]\<rparr>
      else sessions r ! k)" if "k < length (sessions r)" for k
    using that p i by (auto simp: r' nth_update)
  have len: "length (sessions r') = length (sessions r)" by (simp add: r')
  have rooms: "room_of r' k = room_of r k" if "k < length (sessions r)" for k
    using sess [OF that] by simp
  have step: "round_ok r' k (sessions r' ! k)" if k: "k < length (sessions r)" for k
  proof -
    have "round_ok r k (sessions r ! k)" using R k by (simp add: rounds_ok_def)
    then show ?thesis
      using sess [OF k] rooms ph n by (cases "k = i") (auto simp: round_ok_def len)
  qed
  have new: "n < length ps \<Longrightarrow> ?p \<notin> set (take n ps)" and take: "set (take (Suc n) ps) = insert ?p (set (take n ps))"
    using n by (auto simp: take_Suc_conv_app_nth in_set_conv_nth nth_eq_iff_index_eq)
  have old: "subseq (from_log k (sessions r ! j)) (offered (sessions r ! k) j)"
    if "k < length (sessions r)" "j < length (sessions r)" for k j
    using L that by (simp add: logs_ok_def)
  have "subseq (from_log k (sessions r' ! j)) (offered (sessions r' ! k) j)"
    if k: "k < length (sessions r)" and j: "j < length (sessions r)" for k j
  proof (cases "j = ?p")
    case True
    have off: "offered (sessions r' ! k) j = (if k = i then ss_in (sessions r ! i) else offered (sessions r ! k) j)"
      using sess [OF k] True take by (simp add: offered_def)
    have log: "from_log k (sessions r' ! j) =
        (if k = i then from_log i (sessions r ! j) @ [f] else from_log k (sessions r ! j))"
      using sess [OF j] True p by (auto simp: from_log_def)
    have "subseq (from_log i (sessions r ! j) @ [f]) (ss_in (sessions r ! i))"
    proof -
      have "offered (sessions r ! i) j = butlast (ss_in (sessions r ! i))"
        using new [OF n(1)] True ph by (simp add: offered_def)
      then have "subseq (from_log i (sessions r ! j) @ [f]) (butlast (ss_in (sessions r ! i)) @ [f])"
        using old [OF i j] by (intro list_emb_append_mono) simp_all
      moreover have "butlast (ss_in (sessions r ! i)) @ [f] = ss_in (sessions r ! i)"
        using append_butlast_last_id [OF f(1)] f(2) by simp
      ultimately show ?thesis by (simp only:)
    qed
    then show ?thesis using off log old [OF k j] by simp
  next
    case False
    have "from_log k (sessions r' ! j) = from_log k (sessions r ! j)"
      using sess [OF j] False by (simp add: from_log_def)
    moreover have "offered (sessions r' ! k) j = offered (sessions r ! k) j"
      using sess [OF k] False take ph by (simp add: offered_def)
    ultimately show ?thesis using old [OF k j] by simp
  qed
  moreover have "\<forall>j < length (sessions r). \<forall>e \<in> set (ss_out (sessions r' ! j)).
      fst e < length (sessions r) \<and> fst e \<noteq> j \<and> room_of r (fst e) = room_of r j"
    using L p i sess by (auto simp: logs_ok_def)
  ultimately show ?thesis
    using step rooms by (simp add: rounds_ok_def logs_ok_def len)
qed

lemma request_step:
  assumes R: "rounds_ok r" and L: "logs_ok r"
    and r': "r' = r\<lparr>sessions := sessions r @ [\<lparr>ss_room = room, ss_phase = Starting, ss_in = [], ss_out = []\<rparr>]\<rparr>"
  shows "rounds_ok r' \<and> logs_ok r'"
proof
  let ?n = "length (sessions r)"
  have old: "sessions r' ! k = sessions r ! k" if "k < ?n" for k
    using that by (simp add: r' nth_append)
  have new: "sessions r' ! ?n = \<lparr>ss_room = room, ss_phase = Starting, ss_in = [], ss_out = []\<rparr>"
    by (simp add: r')
  have len: "length (sessions r') = Suc ?n" by (simp add: r')
  have "round_ok r' k (sessions r' ! k)" if "k < Suc ?n" for k
  proof (cases "k = ?n")
    case False
    then have "k < ?n" using that by simp
    then have "round_ok r k (sessions r ! k)" using R by (simp add: rounds_ok_def)
    then show ?thesis using old [OF \<open>k < ?n\<close>] old by (auto simp: round_ok_def len)
  qed (simp add: round_ok_def new)
  then show "rounds_ok r'" by (simp add: rounds_ok_def len)
  have senders: "fst e < ?n \<and> fst e \<noteq> j \<and> room_of r (fst e) = room_of r j"
    if "j < ?n" "e \<in> set (ss_out (sessions r ! j))" for e j
    using L that by (simp add: logs_ok_def)
  have "subseq (from_log k (sessions r' ! j)) (offered (sessions r' ! k) j)"
    if k: "k < Suc ?n" and j: "j < Suc ?n" for k j
  proof (cases "k = ?n \<or> j = ?n")
    case True
    have "from_log k (sessions r' ! j) = []"
    proof (cases "j = ?n")
      case False
      then have j': "j < ?n" using j by simp
      have "k = ?n" using True False by simp
      then have "\<forall>e \<in> set (ss_out (sessions r ! j)). fst e \<noteq> k" using senders [OF j'] by force
      then show ?thesis unfolding from_log_def old [OF j'] by (simp add: filter_empty_conv)
    qed (simp add: new from_log_def)
    then show ?thesis by simp
  next
    case False
    with k j have "k < ?n" "j < ?n" by auto
    with L show ?thesis by (simp add: old logs_ok_def)
  qed
  moreover have "\<forall>j < Suc ?n. \<forall>e \<in> set (ss_out (sessions r' ! j)).
      fst e < Suc ?n \<and> fst e \<noteq> j \<and> room_of r' (fst e) = room_of r' j"
  proof (intro allI impI ballI)
    fix j e assume j: "j < Suc ?n" and e: "e \<in> set (ss_out (sessions r' ! j))"
    then have "j < ?n" using new by (cases "j = ?n") auto
    with senders [of j e] e old show "fst e < Suc ?n \<and> fst e \<noteq> j \<and> room_of r' (fst e) = room_of r' j"
      by simp
  qed
  ultimately show "logs_ok r'" by (simp add: logs_ok_def len)
qed

lemma other_step:
  "rounds_ok r \<Longrightarrow> logs_ok r \<Longrightarrow> sessions r' = sessions r \<Longrightarrow> rounds_ok r' \<and> logs_ok r'"
  by (simp add: rounds_ok_def logs_ok_def round_ok_def)

lemma rounds_logs_step:
  assumes ok: "rooms_ok r" "rounds_ok r" "logs_ok r" and step: "relay_step r a r'"
  shows "rounds_ok r' \<and> logs_ok r'"
proof -
  have own: "round_ok r i (sessions r ! i)" if "i < length (sessions r)" for i
    using ok(2) that by (simp add: rounds_ok_def)
  show ?thesis
  proof (cases a)
    case (Request req)
    with step have "relay_step r (Request req) r'" by simp
    then consider room where "r' = r\<lparr>sessions := sessions r @
          [\<lparr>ss_room = room, ss_phase = Starting, ss_in = [], ss_out = []\<rparr>]\<rparr>"
      | "sessions r' = sessions r"
      unfolding relay_step_simps(1) by auto
    then show ?thesis
      by cases (rule request_step [OF ok(2,3)], assumption, rule other_step [OF ok(2,3)])
  next
    case (Join i)
    with step show ?thesis
      using own [of i] by (intro phase_step [OF ok(2,3), of i _ Reading]) (auto simp: relay_step_simps round_ok_def)
  next
    case (Frame i f)
    with step frame_step [OF ok(2,3), of i r' f] show ?thesis by (auto simp: relay_step_simps)
  next
    case (ReadError i)
    with step show ?thesis
      using own [of i] by (intro phase_step [OF ok(2,3), of i _ Leaving]) (auto simp: relay_step_simps round_ok_def)
  next
    case (Collect i)
    with step collect_step [OF ok, of i] show ?thesis by (auto simp: relay_step_simps)
  next
    case (StartWrite i)
    with step obtain f ps n where i: "i < length (sessions r)" "phase_at r i = Sending f ps n" "n < length ps"
      and r': "r' = set_phase r i (Writing f ps n)" by (auto simp: relay_step_simps)
    then show ?thesis
      using own [of i] by (intro phase_step [OF ok(2,3), of i _ "Writing f ps n"]) (auto simp: round_ok_def)
  next
    case (FinishWrite i b)
    with step obtain f ps n where i: "i < length (sessions r)" "phase_at r i = Writing f ps n"
      and r': "r' = set_phase (if b then set_session r (ps ! n) (\<lambda>p. p\<lparr>ss_out := ss_out p @ [(i, f)]\<rparr>) else r)
               i (Sending f ps (n + 1))" by (auto simp: relay_step_simps)
    show ?thesis
    proof (cases b)
      case True
      with write_ok_step [OF ok(2,3) i] r' show ?thesis by simp
    next
      case False
      have "set (take n ps) \<subseteq> set (take (Suc n) ps)" by (rule set_take_subset_set_take) simp
      with False i r' show ?thesis
        using own [of i]
        by (intro phase_step [OF ok(2,3), of i _ "Sending f ps (n + 1)"]) (auto simp: round_ok_def)
    qed
  next
    case (EndRound i)
    with step obtain f ps n where i: "i < length (sessions r)" "phase_at r i = Sending f ps n"
      and r': "r' = set_phase r i Reading" by (auto simp: relay_step_simps)
    then show ?thesis
      by (intro phase_step [OF ok(2,3), of i _ Reading]) (auto simp: round_ok_def)
  next
    case (Leave i)
    with step show ?thesis
      using own [of i] by (intro phase_step [OF ok(2,3), of i _ Gone]) (auto simp: relay_step_simps round_ok_def)
  qed
qed

interpretation relay_threads: step_invariant relay_step relay_init relay_inv
proof
  show "relay_inv relay_init"
    by (simp add: relay_inv_def relay_init_def rooms_ok_def rounds_ok_def logs_ok_def vec_of_def members_def)
  show "relay_inv r \<Longrightarrow> relay_step r a r' \<Longrightarrow> relay_inv r'" for r a r'
    using rooms_ok_step [of r a r'] rounds_logs_step [of r a r'] by (simp add: relay_inv_def)
qed

end
