(* ===== verification/Relay_Spec.thy ===== *)
theory Relay_Spec
  imports Relay_Rooms
begin

text \<open>
  What the relay promises: rooms are sets of sessions, and a frame goes once to every other session that is
  in the room when the lock is taken. The relay of \<^verbatim>\<open>relay_server.cpp\<close> refines this specification.
\<close>

section \<open>The specification\<close>

datatype round = Idle | Has bytes | Fanning bytes "nat set"

record room_spec =
  rs_names :: "string list"
  rs_members :: "string \<Rightarrow> nat set"
  rs_round :: "nat \<Rightarrow> round"
  rs_out :: "nat \<Rightarrow> (nat \<times> bytes) list"

inductive spec_step :: "room_spec \<Rightarrow> relay_act \<Rightarrow> room_spec \<Rightarrow> bool" where
  spec_enter: "do_http req = JoinRoom room \<Longrightarrow>
    spec_step c (Request req) (c\<lparr>rs_names := rs_names c @ [room]\<rparr>)"
| spec_reply: "(\<And>room. do_http req \<noteq> JoinRoom room) \<Longrightarrow> spec_step c (Request req) c"
| spec_join: "i < length (rs_names c) \<Longrightarrow> room = rs_names c ! i \<Longrightarrow> i \<notin> rs_members c room \<Longrightarrow>
    spec_step c (Join i) (c\<lparr>rs_members := (rs_members c)(room := insert i (rs_members c room))\<rparr>)"
| spec_frame: "i \<in> rs_members c (rs_names c ! i) \<Longrightarrow> rs_round c i = Idle \<Longrightarrow>
    spec_step c (Frame i f) (c\<lparr>rs_round := (rs_round c)(i := Has f)\<rparr>)"
| spec_error: "i \<in> rs_members c (rs_names c ! i) \<Longrightarrow> rs_round c i = Idle \<Longrightarrow> spec_step c (ReadError i) c"
| spec_collect: "rs_round c i = Has f \<Longrightarrow>
    spec_step c (Collect i)
      (c\<lparr>rs_round := (rs_round c)(i := Fanning f (rs_members c (rs_names c ! i) - {i}))\<rparr>)"
| spec_start: "rs_round c i = Fanning f T \<Longrightarrow> T \<noteq> {} \<Longrightarrow> spec_step c (StartWrite i) c"
| spec_written: "rs_round c i = Fanning f T \<Longrightarrow> j \<in> T \<Longrightarrow>
    spec_step c (FinishWrite i True)
      (c\<lparr>rs_out := (rs_out c)(j := rs_out c j @ [(i, f)]),
         rs_round := (rs_round c)(i := Fanning f (T - {j}))\<rparr>)"
| spec_failed: "rs_round c i = Fanning f T \<Longrightarrow> j \<in> T \<Longrightarrow>
    spec_step c (FinishWrite i False) (c\<lparr>rs_round := (rs_round c)(i := Fanning f (T - {j}))\<rparr>)"
| spec_end: "rs_round c i = Fanning f {} \<Longrightarrow>
    spec_step c (EndRound i) (c\<lparr>rs_round := (rs_round c)(i := Idle)\<rparr>)"
| spec_leave: "room = rs_names c ! i \<Longrightarrow> i \<in> rs_members c room \<Longrightarrow> rs_round c i = Idle \<Longrightarrow>
    spec_step c (Leave i) (c\<lparr>rs_members := (rs_members c)(room := rs_members c room - {i})\<rparr>)"

section \<open>The abstraction\<close>

fun round_of :: "phase \<Rightarrow> round" where
  "round_of (Got f) = Has f"
| "round_of (Sending f ps n) = Fanning f (set (drop n ps))"
| "round_of (Writing f ps n) = Fanning f (set (drop n ps))"
| "round_of _ = Idle"

definition abs_relay :: "relay \<Rightarrow> room_spec" where
  "abs_relay r =
     \<lparr>rs_names = map ss_room (sessions r), rs_members = members r,
      rs_round = (\<lambda>i. if i < length (sessions r) then round_of (phase_at r i) else Idle),
      rs_out = (\<lambda>j. if j < length (sessions r) then ss_out (sessions r ! j) else [])\<rparr>"

lemma abs_names [simp]: "i < length (sessions r) \<Longrightarrow> rs_names (abs_relay r) ! i = room_of r i"
  and abs_names_length [simp]: "length (rs_names (abs_relay r)) = length (sessions r)"
  and abs_members [simp]: "rs_members (abs_relay r) = members r"
  and abs_round [simp]: "i < length (sessions r) \<Longrightarrow> rs_round (abs_relay r) i = round_of (phase_at r i)"
  by (simp_all add: abs_relay_def)

lemma abs_cong: "sessions r' = sessions r \<Longrightarrow> abs_relay r' = abs_relay r"
  by (simp add: abs_relay_def members_cong [of r' r] fun_eq_iff)

lemma map_update_same: "i < length xs \<Longrightarrow> f y = f (xs ! i) \<Longrightarrow> map f (xs[i := y]) = map f xs"
  by (simp add: map_update) (metis list_update_id map_update)

text \<open>How the abstraction follows a change of one session's phase.\<close>

lemma abs_set_phase:
  assumes "i < length (sessions r)" and "sessions r' = (sessions r)[i := (sessions r ! i)\<lparr>ss_phase := ph\<rparr>]"
  shows "abs_relay r' = (abs_relay r)\<lparr>rs_members := members r', rs_round := (rs_round (abs_relay r))(i := round_of ph)\<rparr>"
  using assms by (auto simp: abs_relay_def fun_eq_iff nth_update map_update_same)

lemma abs_set_out:
  assumes "j < length (sessions r)"
  shows "abs_relay (set_session r j (\<lambda>p. p\<lparr>ss_out := ss_out p @ [e]\<rparr>)) =
    (abs_relay r)\<lparr>rs_out := (rs_out (abs_relay r))(j := rs_out (abs_relay r) j @ [e])\<rparr>"
  using assms by (auto simp: abs_relay_def fun_eq_iff nth_update map_update_same members_log)

lemma member_room:
  "i < length (sessions r) \<Longrightarrow> joined (phase_at r i) \<Longrightarrow> i \<in> members r (room_of r i)"
  by (simp add: members_def)

lemma set_drop_step:
  "n < length ps \<Longrightarrow> distinct ps \<Longrightarrow> set (drop (Suc n) ps) = set (drop n ps) - {ps ! n}"
proof -
  assume "n < length ps" and "distinct ps"
  then have "drop n ps = ps ! n # drop (Suc n) ps" and "distinct (drop n ps)"
    by (simp_all add: Cons_nth_drop_Suc)
  then show ?thesis by auto
qed

section \<open>The relay refines it\<close>

lemma stay_sim:
  assumes "i < length (sessions r)" and "joined (phase_at r i)" and "joined ph"
  shows "abs_relay (set_phase r i ph) = (abs_relay r)\<lparr>rs_round := (rs_round (abs_relay r))(i := round_of ph)\<rparr>"
  using assms by (subst abs_set_phase [OF assms(1)]) (simp_all add: members_stay abs_relay_def)

lemma round_same: "rs_round c i = x \<Longrightarrow> c\<lparr>rs_round := (rs_round c)(i := x)\<rparr> = c"
  by (simp add: fun_upd_idem)

lemma finish_sim:
  assumes I: "relay_inv r" and i: "i < length (sessions r)" and ph: "phase_at r i = Writing f ps n"
    and r': "r' = set_phase (if b then set_session r (ps ! n) (\<lambda>p. p\<lparr>ss_out := ss_out p @ [(i, f)]\<rparr>) else r)
               i (Sending f ps (n + 1))"
  shows "spec_step (abs_relay r) (FinishWrite i b) (abs_relay r')"
proof -
  have "round_ok r i (sessions r ! i)" using I i by (simp add: relay_inv_def rounds_ok_def)
  then have n: "n < length ps" "distinct ps" and p: "ps ! n < length (sessions r)" "ps ! n \<noteq> i"
    using ph by (auto simp: round_ok_def)
  have round: "rs_round (abs_relay r) i = Fanning f (set (drop n ps))" using i ph by simp
  have mem: "ps ! n \<in> set (drop n ps)" using n(1) by (metis Cons_nth_drop_Suc list.set_intros(1))
  have rest: "round_of (Sending f ps (n + 1)) = Fanning f (set (drop n ps) - {ps ! n})"
    using set_drop_step [OF n] by simp
  show ?thesis
  proof (cases b)
    case True
    let ?m = "set_session r (ps ! n) (\<lambda>p. p\<lparr>ss_out := ss_out p @ [(i, f)]\<rparr>)"
    have "abs_relay r' = (abs_relay ?m)\<lparr>rs_round := (rs_round (abs_relay ?m))(i := round_of (Sending f ps (n + 1)))\<rparr>"
      unfolding r' using True i p ph by (simp add: stay_sim nth_update)
    then show ?thesis
      using spec_written [OF round mem] True unfolding rest abs_set_out [OF p(1)] by simp
  next
    case False
    have "abs_relay r' = (abs_relay r)\<lparr>rs_round := (rs_round (abs_relay r))(i := round_of (Sending f ps (n + 1)))\<rparr>"
      unfolding r' using False i ph by (simp add: stay_sim)
    then show ?thesis using spec_failed [OF round mem] False unfolding rest by simp
  qed
qed

lemma relay_sim:
  assumes I: "relay_inv r" and step: "relay_step r a r'"
  shows "spec_step (abs_relay r) a (abs_relay r')"
proof -
  have R: "rooms_ok r" using I by (simp add: relay_inv_def)
  have stay: "abs_relay r' = abs_relay r"
    if "i < length (sessions r)" "joined (phase_at r i)" "joined ph" "round_of ph = round_of (phase_at r i)"
      "r' = set_phase r i ph" for i ph
    unfolding that(5) stay_sim [OF that(1-3)] using that(1,4) by (intro round_same) simp
  show ?thesis
  proof (cases a)
    case (Request req)
    with step have "relay_step r (Request req) r'" by simp
    then consider room where "do_http req = JoinRoom room" and "r' = r\<lparr>sessions := sessions r @
          [\<lparr>ss_room = room, ss_phase = Starting, ss_in = [], ss_out = []\<rparr>]\<rparr>"
      | "\<And>room. do_http req \<noteq> JoinRoom room" and "sessions r' = sessions r"
      unfolding relay_step_simps(1) by auto
    then show ?thesis
    proof cases
      case 1
      have "abs_relay r' = (abs_relay r)\<lparr>rs_names := rs_names (abs_relay r) @ [room]\<rparr>"
        unfolding 1 by (auto simp: abs_relay_def fun_eq_iff nth_append members_def)
      with spec_enter [OF 1(1)] Request show ?thesis by simp
    next
      case 2
      then have "abs_relay r' = abs_relay r" by (intro abs_cong)
      with spec_reply [OF 2(1)] Request show ?thesis by simp
    qed
  next
    case (Join i)
    with step have i: "i < length (sessions r)" "phase_at r i = Starting"
      and r': "r' = set_phase (do_run_join r i) i Reading" by (auto simp: relay_step_simps)
    have "i \<notin> members r (room_of r i)" using i by (simp add: members_def)
    moreover have "abs_relay r' = (abs_relay r)\<lparr>rs_members :=
        (members r)(room_of r i := insert i (members r (room_of r i)))\<rparr>"
      by (subst abs_set_phase [OF i(1), of _ Reading])
        (auto simp: r' fun_eq_iff members_join [OF i] i abs_relay_def)
    ultimately show ?thesis
      using spec_join [of i "abs_relay r" "room_of r i"] i(1) Join by simp
  next
    case (Frame i f)
    with step have i: "i < length (sessions r)" "phase_at r i = Reading"
      and r': "r' = set_session r i (\<lambda>s. s\<lparr>ss_phase := Got f, ss_in := ss_in s @ [f]\<rparr>)"
      by (auto simp: relay_step_simps)
    have "members r' = members r" unfolding r' by (rule members_stay) (simp_all add: i)
    then have "abs_relay r' = (abs_relay r)\<lparr>rs_round := (rs_round (abs_relay r))(i := Has f)\<rparr>"
      using i by (auto simp: r' abs_relay_def fun_eq_iff nth_update map_update_same)
    then show ?thesis
      using spec_frame [of i "abs_relay r" f] member_room [OF i(1)] i Frame by simp
  next
    case (ReadError i)
    with step have i: "i < length (sessions r)" "phase_at r i = Reading" and r': "r' = set_phase r i Leaving"
      by (auto simp: relay_step_simps)
    then show ?thesis
      using spec_error [of i "abs_relay r"] member_room [OF i(1)] stay [OF i(1) _ _ _ r'] ReadError by simp
  next
    case (Collect i)
    with step obtain f where i: "i < length (sessions r)" "phase_at r i = Got f"
      and r': "r' = set_phase (snd (do_run_peers r i)) i (Sending f (fst (do_run_peers r i)) 0)"
      by (auto simp: relay_step_simps)
    have same: "abs_relay (snd (do_run_peers r i)) = abs_relay r"
      by (intro abs_cong) simp
    have "abs_relay r' = (abs_relay r)\<lparr>rs_round := (rs_round (abs_relay r))(i := Fanning f (members r (room_of r i) - {i}))\<rparr>"
      unfolding r' using i peers_members(1) [OF R, of i] by (subst stay_sim) (simp_all add: same)
    then show ?thesis using spec_collect [of "abs_relay r" i f] i Collect by simp
  next
    case (StartWrite i)
    with step obtain f ps n where i: "i < length (sessions r)" "phase_at r i = Sending f ps n" "n < length ps"
      and r': "r' = set_phase r i (Writing f ps n)" by (auto simp: relay_step_simps)
    then show ?thesis
      using spec_start [of "abs_relay r" i f "set (drop n ps)"] stay [OF i(1) _ _ _ r'] StartWrite by simp
  next
    case (FinishWrite i b)
    with step finish_sim [OF I, of i] show ?thesis by (auto simp: relay_step_simps)
  next
    case (EndRound i)
    with step obtain f ps n where i: "i < length (sessions r)" "phase_at r i = Sending f ps n" "\<not> n < length ps"
      and r': "r' = set_phase r i Reading" by (auto simp: relay_step_simps)
    then show ?thesis
      using spec_end [of "abs_relay r" i f] stay_sim [OF i(1), of Reading] EndRound by simp
  next
    case (Leave i)
    with step have i: "i < length (sessions r)" "phase_at r i = Leaving"
      and r': "r' = set_phase (do_run_leave r i) i Gone" by (auto simp: relay_step_simps)
    have "members r room - {i} = members r room" if "room \<noteq> room_of r i" for room
      using that by (auto simp: members_def)
    then have "abs_relay r' = (abs_relay r)\<lparr>rs_members :=
        (members r)(room_of r i := members r (room_of r i) - {i})\<rparr>"
      by (subst abs_set_phase [OF i(1), of _ Gone])
        (auto simp: r' fun_eq_iff members_leave [OF i(1)] i abs_relay_def)
    then show ?thesis
      using spec_leave [of "room_of r i" "abs_relay r" i] member_room [OF i(1)] i Leave by simp
  qed
qed

interpretation relay_rooms: step_simulation relay_step relay_init relay_inv spec_step abs_relay
  by unfold_locales (rule relay_sim)

end
