(* ===== verification/Relay_Props.thy ===== *)
theory Relay_Props
  imports Relay_Spec
begin

text \<open>The properties of the relay, and \<open>main\<close>'s port argument.\<close>

section \<open>The port\<close>

text \<open>\<open>unsigned short port = 8080; if (argc >= 2) port = static_cast<unsigned short>(std::atoi(argv[1]));\<close>\<close>

definition relay_port :: "string list \<Rightarrow> 16 word option" where
  "relay_port argv = (if length argv \<ge> 2 then map_option word_of_int (atoi (argv ! 1)) else Some 8080)"

text \<open>The relay listens on the number of its first argument modulo 65536: a port out of range is not
  refused but wraps round, and without an argument the port is 8080.\<close>

theorem relay_port_wraps:
  assumes "n < 2 ^ 31"
  shows "map_option unat (relay_port (exe # to_string n # rest)) = Some (n mod 65536) \<and>
    map_option unat (relay_port [exe]) = Some 8080"
  using assms by (simp add: relay_port_def atoi_to_string unat_of_nat take_bit_eq_mod)

section \<open>Rooms\<close>

text \<open>C22: in every reachable state of the relay the table has an entry exactly for the rooms with a joined
  session, lists each of them once and nobody else, and holds no expired pointer.\<close>

theorem relay_rooms_exact:
  assumes "run relay_step relay_init acts r"
  shows "case g_rooms r room of
      None \<Rightarrow> members r room = {}
    | Some vec \<Rightarrow> vec \<noteq> [] \<and> distinct vec \<and> set vec = members r room \<and> list_all (\<lambda>w. \<not> expired r w) vec"
proof -
  have R: "rooms_ok r"
    using relay_threads.reach_inv [OF assms] by (simp add: relay_inv_def)
  have "list_all (\<lambda>w. \<not> expired r w) (vec_of r room)"
    using rooms_okD(2) [OF R, of room] member_not_expired [of _ r room] by (auto simp: list_all_iff)
  with rooms_okD [OF R, of room] show ?thesis
    by (auto simp: vec_of_def split: option.splits)
qed

text \<open>C21: every run of the relay is a run of the specification, in which rooms are sets of sessions and a
  frame goes once to every other session of the sender's room.\<close>

theorem relay_refines_rooms:
  assumes "run relay_step relay_init acts r"
  shows "run spec_step
    \<lparr>rs_names = [], rs_members = (\<lambda>_. {}), rs_round = (\<lambda>_. Idle), rs_out = (\<lambda>_. [])\<rparr> acts (abs_relay r)"
proof -
  have "abs_relay relay_init =
      \<lparr>rs_names = [], rs_members = (\<lambda>_. {}), rs_round = (\<lambda>_. Idle), rs_out = (\<lambda>_. [])\<rparr>"
    by (simp add: abs_relay_def relay_init_def members_def fun_eq_iff)
  with relay_rooms.reach_sim [OF assms] show ?thesis by simp
qed

section \<open>Delivery\<close>

lemma relay_in_order:
  assumes "run relay_step relay_init acts r" and "i < length (sessions r)" and "j < length (sessions r)"
  shows "subseq (from_log i (sessions r ! j)) (ss_in (sessions r ! i))"
proof -
  have L: "logs_ok r" using relay_threads.reach_inv [OF assms(1)] by (simp add: relay_inv_def)
  have "subseq (from_log i (sessions r ! j)) (offered (sessions r ! i) j)"
    using L assms(2,3) by (simp add: logs_ok_def)
  moreover have "subseq (offered (sessions r ! i) j) (ss_in (sessions r ! i))"
    by (simp add: offered_def subseq_butlast)
  ultimately show ?thesis by (rule subseq_order.order_trans)
qed

text \<open>In a room that only two sessions ever joined, each receives from the other one alone.\<close>

lemma relay_pair:
  assumes "run relay_step relay_init acts r" and "j < length (sessions r)"
    and "\<And>k. k < length (sessions r) \<Longrightarrow> room_of r k = room_of r j \<Longrightarrow> k \<in> {i, j}"
  shows "map snd (ss_out (sessions r ! j)) = from_log i (sessions r ! j)"
proof -
  have "logs_ok r" using relay_threads.reach_inv [OF assms(1)] by (simp add: relay_inv_def)
  then have "\<forall>e \<in> set (ss_out (sessions r ! j)). fst e = i"
    using assms(2,3) unfolding logs_ok_def by blast
  then show ?thesis by (simp add: from_log_def filter_id_conv [THEN iffD2])
qed

text \<open>C24: what a session receives of another one is a subsequence of the frames that one sent, in that
  order and without repetition, and only sessions of one room receive anything of each other; no
  session gets its own frames back.\<close>

theorem relay_delivers_in_order:
  assumes "run relay_step relay_init acts r" and "i < length (sessions r)" and "j < length (sessions r)"
  shows "subseq (from_log i (sessions r ! j)) (ss_in (sessions r ! i)) \<and>
    (if i \<noteq> j \<and> room_of r i = room_of r j then True else from_log i (sessions r ! j) = [])"
proof -
  have L: "logs_ok r" using relay_threads.reach_inv [OF assms(1)] by (simp add: relay_inv_def)
  have "from_log i (sessions r ! j) = []" if "\<not> (i \<noteq> j \<and> room_of r i = room_of r j)"
    using L assms(3) that by (force simp: logs_ok_def from_log_def filter_empty_conv)
  with relay_in_order [OF assms] show ?thesis by simp
qed

text \<open>The steps of one round of session \<open>i\<close> when all of its \<open>n\<close> writes succeed.\<close>

definition broadcast_acts :: "nat \<Rightarrow> nat \<Rightarrow> relay_act list" where
  "broadcast_acts i n =
     Collect i # concat (replicate n [StartWrite i, FinishWrite i True]) @ [EndRound i]"

lemma one_write:
  assumes "\<not> stopped r" and i: "i < length (sessions r)" "phase_at r i = Sending f ps k" and k: "k < length ps"
    and p: "ps ! k < length (sessions r)" "ps ! k \<noteq> i"
  obtains r' where "run relay_step r [StartWrite i, FinishWrite i True] r'" and "\<not> stopped r'"
    and "length (sessions r') = length (sessions r)" and "phase_at r' i = Sending f ps (Suc k)"
    and "\<And>j. j < length (sessions r) \<Longrightarrow> ss_out (sessions r' ! j) =
           ss_out (sessions r ! j) @ (if j = ps ! k then [(i, f)] else [])"
proof
  let ?m = "set_phase r i (Writing f ps k)"
  let ?r' = "set_phase (set_session ?m (ps ! k) (\<lambda>p. p\<lparr>ss_out := ss_out p @ [(i, f)]\<rparr>)) i (Sending f ps (k + 1))"
  have "relay_step r (StartWrite i) ?m" using assms by (auto simp: relay_step_simps)
  moreover have "relay_step ?m (FinishWrite i True) ?r'" using assms by (auto simp: relay_step_simps)
  ultimately show "run relay_step r [StartWrite i, FinishWrite i True] ?r'" by blast
qed (use assms in \<open>auto simp: nth_update\<close>)

lemma writes_run:
  assumes "\<not> stopped r" and "i < length (sessions r)" and "phase_at r i = Sending f ps k"
    and "length ps = k + m" and "distinct ps" and "\<forall>p \<in> set ps. p < length (sessions r) \<and> p \<noteq> i"
  shows "\<exists>r'. run relay_step r (concat (replicate m [StartWrite i, FinishWrite i True])) r' \<and> \<not> stopped r' \<and>
    length (sessions r') = length (sessions r) \<and> phase_at r' i = Sending f ps (length ps) \<and>
    (\<forall>j < length (sessions r). ss_out (sessions r' ! j) =
       ss_out (sessions r ! j) @ (if j \<in> set (drop k ps) then [(i, f)] else []))"
  using assms
proof (induction m arbitrary: r k)
  case 0
  then show ?case by (intro exI [of _ r]) auto
next
  case (Suc m)
  have k: "k < length ps" using Suc.prems(4) by simp
  then have p: "ps ! k < length (sessions r)" "ps ! k \<noteq> i" using Suc.prems(6) by (auto dest: nth_mem)
  obtain r1 where r1: "run relay_step r [StartWrite i, FinishWrite i True] r1" "\<not> stopped r1"
    "length (sessions r1) = length (sessions r)" "phase_at r1 i = Sending f ps (Suc k)"
    "\<And>j. j < length (sessions r) \<Longrightarrow> ss_out (sessions r1 ! j) =
       ss_out (sessions r ! j) @ (if j = ps ! k then [(i, f)] else [])"
    using one_write [OF Suc.prems(1-3) k p] by blast
  obtain r' where r': "run relay_step r1 (concat (replicate m [StartWrite i, FinishWrite i True])) r'"
    "\<not> stopped r'" "length (sessions r') = length (sessions r1)" "phase_at r' i = Sending f ps (length ps)"
    "\<forall>j < length (sessions r1). ss_out (sessions r' ! j) =
       ss_out (sessions r1 ! j) @ (if j \<in> set (drop (Suc k) ps) then [(i, f)] else [])"
    using Suc.IH [of r1 "Suc k"] r1(2-4) Suc.prems by auto
  have "ss_out (sessions r' ! j) = ss_out (sessions r ! j) @ (if j \<in> set (drop k ps) then [(i, f)] else [])"
    if "j < length (sessions r)" for j
  proof -
    have "drop k ps = ps ! k # drop (Suc k) ps" using k by (simp add: Cons_nth_drop_Suc)
    moreover have "ps ! k \<notin> set (drop (Suc k) ps)"
      using set_drop_step [OF k Suc.prems(5)] by simp
    ultimately show ?thesis using that r'(5) r1(3,5) by auto
  qed
  moreover have "run relay_step r (concat (replicate (Suc m) [StartWrite i, FinishWrite i True])) r'"
    using run_append [OF r1(1) r'(1)] by simp
  ultimately show ?case using r'(2-4) r1(3) by auto
qed

text \<open>C23: a session that has read a frame can always finish its round, and when its writes succeed every
  other member of its room gets the frame exactly once and nobody else gets anything.\<close>

theorem relay_broadcast_reaches_room:
  assumes "run relay_step relay_init acts r" and "\<not> stopped r"
    and "i < length (sessions r)" and "phase_at r i = Got f"
  shows "\<exists>r'. run relay_step r (broadcast_acts i (card (members r (room_of r i) - {i}))) r' \<and>
    phase_at r' i = Reading \<and>
    (\<forall>j < length (sessions r). ss_out (sessions r' ! j) =
       ss_out (sessions r ! j) @ (if j \<in> members r (room_of r i) - {i} then [(i, f)] else []))"
proof -
  have R: "rooms_ok r" using relay_threads.reach_inv [OF assms(1)] by (simp add: relay_inv_def)
  let ?ps = "fst (do_run_peers r i)"
  have ps: "set ?ps = members r (room_of r i) - {i}" "distinct ?ps" by (rule peers_members [OF R])+
  let ?c = "set_phase (snd (do_run_peers r i)) i (Sending f ?ps 0)"
  have c: "relay_step r (Collect i) ?c" using assms(2-4) by (auto simp: relay_step_simps)
  have "\<forall>p \<in> set ?ps. p < length (sessions ?c) \<and> p \<noteq> i" using ps(1) by (auto simp: members_def)
  then obtain w where w: "run relay_step ?c (concat (replicate (length ?ps) [StartWrite i, FinishWrite i True])) w"
    "\<not> stopped w" "length (sessions w) = length (sessions r)" "phase_at w i = Sending f ?ps (length ?ps)"
    "\<forall>j < length (sessions r). ss_out (sessions w ! j) =
       ss_out (sessions ?c ! j) @ (if j \<in> set (drop 0 ?ps) then [(i, f)] else [])"
    using writes_run [of ?c i f ?ps 0 "length ?ps"] assms(2,3) ps(2) by auto
  have "relay_step w (EndRound i) (set_phase w i Reading)"
    using w assms(3) by (auto simp: relay_step_simps)
  then have "run relay_step r (broadcast_acts i (length ?ps)) (set_phase w i Reading)"
    unfolding broadcast_acts_def using c w(1) by (auto intro: run_append)
  moreover have "length ?ps = card (members r (room_of r i) - {i})"
    using ps distinct_card by metis
  moreover have "\<forall>j < length (sessions r). ss_out (sessions (set_phase w i Reading) ! j) =
      ss_out (sessions r ! j) @ (if j \<in> members r (room_of r i) - {i} then [(i, f)] else [])"
    using w(3,5) ps(1) assms(3) by (auto simp: nth_update)
  ultimately show ?thesis
    using w(3) assms(3) by (intro exI [of _ "set_phase w i Reading"]) auto
qed

section \<open>Two writes at once\<close>

text \<open>The session whose socket the thread of session \<open>i\<close> is writing to.\<close>

definition writing_to :: "relay \<Rightarrow> nat \<Rightarrow> nat option" where
  "writing_to r i = (case phase_of r i of Some (Writing f ps n) \<Rightarrow> Some (ps ! n) | _ \<Rightarrow> None)"

lemma writing_to_Some:
  "writing_to r i = Some p \<longleftrightarrow>
     i < length (sessions r) \<and> (\<exists>f ps n. phase_at r i = Writing f ps n \<and> p = ps ! n)"
  by (auto simp: writing_to_def phase_of_def split: phase.splits)

text \<open>Two threads write to one socket at once only when three different sessions share a room.\<close>

theorem write_race_needs_three:
  assumes "run relay_step relay_init acts r" and "writing_to r i = Some p" and "writing_to r j = Some p"
    and "i \<noteq> j"
  shows "i \<noteq> p \<and> j \<noteq> p \<and> room_of r i = room_of r p \<and> room_of r j = room_of r p"
proof -
  have "rounds_ok r" using relay_threads.reach_inv [OF assms(1)] by (simp add: relay_inv_def)
  then have "p \<noteq> k \<and> room_of r p = room_of r k" if w: "writing_to r k = Some p" for k
  proof -
    obtain f ps n where k: "k < length (sessions r)" "phase_at r k = Writing f ps n" "p = ps ! n"
      using w unfolding writing_to_Some by blast
    then have "round_ok r k (sessions r ! k)" using \<open>rounds_ok r\<close> by (simp add: rounds_ok_def)
    with k show ?thesis by (auto simp: round_ok_def)
  qed
  with assms(2,3) show ?thesis by metis
qed

text \<open>Runs by evaluation.\<close>

fun relay_exec :: "relay \<Rightarrow> relay_act list \<Rightarrow> relay option" where
  "relay_exec r [] = Some r"
| "relay_exec r (a # acts) =
     (if stopped r then None else case relay_next r a of None \<Rightarrow> None | Some r' \<Rightarrow> relay_exec r' acts)"

lemma relay_exec_run: "relay_exec r acts = Some r' \<Longrightarrow> run relay_step r acts r'"
proof (induction acts arbitrary: r)
  case (Cons a acts)
  then obtain r1 where "\<not> stopped r" "relay_next r a = Some r1" "relay_exec r1 acts = Some r'"
    by (auto split: if_splits option.splits)
  with Cons.IH show ?case by (auto simp: relay_step_def)
qed simp

definition upgrade_request :: "string \<Rightarrow> http_request" where
  "upgrade_request target = \<lparr>rq_is_get = True, rq_target = target, rq_upgrade = True, rq_accept_ok = True,
     rq_write_ok = True\<rparr>"

definition race_acts :: "relay_act list" where
  "race_acts = replicate 3 (Request (upgrade_request ''/ws'')) @ [Join 0, Join 1, Join 2,
     Frame 0 [1], Frame 1 [2], Collect 0, Collect 1,
     StartWrite 0, FinishWrite 0 True, StartWrite 0, StartWrite 1, FinishWrite 1 True, StartWrite 1]"

lemma race_run:
  "case relay_exec relay_init race_acts of
     None \<Rightarrow> False | Some r \<Rightarrow> writing_to r 0 = Some 2 \<and> writing_to r 1 = Some 2"
  by code_simp

text \<open>With three sessions in a room the relay reaches a state in which two threads write to the same
  WebSocket stream at once: nothing but the table is protected by the mutex.\<close>

theorem relay_write_race:
  "\<exists>acts r. run relay_step relay_init acts r \<and> writing_to r 0 = Some 2 \<and> writing_to r 1 = Some 2"
proof -
  obtain r where "relay_exec relay_init race_acts = Some r" "writing_to r 0 = Some 2" "writing_to r 1 = Some 2"
    using race_run by (auto split: option.splits)
  then show ?thesis using relay_exec_run by blast
qed

section \<open>The end of the process\<close>

text \<open>A single request that the relay answers with a plain HTTP response ends the whole process when the
  response cannot be written; afterwards no thread makes another step.\<close>

theorem failed_reply_stops_relay:
  assumes "\<not> stopped r" and "\<not> rq_write_ok req"
    and "\<not> (rq_upgrade req \<and> starts_with ''/ws'' (rq_target req))"
  shows "relay_step r (Request req) (r\<lparr>stopped := True\<rparr>) \<and>
    (\<forall>a r'. \<not> relay_step (r\<lparr>stopped := True\<rparr>) a r')"
proof -
  have "do_http req = Terminated"
    using assms(2,3) by (auto simp: do_http_def http_write_def starts_with_def Let_def)
  then show ?thesis using assms(1) by (simp add: relay_step_def)
qed

end
