(* ===== verification/Relay_Main.thy ===== *)
theory Relay_Main
  imports Relay_Props
begin

text \<open>
  \<open>main\<close> of \<^verbatim>\<open>relay_server.cpp\<close> around the threads of Relay: the acceptor, a thread for every connection, and the
  end of the process when \<open>accept\<close> throws. The system gives the process \<open>limit\<close> sockets for its connections.
\<close>

section \<open>The process\<close>

datatype main_at = Binding | Accepting | Exited int

text \<open>\<open>rp_reading\<close> counts the threads of \<open>do_http\<close> that are in \<open>http::read\<close>, which has no time limit.\<close>

record relay_process =
  rp_main :: main_at
  rp_reading :: nat
  rp_relay :: relay

definition main_init :: relay_process where
  "main_init = \<lparr>rp_main = Binding, rp_reading = 0, rp_relay = relay_init\<rparr>"

text \<open>A connection has its socket until \<open>do_http\<close> returns, or until its session object is destroyed.\<close>

definition open_sockets :: "relay_process \<Rightarrow> nat" where
  "open_sockets p = rp_reading p +
     length (filter (\<lambda>i. \<not> expired (rp_relay p) i) [0..<length (sessions (rp_relay p))])"

datatype main_act = Bind bool | Accept | Inside relay_act

text \<open>The request of a connection ends its read.\<close>

fun main_next :: "nat \<Rightarrow> relay_process \<Rightarrow> main_act \<Rightarrow> relay_process option" where
  "main_next limit p (Bind ok) =
     (if rp_main p = Binding then Some (p\<lparr>rp_main := (if ok then Accepting else Exited 1)\<rparr>) else None)"
| "main_next limit p Accept =
     (if rp_main p \<noteq> Accepting then None
      else if open_sockets p < limit then Some (p\<lparr>rp_reading := rp_reading p + 1\<rparr>)
      else Some (p\<lparr>rp_main := Exited 1\<rparr>))"
| "main_next limit p (Inside (Request req)) =
     (if rp_main p \<noteq> Accepting \<or> rp_reading p = 0 then None
      else map_option (\<lambda>r. p\<lparr>rp_reading := rp_reading p - 1, rp_relay := r\<rparr>) (relay_next (rp_relay p) (Request req)))"
| "main_next limit p (Inside a) =
     (if rp_main p \<noteq> Accepting then None else map_option (\<lambda>r. p\<lparr>rp_relay := r\<rparr>) (relay_next (rp_relay p) a))"

definition main_step :: "nat \<Rightarrow> relay_process \<Rightarrow> main_act \<Rightarrow> relay_process \<Rightarrow> bool" where
  "main_step limit p a p' \<longleftrightarrow> \<not> stopped (rp_relay p) \<and> main_next limit p a = Some p'"

section \<open>The relay in it\<close>

fun inside :: "main_act list \<Rightarrow> relay_act list" where
  "inside [] = []"
| "inside (Inside a # acts) = a # inside acts"
| "inside (_ # acts) = inside acts"

lemma main_step_inside:
  assumes "main_step limit p a p'"
  shows "run relay_step (rp_relay p) (inside [a]) (rp_relay p')"
proof (cases a)
  case (Inside b)
  have "relay_step (rp_relay p) b (rp_relay p')"
    using assms unfolding Inside by (cases b) (auto simp: main_step_def relay_step_def split: if_splits)
  then show ?thesis by (auto simp: Inside)
qed (use assms in \<open>auto simp: main_step_def split: if_splits\<close>)

lemma main_run_inside:
  "run (main_step limit) p acts p' \<Longrightarrow> run relay_step (rp_relay p) (inside acts) (rp_relay p')"
proof (induction rule: run.induct)
  case (run_Cons p a p1 acts p')
  have "inside (a # acts) = inside [a] @ inside acts" by (cases a) simp_all
  with run_append [OF main_step_inside [OF run_Cons.hyps(1)] run_Cons.IH] show ?case by simp
qed simp

text \<open>Every state of the process is one of the relay that Relay-Props describes.\<close>

lemma main_reach: "run (main_step limit) main_init acts p \<Longrightarrow> run relay_step relay_init (inside acts) (rp_relay p)"
  using main_run_inside [of limit main_init acts p] by (simp add: main_init_def)

section \<open>The end of the process\<close>

lemma accept_run:
  assumes "rp_main p = Accepting" and "\<not> stopped (rp_relay p)"
  shows "n \<le> limit - open_sockets p \<Longrightarrow> run (main_step limit) p (replicate n Accept) (p\<lparr>rp_reading := rp_reading p + n\<rparr>)"
  using assms
proof (induction n arbitrary: p)
  case (Suc n)
  let ?p = "p\<lparr>rp_reading := rp_reading p + 1\<rparr>"
  have "main_step limit p Accept ?p" using Suc.prems by (simp add: main_step_def)
  moreover have "open_sockets ?p = open_sockets p + 1" by (simp add: open_sockets_def)
  then have "run (main_step limit) ?p (replicate n Accept) (?p\<lparr>rp_reading := rp_reading ?p + n\<rparr>)"
    using Suc.prems by (intro Suc.IH) simp_all
  ultimately show ?case by auto
qed simp

text \<open>C25: the relay ends, with all its sessions, as soon as connections use up the sockets that the system gives it: whatever its
  state, one more than the free sockets is enough, and none of them needs to send a byte. Up to there
  every state is one of the relay's threads alone.\<close>

theorem idle_connections_stop_relay:
  assumes "run (main_step limit) main_init acts p" and "rp_main p = Accepting" and "\<not> stopped (rp_relay p)"
  shows "\<exists>p'. run (main_step limit) p (replicate (limit - open_sockets p + 1) Accept) p' \<and> rp_main p' = Exited 1 \<and>
    rp_relay p' = rp_relay p \<and> (\<nexists>a p''. main_step limit p' a p'') \<and> run relay_step relay_init (inside acts) (rp_relay p')"
proof -
  let ?n = "limit - open_sockets p"
  let ?p = "p\<lparr>rp_reading := rp_reading p + ?n\<rparr>"
  have full: "\<not> open_sockets ?p < limit" by (simp add: open_sockets_def)
  have "main_step limit ?p Accept (?p\<lparr>rp_main := Exited 1\<rparr>)"
    using full assms(2,3) by (simp add: main_step_def)
  then have "run (main_step limit) ?p [Accept] (?p\<lparr>rp_main := Exited 1\<rparr>)" by blast
  from run_append [OF accept_run [OF assms(2,3) order.refl] this]
  have "run (main_step limit) p (replicate (?n + 1) Accept) (?p\<lparr>rp_main := Exited 1\<rparr>)"
    by (simp add: replicate_append_same)
  moreover have "\<not> main_step limit (?p\<lparr>rp_main := Exited 1\<rparr>) a p''" for a p''
    by (cases "(limit, ?p\<lparr>rp_main := Exited 1\<rparr>, a)" rule: main_next.cases) (auto simp: main_step_def)
  ultimately show ?thesis using main_reach [OF assms(1)] by (intro exI [of _ "?p\<lparr>rp_main := Exited 1\<rparr>"]) auto
qed

end
