(* ===== verification/Relay_Witnesses.thy ===== *)
theory Relay_Witnesses
  imports Relay_Main
begin

text \<open>A concrete run of the relay with three clients in one room, and the properties of the relay on it.\<close>

definition race_state :: relay where
  "race_state = the (relay_exec relay_init race_acts)"

lemma race_state_run: "run relay_step relay_init race_acts race_state"
proof -
  obtain r where "relay_exec relay_init race_acts = Some r"
    using race_run by (auto split: option.splits)
  then show ?thesis using relay_exec_run [of relay_init race_acts r] by (simp add: race_state_def)
qed

lemma race_state_facts:
  "length (sessions race_state) = 3" "writing_to race_state 0 = Some 2" "writing_to race_state 1 = Some 2"
  by code_simp+

text \<open>The same run up to the first frame.\<close>

definition got_state :: relay where
  "got_state = the (relay_exec relay_init (take 7 race_acts))"

lemma got_state_run: "run relay_step relay_init (take 7 race_acts) got_state"
proof -
  have "relay_exec relay_init (take 7 race_acts) \<noteq> None" by code_simp
  then show ?thesis using relay_exec_run [of relay_init "take 7 race_acts"] by (auto simp: got_state_def)
qed

lemma got_state_facts:
  "\<not> stopped got_state" "length (sessions got_state) = 3" "phase_at got_state 0 = Got [1]"
  by code_simp+

lemma relay_port_wraps_witness:
  "map_option unat (relay_port (''relay_server'' # to_string 70000 # [])) = Some 4464"
  using relay_port_wraps [of 70000 "''relay_server''" "[]"] by simp

lemma relay_rooms_exact_witness:
  "case g_rooms race_state ''default'' of
      None \<Rightarrow> members race_state ''default'' = {}
    | Some vec \<Rightarrow> vec \<noteq> [] \<and> distinct vec \<and> set vec = members race_state ''default'' \<and>
        list_all (\<lambda>w. \<not> expired race_state w) vec"
  by (rule relay_rooms_exact [OF race_state_run])

lemma relay_refines_rooms_witness:
  "run spec_step \<lparr>rs_names = [], rs_members = (\<lambda>_. {}), rs_round = (\<lambda>_. Idle), rs_out = (\<lambda>_. [])\<rparr>
     race_acts (abs_relay race_state)"
  by (rule relay_refines_rooms [OF race_state_run])

lemma relay_delivers_in_order_witness:
  "subseq (from_log 0 (sessions race_state ! 1)) (ss_in (sessions race_state ! 0))"
  using relay_delivers_in_order [OF race_state_run, of 0 1] race_state_facts(1) by simp

lemma relay_broadcast_reaches_room_witness:
  "\<exists>r'. run relay_step got_state
     (broadcast_acts 0 (card (members got_state (room_of got_state 0) - {0}))) r' \<and> phase_at r' 0 = Reading"
  using relay_broadcast_reaches_room [OF got_state_run got_state_facts(1), of 0 "[1]"] got_state_facts(2,3)
  by auto

lemma write_race_needs_three_witness:
  "(0 :: nat) \<noteq> 2 \<and> (1 :: nat) \<noteq> 2 \<and> room_of race_state 0 = room_of race_state 2 \<and>
     room_of race_state 1 = room_of race_state 2"
  by (rule write_race_needs_three [OF race_state_run race_state_facts(2,3)]) simp

lemma failed_reply_stops_relay_witness:
  "relay_step relay_init (Request \<lparr>rq_is_get = True, rq_target = ''/health'', rq_upgrade = False,
     rq_accept_ok = True, rq_write_ok = False\<rparr>) (relay_init\<lparr>stopped := True\<rparr>)"
  by (rule conjunct1 [OF failed_reply_stops_relay]) (simp_all add: relay_init_def)

text \<open>One client has joined when the idle connections come.\<close>

definition main_acts :: "main_act list" where
  "main_acts = [Bind True, Accept, Inside (Request (upgrade_request ''/ws'')), Inside (Join 0)]"

definition main_joined :: relay_process where
  "main_joined = \<lparr>rp_main = Accepting, rp_reading = 0, rp_relay = the (relay_exec relay_init [Request (upgrade_request ''/ws''), Join 0])\<rparr>"

lemma main_joined_facts:
  "\<not> stopped (rp_relay main_joined)" "open_sockets main_joined = 1" "sessions (rp_relay main_joined) \<noteq> []"
  by code_simp+

lemma main_joined_run: "run (main_step 3) main_init main_acts main_joined"
proof -
  have "relay_exec relay_init [Request (upgrade_request ''/ws''), Join 0] \<noteq> None" by code_simp
  then obtain r where r: "relay_exec relay_init [Request (upgrade_request ''/ws''), Join 0] = Some r" by blast
  then obtain r1 where "relay_next relay_init (Request (upgrade_request ''/ws'')) = Some r1" "\<not> stopped r1"
    "relay_next r1 (Join 0) = Some r"
    by (auto split: if_splits option.splits simp del: relay_next.simps)
  then show ?thesis
    using r by (simp add: main_acts_def main_joined_def run_Cons_simp main_step_def main_init_def open_sockets_def relay_init_def
        del: relay_next.simps)
qed

lemma idle_connections_stop_relay_witness:
  "\<exists>p. run (main_step 3) main_joined [Accept, Accept, Accept] p \<and> rp_main p = Exited 1 \<and> sessions (rp_relay p) \<noteq> []"
  using idle_connections_stop_relay [OF main_joined_run] main_joined_facts
  by (auto simp: main_joined_def numeral_3_eq_3)

end
