(* ===== verification/Pins.thy ===== *)
theory Pins
  imports Ws_Url
begin

text \<open>
  The fingerprints the command line client remembers in \<^verbatim>\<open>pins.txt\<close> (lines 97 to 124 of
  \<^verbatim>\<open>relay_cli.cpp\<close>): the text file, the lambdas \<open>load_pin\<close> and \<open>save_pin\<close>, and the decision taken on
  them, with the contract of a store of first values as a locale.
\<close>

section \<open>The file\<close>

text \<open>The words of a text in the order \<open>f >> s\<close> reads them; \<open>cur\<close> is the word being read.\<close>

fun words_acc :: "string \<Rightarrow> string \<Rightarrow> string list" where
  "words_acc cur [] = (if cur = [] then [] else [cur])"
| "words_acc cur (c # s) =
     (if is_space c then (if cur = [] then [] else [cur]) @ words_acc [] s else words_acc (cur @ [c]) s)"

definition words :: "string \<Rightarrow> string list" where
  "words s = words_acc [] s"

text \<open>\<open>while (f >> k >> v) { if (k == key) return v; }\<close> and the loop of \<open>save_pin\<close>.\<close>

fun load_loop :: "string \<Rightarrow> string list \<Rightarrow> string" where
  "load_loop key (k # v # ws) = (if k = key then v else load_loop key ws)"
| "load_loop key _ = []"

fun exists_loop :: "string \<Rightarrow> string list \<Rightarrow> bool" where
  "exists_loop key (k # v # ws) = (if k = key then True else exists_loop key ws)"
| "exists_loop key _ = False"

text \<open>\<open>None\<close> is a file that cannot be opened for reading.\<close>

definition load_pin :: "string \<Rightarrow> string option \<Rightarrow> string" where
  "load_pin key pf = (case pf of None \<Rightarrow> [] | Some text \<Rightarrow> load_loop key (words text))"

text \<open>\<open>writable\<close>: the file can be opened for appending; when it cannot, nothing is reported.\<close>

definition save_pin :: "bool \<Rightarrow> string \<Rightarrow> string \<Rightarrow> string option \<Rightarrow> string option" where
  "save_pin writable key val pf =
     (let exists = (case pf of None \<Rightarrow> False | Some text \<Rightarrow> exists_loop key (words text)) in
      if \<not> exists \<and> writable
      then Some ((case pf of None \<Rightarrow> [] | Some text \<Rightarrow> text) @ key @ '' '' @ val @ [CHR 0x0A])
      else pf)"

definition tofu_key :: "string \<Rightarrow> string \<Rightarrow> string" where
  "tofu_key relay room = url_host relay @ ''#'' @ room"

text \<open>\<open>False\<close> is the abort with exit code 1.\<close>

definition tofu_check :: "bool \<Rightarrow> string \<Rightarrow> string \<Rightarrow> string option \<Rightarrow> bool \<times> string option" where
  "tofu_check writable key peer_fp pf =
     (let pinned = load_pin key pf in
      if pinned \<noteq> [] \<and> pinned \<noteq> peer_fp then (False, pf)
      else (True, if pinned = [] then save_pin writable key peer_fp pf else pf))"

section \<open>The contract\<close>

text \<open>
  A store that keeps the first value given for a key. \<open>attempts\<close> makes the decision for one peer after
  another; \<open>first_values\<close> says what it should be.
\<close>

fun attempts :: "('k \<Rightarrow> 'v \<Rightarrow> 'f \<Rightarrow> bool \<times> 'f) \<Rightarrow> ('k \<times> 'v) list \<Rightarrow> 'f \<Rightarrow> bool list \<times> 'f" where
  "attempts check [] f = ([], f)"
| "attempts check ((k, v) # xs) f =
     (case check k v f of (ok, f') \<Rightarrow> (case attempts check xs f' of (oks, f'') \<Rightarrow> (ok # oks, f'')))"

fun first_values :: "('k \<Rightarrow> 'v option) \<Rightarrow> ('k \<times> 'v) list \<Rightarrow> bool list" where
  "first_values m [] = []"
| "first_values m ((k, v) # xs) =
     (case m k of
        None \<Rightarrow> True # first_values (m(k \<mapsto> v)) xs
      | Some u \<Rightarrow> (u = v) # first_values m xs)"

locale pin_store =
  fixes load :: "'k \<Rightarrow> 'f \<Rightarrow> 'v option"
    and save :: "'k \<Rightarrow> 'v \<Rightarrow> 'f \<Rightarrow> 'f"
    and wf :: "'f \<Rightarrow> bool"
    and okk :: "'k \<Rightarrow> bool"
    and okv :: "'v \<Rightarrow> bool"
  assumes save_wf: "wf f \<Longrightarrow> okk k \<Longrightarrow> okv v \<Longrightarrow> load k f = None \<Longrightarrow> wf (save k v f)"
    and load_save: "wf f \<Longrightarrow> okk k \<Longrightarrow> okv v \<Longrightarrow> load k f = None \<Longrightarrow> load k (save k v f) = Some v"
    and load_save_other: "wf f \<Longrightarrow> okk k \<Longrightarrow> okv v \<Longrightarrow> load k f = None \<Longrightarrow> okk k' \<Longrightarrow> k' \<noteq> k \<Longrightarrow>
      load k' (save k v f) = load k' f"
begin

lemma attempts_first_values:
  assumes "\<And>k v f. check k v f = (case load k f of Some u \<Rightarrow> (u = v, f) | None \<Rightarrow> (True, save k v f))"
  shows "wf f \<Longrightarrow> list_all (\<lambda>(k, v). okk k \<and> okv v) xs \<Longrightarrow> (\<And>k. okk k \<Longrightarrow> m k = load k f) \<Longrightarrow>
    fst (attempts check xs f) = first_values m xs"
proof (induction xs arbitrary: f m)
  case (Cons x xs)
  obtain k v where x: "x = (k, v)" by (cases x)
  with Cons.prems have ok: "okk k" "okv v" "list_all (\<lambda>(k, v). okk k \<and> okv v) xs" by auto
  show ?case
  proof (cases "load k f")
    case None
    have "(m(k \<mapsto> v)) k' = load k' (save k v f)" if "okk k'" for k'
      using that None ok Cons.prems(1,3) by (cases "k' = k") (simp_all add: load_save load_save_other)
    then have "fst (attempts check xs (save k v f)) = first_values (m(k \<mapsto> v)) xs"
      using Cons.IH [OF save_wf [OF Cons.prems(1) ok(1,2) None] ok(3)] by blast
    moreover have "m k = None" using None ok(1) Cons.prems(3) by simp
    ultimately show ?thesis
      using None x by (cases "attempts check xs (save k v f)") (simp add: assms [of k v f])
  next
    case (Some u)
    have "fst (attempts check xs f) = first_values m xs"
      using Cons.IH [OF Cons.prems(1) ok(3)] Cons.prems(3) by blast
    moreover have "m k = Some u" using Some ok(1) Cons.prems(3) by simp
    ultimately show ?thesis
      using Some x by (cases "attempts check xs f") (simp add: assms [of k v f])
  qed
qed simp

end

section \<open>The words of a file that grows\<close>

lemma words_acc_space: "is_space c \<Longrightarrow> words_acc cur (a @ c # b) = words_acc cur a @ words_acc [] b"
  by (induction a arbitrary: cur) auto

definition token :: "string \<Rightarrow> bool" where
  "token s \<longleftrightarrow> s \<noteq> [] \<and> list_all (\<lambda>c. \<not> is_space c) s"

lemma words_acc_token: "list_all (\<lambda>c. \<not> is_space c) s \<Longrightarrow> cur @ s \<noteq> [] \<Longrightarrow> words_acc cur s = [cur @ s]"
  by (induction s arbitrary: cur) auto

lemma words_token: "token s \<Longrightarrow> words s = [s]"
  by (simp add: words_def token_def words_acc_token)

lemma words_space: "is_space c \<Longrightarrow> words (a @ c # b) = words a @ words b"
  by (simp add: words_def words_acc_space)

lemma words_Nil [simp]: "words [] = []"
  by (simp add: words_def)

text \<open>Every word a file holds is a token, so a key with white space is never found.\<close>

lemma words_acc_tokens:
  "list_all (\<lambda>c. \<not> is_space c) cur \<Longrightarrow> list_all token (words_acc cur s)"
  by (induction s arbitrary: cur) (auto simp: token_def)

lemma load_loop_in: "load_loop key ws \<noteq> [] \<Longrightarrow> key \<in> set ws"
  by (induction key ws rule: load_loop.induct) (auto split: if_splits)

lemma load_pin_token: "load_pin key pf \<noteq> [] \<Longrightarrow> token key"
proof (cases pf)
  case (Some s)
  assume "load_pin key pf \<noteq> []"
  then have "key \<in> set (words s)" using Some load_loop_in by (simp add: load_pin_def)
  moreover have "list_all token (words s)" by (simp add: words_def words_acc_tokens)
  ultimately show ?thesis by (simp add: list_all_iff)
qed (simp add: load_pin_def)

text \<open>A well-formed file: whole pairs, and a white space character at the end.\<close>

fun file_text :: "string option \<Rightarrow> string" where
  "file_text None = []"
| "file_text (Some text) = text"

definition pins_wf :: "string option \<Rightarrow> bool" where
  "pins_wf pf \<longleftrightarrow> even (length (words (file_text pf))) \<and>
     (file_text pf = [] \<or> is_space (last (file_text pf)))"

lemma words_append:
  "s = [] \<or> is_space (last s) \<Longrightarrow> words (s @ t) = words s @ words t"
proof (cases s rule: rev_cases)
  case (snoc a c)
  assume "s = [] \<or> is_space (last s)"
  with snoc have c: "is_space c" by simp
  show ?thesis using words_space [OF c, of a t] words_space [OF c, of a "[]"] snoc by simp
qed simp

lemma load_pin_words: "load_pin key pf = load_loop key (words (file_text pf))"
  by (cases pf) (simp_all add: load_pin_def)

lemma load_loop_append:
  "even (length ws) \<Longrightarrow> load_loop key (ws @ ws') =
     (if exists_loop key ws then load_loop key ws else load_loop key ws')"
  by (induction key ws rule: load_loop.induct) auto

lemma exists_loop_load:
  "list_all (\<lambda>w. w \<noteq> []) ws \<Longrightarrow> exists_loop key ws \<longleftrightarrow> load_loop key ws \<noteq> []"
  by (induction key ws rule: load_loop.induct) auto

lemma words_nonempty: "list_all (\<lambda>w. w \<noteq> []) (words s)"
  using words_acc_tokens [of "[]" s] by (auto simp: words_def token_def list_all_iff)

lemma exists_pin: "exists_loop key (words (file_text pf)) \<longleftrightarrow> load_pin key pf \<noteq> []"
  by (simp add: exists_loop_load [OF words_nonempty] load_pin_words)

lemma is_space_chars [simp]: "is_space CHR '' ''" "is_space CHR 0x0A"
  by (simp_all add: is_space_def)

text \<open>What appending a line adds to the words of a well-formed file.\<close>

lemma save_text:
  "load_pin key pf = [] \<Longrightarrow> save_pin True key val pf = Some (file_text pf @ key @ '' '' @ val @ [CHR 0x0A])"
  using exists_pin [of key pf] by (cases pf) (auto simp: save_pin_def)

lemma save_words:
  assumes "pins_wf pf" and "load_pin key pf = []"
  shows "words (file_text (save_pin True key val pf)) = words (file_text pf) @ words key @ words val"
proof -
  have "words (key @ '' '' @ val @ [CHR 0x0A]) = words key @ words val"
    using words_space [of "CHR '' ''" key "val @ [CHR 0x0A]"] words_space [of "CHR 0x0A" val "[]"] by simp
  with assms show ?thesis
    by (simp add: save_text pins_wf_def words_append)
qed

definition pin_of :: "string \<Rightarrow> string option \<Rightarrow> string option" where
  "pin_of key pf = (if load_pin key pf = [] then None else Some (load_pin key pf))"

lemma load_after_save:
  assumes "pins_wf pf" and "load_pin k pf = []" and "token k" and "token v"
  shows "load_pin k' (save_pin True k v pf) = (if k' = k then v else load_pin k' pf)"
proof -
  have "even (length (words (file_text pf)))" using assms(1) by (simp add: pins_wf_def)
  from load_loop_append [OF this] show ?thesis
    using assms exists_pin [of k' pf] exists_pin [of k pf]
    by (auto simp: load_pin_words [of k' "save_pin True k v pf"] save_words words_token
        load_pin_words [of k' pf])
qed

interpretation pins: pin_store pin_of "save_pin True" pins_wf token token
proof
  fix f k v
  assume ok: "pins_wf f" "token k" "token v" and "pin_of k f = None"
  then have none: "load_pin k f = []" by (simp add: pin_of_def split: if_splits)
  show "pins_wf (save_pin True k v f)"
    unfolding pins_wf_def save_words [OF ok(1) none]
    using ok by (simp add: words_token pins_wf_def save_text [OF none])
  show "pin_of k (save_pin True k v f) = Some v"
    using load_after_save [OF ok(1) none ok(2,3)] ok(3) by (simp add: pin_of_def token_def)
  show "pin_of k' (save_pin True k v f) = pin_of k' f" if "token k'" "k' \<noteq> k" for k'
    using load_after_save [OF ok(1) none ok(2,3)] that by (simp add: pin_of_def)
qed

lemma tofu_check_store:
  "tofu_check True k v f = (case pin_of k f of Some u \<Rightarrow> (u = v, f) | None \<Rightarrow> (True, save_pin True k v f))"
  by (simp add: tofu_check_def pin_of_def Let_def)

lemma tofu_blank_key: "\<not> token key \<Longrightarrow> fst (tofu_check writable key fp pf)"
  using load_pin_token [of key pf] by (auto simp: tofu_check_def Let_def)

text \<open>C30: for keys and fingerprints without white space, on a pins file of whole lines that can be written, the client's
  decisions are those of a map that keeps the first fingerprint of each key: a peer is accepted exactly when its key is new
  or its fingerprint is the first one that was accepted for the key, whatever happened for other keys in between. For a key
  with white space, as of a room name with a blank, every peer is accepted, whatever the file holds.\<close>

theorem tofu_keeps_first_pin:
  assumes "pins_wf pf" and "list_all (\<lambda>(key, fp). token key \<and> token fp) peers"
  shows "fst (attempts (tofu_check True) peers pf) = first_values (\<lambda>key. pin_of key pf) peers \<and>
    (\<forall>writable key fp pf'. \<not> token key \<longrightarrow> fst (tofu_check writable key fp pf'))"
  using pins.attempts_first_values [OF tofu_check_store assms, of "\<lambda>key. pin_of key pf"] tofu_blank_key by simp

text \<open>A key with white space in it, as for a room name with a blank, is never found again: every peer is
  accepted, whatever the file holds.\<close>

theorem tofu_blank_key_unchecked:
  assumes "\<not> token (tofu_key relay room)"
  shows "fst (tofu_check writable (tofu_key relay room) fp pf)"
  using assms by (rule tofu_blank_key)

text \<open>Saving a pin for such a key also shifts every later pair of words in the file: a key pinned
  afterwards is not found either, so its peers are not checked.\<close>

theorem tofu_blank_key_hides_later_pins:
  assumes "pins_wf pf" and "token a" and "token b" and "token fp" and "token k" and "token v"
    and "load_pin k pf = []" and "k \<noteq> a" and "k \<noteq> fp"
  shows "load_pin k (save_pin True k v (save_pin True (a @ '' '' @ b) fp pf)) = []"
proof -
  let ?f1 = "save_pin True (a @ '' '' @ b) fp pf"
  have blank: "load_pin (a @ '' '' @ b) pf = []"
    using load_pin_token [of "a @ '' '' @ b" pf] by (auto simp: token_def)
  have "words (a @ '' '' @ b) = [a, b]"
    using words_space [of "CHR '' ''" a b] assms(2,3) by (simp add: words_token)
  then have f1: "words (file_text ?f1) = words (file_text pf) @ [a, b, fp]"
    using save_words [OF assms(1) blank] assms(4) by (simp add: words_token)
  have even: "even (length (words (file_text pf)))" using assms(1) by (simp add: pins_wf_def)
  have absent: "\<not> exists_loop k (words (file_text pf))"
    using exists_pin assms(7) by simp
  have none: "load_pin k ?f1 = []"
    unfolding load_pin_words f1 load_loop_append [OF even] using absent assms(8) by simp
  have last: "file_text ?f1 = [] \<or> is_space (last (file_text ?f1))"
    unfolding save_text [OF blank] by simp
  have "words (k @ '' '' @ v @ [CHR 0x0A]) = [k, v]"
    using words_space [of "CHR '' ''" k "v @ [CHR 0x0A]"] words_space [of "CHR 0x0A" v "[]"] assms(5,6)
    by (simp add: words_token)
  then have f2: "words (file_text (save_pin True k v ?f1)) = words (file_text pf) @ [a, b, fp, k, v]"
    unfolding save_text [OF none] using words_append [OF last] f1 by simp
  show ?thesis
    unfolding load_pin_words f2 load_loop_append [OF even] using absent assms(8,9) by simp
qed

end
