(* ===== verification/Relay_Cli.thy ===== *)
theory Relay_Cli
  imports Handshake Messages Pins
begin

text \<open>
  \<open>main\<close> of \<^verbatim>\<open>relay_cli.cpp\<close>: the arguments, the way to a session that passed the check of the pinned
  fingerprint, and the two threads of the chat. The methods of the WebSocket object \<open>ws\<close> are parameters
  here; \<^verbatim>\<open>beast_ws_transport.cpp\<close> has its own theory.
\<close>

section \<open>Arguments\<close>

record cli_args =
  ca_mode :: string
  ca_relay :: string
  ca_room :: string
  ca_pw :: string
  ca_id_path :: string

text \<open>The \<open>for\<close> loop; \<open>None\<close> is the return after \<open>--help\<close>, the flag is \<open>used_flags\<close>.\<close>

function arg_loop :: "string list \<Rightarrow> cli_args \<Rightarrow> bool \<Rightarrow> (cli_args \<times> bool) option" where
  "arg_loop [] c used = Some (c, used)"
| "arg_loop (a # as) c used =
     (if a = ''--host'' then arg_loop as (c\<lparr>ca_mode := ''host''\<rparr>) True
      else if a = ''--connect'' then arg_loop as (c\<lparr>ca_mode := ''connect''\<rparr>) True
      else if a \<in> {''--relay'', ''-r''} \<and> as \<noteq> [] then arg_loop (tl as) (c\<lparr>ca_relay := hd as\<rparr>) True
      else if a \<in> {''--room'', ''-m''} \<and> as \<noteq> [] then arg_loop (tl as) (c\<lparr>ca_room := hd as\<rparr>) True
      else if a \<in> {''--password'', ''-p''} \<and> as \<noteq> [] then arg_loop (tl as) (c\<lparr>ca_pw := hd as\<rparr>) True
      else if a \<in> {''--id-file'', ''-i''} \<and> as \<noteq> [] then arg_loop (tl as) (c\<lparr>ca_id_path := hd as\<rparr>) True
      else if a \<in> {''--help'', ''-h''} then None
      else arg_loop as c used)"
  by pat_completeness auto
termination
  by (relation "measure (\<lambda>(as, c, used). length as)") auto

datatype cli_command = Usage int | Go cli_args

definition parse_args :: "string list \<Rightarrow> cli_command" where
  "parse_args argv =
     (case arg_loop (tl argv)
             \<lparr>ca_mode = [], ca_relay = [], ca_room = [], ca_pw = [], ca_id_path = ''client.id''\<rparr> False of
        None \<Rightarrow> Usage 0
      | Some (c, used) \<Rightarrow>
         if \<not> used \<and> length argv < 5 then Usage 1
         else
          (let c = (if \<not> used then c\<lparr>ca_mode := argv ! 1, ca_relay := argv ! 2, ca_room := argv ! 3,
                      ca_pw := argv ! 4\<rparr> else c) in
           if ca_mode c \<noteq> ''host'' \<and> ca_mode c \<noteq> ''connect'' then Usage 1
           else if ca_relay c = [] \<or> ca_room c = [] then Usage 1
           else Go c))"

definition cli_flags :: "string set" where
  "cli_flags = {''--host'', ''--connect'', ''--relay'', ''-r'', ''--room'', ''-m'', ''--password'', ''-p'',
     ''--id-file'', ''-i'', ''--help'', ''-h''}"

lemma arg_loop_plain: "a \<notin> cli_flags \<Longrightarrow> arg_loop (a # as) c used = arg_loop as c used"
  by (simp add: cli_flags_def)

lemma arg_loop_flags:
  "arg_loop (''--host'' # as) c used = arg_loop as (c\<lparr>ca_mode := ''host''\<rparr>) True"
  "arg_loop (''--connect'' # as) c used = arg_loop as (c\<lparr>ca_mode := ''connect''\<rparr>) True"
  "arg_loop (''--relay'' # v # as) c used = arg_loop as (c\<lparr>ca_relay := v\<rparr>) True"
  "arg_loop (''--room'' # v # as) c used = arg_loop as (c\<lparr>ca_room := v\<rparr>) True"
  "arg_loop (''--password'' # v # as) c used = arg_loop as (c\<lparr>ca_pw := v\<rparr>) True"
  by simp_all

declare arg_loop.simps(2) [simp del]

text \<open>The form without flags means the same as the form with flags, as long as none of the four arguments
  looks like a flag.\<close>

theorem positional_equals_flags:
  assumes "mode \<in> {''host'', ''connect''}" and "relay \<notin> cli_flags" and "room \<notin> cli_flags" and "pw \<notin> cli_flags"
  shows "parse_args [exe, mode, relay, room, pw] =
    parse_args [exe, ''--'' @ mode, ''--relay'', relay, ''--room'', room, ''--password'', pw]"
proof -
  have "mode \<notin> cli_flags" using assms(1) by (auto simp: cli_flags_def)
  then have "arg_loop [mode, relay, room, pw] c used = Some (c, used)" for c used
    using assms(2-4) by (simp add: arg_loop_plain)
  moreover have "arg_loop [''--'' @ mode, ''--relay'', relay, ''--room'', room, ''--password'', pw] c used =
      Some (c\<lparr>ca_mode := mode, ca_relay := relay, ca_room := room, ca_pw := pw\<rparr>, True)" for c used
    using assms(1) by (elim insertE) (simp_all add: arg_loop_flags)
  ultimately show ?thesis
    by (simp add: parse_args_def)
qed

section \<open>The way to a session\<close>

record 'e cli_ws =
  cw_connect :: "string \<Rightarrow> 'e \<Rightarrow> (exn + bool) \<times> 'e"
  cw_send :: "bytes \<Rightarrow> 'e \<Rightarrow> bool \<times> 'e"
  cw_recv :: "'e \<Rightarrow> bytes option \<times> 'e"
  cw_close :: "'e \<Rightarrow> 'e"

text \<open>The lambdas \<open>send_fn\<close> and \<open>recv_fn\<close>.\<close>

definition cli_send_fn :: "'e cli_ws \<Rightarrow> 'e send_fn" where
  "cli_send_fn W frame e = (case cw_send W frame e of (ok, e') \<Rightarrow> (Inr ok, e'))"

definition cli_recv_fn :: "'e cli_ws \<Rightarrow> 'e recv_fn" where
  "cli_recv_fn W e = (case cw_recv W e of (r, e') \<Rightarrow> (Inr r, e'))"

text \<open>
  How \<open>main\<close> ends before the chat: with an exit code and the last line it prints, or by an exception
  that nobody catches; otherwise with the peer's fingerprint. \<open>pins\<close> is the pins file.
\<close>

datatype cli_end = Exit int string | Uncaught exn | Chatting string

definition cli_start ::
  "('e, 'h) libs \<Rightarrow> 'e cli_ws \<Rightarrow> bool \<Rightarrow> cli_args \<Rightarrow> string \<Rightarrow> 'e engine_world \<Rightarrow> string option
    \<Rightarrow> cli_end \<times> 'e engine_world \<times> string option" where
  "cli_start L W writable c pw w pins =
     (let url = ws_join (ca_relay c) (ca_room c) in
      case loadOrCreateIdentity L (ca_id_path c) pw w of
        (Inl err, w) \<Rightarrow> (Exit 1 (''Identity error: '' @ err), w, pins)
      | (Inr _, w) \<Rightarrow>
       (case callback_io (cw_connect W url) w of
          (Inl e, w) \<Rightarrow> (Uncaught e, w, pins)
        | (Inr False, w) \<Rightarrow> (Exit 1 ''WebSocket connect failed'', w, pins)
        | (Inr True, w) \<Rightarrow>
         (case (if ca_mode c = ''host'' then runServerHandshake L (cli_send_fn W) (cli_recv_fn W) w
                else runClientHandshake L (cli_send_fn W) (cli_recv_fn W) w) of
            (Inl err, w) \<Rightarrow> (Exit 1 (''Handshake failed: '' @ err), w, pins)
          | (Inr peer_fp, w) \<Rightarrow>
             (case tofu_check writable (tofu_key (ca_relay c) (ca_room c)) peer_fp pins of
                (False, pins) \<Rightarrow> (Exit 1 ''  aborting to be safe. Delete pins.txt line to re-pin.'', w, pins)
              | (True, pins) \<Rightarrow> (Chatting peer_fp, w, pins)))))"

text \<open>\<open>stdin\<close> are the lines of the standard input; the password prompt takes the first one.\<close>

definition cli_main ::
  "('e, 'h) libs \<Rightarrow> 'e cli_ws \<Rightarrow> bool \<Rightarrow> string list \<Rightarrow> string list \<Rightarrow> 'e engine_world \<Rightarrow> string option
    \<Rightarrow> cli_end \<times> 'e engine_world \<times> string option" where
  "cli_main L W writable argv stdin w pins =
     (case parse_args argv of
        Usage n \<Rightarrow> (Exit n ''Usage'', w, pins)
      | Go c \<Rightarrow>
         (let pw = (if ca_pw c = [] then (case stdin of [] \<Rightarrow> [] | line # _ \<Rightarrow> line) else ca_pw c) in
          cli_start L W writable c pw w pins))"

lemma parse_args_Go: "parse_args argv = Go c \<Longrightarrow> ca_mode c = ''host'' \<or> ca_mode c = ''connect''"
  by (auto simp: parse_args_def Let_def split: option.splits if_splits)

text \<open>Fingerprints are words of the pins file.\<close>

lemma fingerprint_token: "token (fingerprint_hex P pub)"
proof -
  have "c \<in> set HEX \<Longrightarrow> \<not> is_space c" for c
    by (auto simp: HEX_def is_space_def)
  then have "list_all (\<lambda>c. \<not> is_space c) (fingerprint_hex P pub)"
    using fingerprint_digits [of P pub] by (auto simp: list_all_iff)
  moreover have "fingerprint_hex P pub \<noteq> []" using fingerprint_length [of P pub] by auto
  ultimately show ?thesis by (simp add: token_def)
qed

text \<open>A session, read backwards.\<close>

lemma cli_main_Chatting:
  assumes "cli_main L W writable argv stdin w pins = (Chatting fp, w', pins')"
  obtains c w1 where "parse_args argv = Go c"
    and "ca_mode c = ''host'' \<and> runServerHandshake L (cli_send_fn W) (cli_recv_fn W) w1 = (Inr fp, w') \<or>
         ca_mode c = ''connect'' \<and> runClientHandshake L (cli_send_fn W) (cli_recv_fn W) w1 = (Inr fp, w')"
    and "tofu_check writable (tofu_key (ca_relay c) (ca_room c)) fp pins = (True, pins')"
proof -
  obtain c where c: "parse_args argv = Go c" and "\<exists>pw. cli_start L W writable c pw w pins = (Chatting fp, w', pins')"
    using assms by (auto simp: cli_main_def Let_def split: cli_command.splits)
  then obtain pw where start: "cli_start L W writable c pw w pins = (Chatting fp, w', pins')" by blast
  obtain r1 v1 where v1: "loadOrCreateIdentity L (ca_id_path c) pw w = (r1, v1)" by fastforce
  obtain u where u: "r1 = Inr u" using start v1 by (cases r1) (simp_all add: cli_start_def)
  obtain r2 v2 where v2: "callback_io (cw_connect W (ws_join (ca_relay c) (ca_room c))) v1 = (r2, v2)" by fastforce
  have r2: "r2 = Inr True" using start v1 v2 u by (cases r2) (auto simp: cli_start_def split: bool.splits)
  let ?run = "if ca_mode c = ''host'' then runServerHandshake L (cli_send_fn W) (cli_recv_fn W) v2
      else runClientHandshake L (cli_send_fn W) (cli_recv_fn W) v2"
  obtain r3 v3 where v3: "?run = (r3, v3)" by fastforce
  obtain peer_fp where r3: "r3 = Inr peer_fp" using start v1 v2 v3 u r2 by (cases r3) (simp_all add: cli_start_def)
  obtain ok pins1 where check: "tofu_check writable (tofu_key (ca_relay c) (ca_room c)) peer_fp pins = (ok, pins1)"
    by fastforce
  have "ok \<and> peer_fp = fp \<and> v3 = w' \<and> pins1 = pins'"
    using start v1 v2 v3 u r2 r3 check by (cases ok) (simp_all add: cli_start_def)
  with that [OF c, of v2] parse_args_Go [OF c] v3 r3 check show ?thesis by (auto split: if_splits)
qed

end
