(* ===== verification/Relay_Chat.thy ===== *)
theory Relay_Chat
  imports Relay_Cli Steps
begin

text \<open>
  The chat of \<^verbatim>\<open>relay_cli.cpp\<close>: the loop over the standard input in \<open>main\<close> and the thread \<open>rx\<close>, which
  share the engine, the socket and the flag \<open>running\<close>; and the properties of the whole program.
\<close>

section \<open>One iteration of each loop\<close>

text \<open>The loop over the lines; \<open>Inl\<close> is the message printed before the \<open>break\<close>.\<close>

definition cli_tx ::
  "('e, 'h) libs \<Rightarrow> 'e cli_ws \<Rightarrow> string \<Rightarrow> 'e engine_world \<Rightarrow> (string + unit) \<times> 'e engine_world" where
  "cli_tx L W line w =
     (if line = [] then (Inr (), w)
      else case encryptAndSerializeMessage L line ''cli'' ''peer'' w of
        (Inl err, w) \<Rightarrow> (Inl (''Encrypt failed: '' @ err), w)
      | (Inr frame, w) \<Rightarrow>
         (case cw_send W frame (env w) of (ok, e) \<Rightarrow>
            (if \<not> ok then Inl ''Send failed'' else Inr (), w\<lparr>env := e\<rparr>)))"

datatype rx_line = Peer string | Drop string

text \<open>The body of \<open>rx\<close>; \<open>None\<close> is its \<open>break\<close>.\<close>

definition cli_rx ::
  "('e, 'h) libs \<Rightarrow> 'e cli_ws \<Rightarrow> 'e engine_world \<Rightarrow> rx_line option \<times> 'e engine_world" where
  "cli_rx L W w =
     (case cw_recv W (env w) of
        (None, e) \<Rightarrow> (None, w\<lparr>env := e\<rparr>)
      | (Some frame, e) \<Rightarrow>
         (case parseAndDecryptMessage L frame (w\<lparr>env := e\<rparr>) of
            (Inr plain, w) \<Rightarrow> (Some (Peer plain), w)
          | (Inl err, w) \<Rightarrow> (Some (Drop err), w)))"

section \<open>The two threads\<close>

text \<open>
  Where \<open>main\<close> is: before the test of \<open>running\<close>, in \<open>getline\<close>, after the loop, after \<open>ws.close()\<close> in
  \<open>rx.join()\<close>, returned; where \<open>rx\<close> is: before the test, in \<open>ws.recv\<close>, returned.
\<close>

datatype tx_at = TxTest | TxRead | TxAfter | TxJoin | TxEnd
datatype rx_at = RxTest | RxRead | RxEnd

record 'e chat =
  ch_world :: "'e engine_world"
  ch_running :: bool
  ch_tx :: tx_at
  ch_rx :: rx_at
  ch_printed :: "rx_line list"

definition chat_start :: "'e engine_world \<Rightarrow> 'e chat" where
  "chat_start w = \<lparr>ch_world = w, ch_running = True, ch_tx = TxTest, ch_rx = RxTest, ch_printed = []\<rparr>"

datatype chat_act = TestTx | Line string | Eof | CloseWs | JoinRx | TestRx | RecvFrame

inductive chat_step :: "('e, 'h) libs \<Rightarrow> 'e cli_ws \<Rightarrow> 'e chat \<Rightarrow> chat_act \<Rightarrow> 'e chat \<Rightarrow> bool"
  for L :: "('e, 'h) libs" and W :: "'e cli_ws" where
  test_tx: "ch_tx c = TxTest \<Longrightarrow>
    chat_step L W c TestTx (c\<lparr>ch_tx := (if ch_running c then TxRead else TxAfter)\<rparr>)"
| line: "ch_tx c = TxRead \<Longrightarrow> cli_tx L W l (ch_world c) = (r, w) \<Longrightarrow>
    chat_step L W c (Line l) (c\<lparr>ch_world := w, ch_tx := (case r of Inl m \<Rightarrow> TxAfter | Inr u \<Rightarrow> TxTest)\<rparr>)"
| eof: "ch_tx c = TxRead \<Longrightarrow> chat_step L W c Eof (c\<lparr>ch_tx := TxAfter\<rparr>)"
| close_ws: "ch_tx c = TxAfter \<Longrightarrow>
    chat_step L W c CloseWs (c\<lparr>ch_world := (ch_world c)\<lparr>env := cw_close W (env (ch_world c))\<rparr>,
      ch_running := False, ch_tx := TxJoin\<rparr>)"
| join_rx: "ch_tx c = TxJoin \<Longrightarrow> ch_rx c = RxEnd \<Longrightarrow> chat_step L W c JoinRx (c\<lparr>ch_tx := TxEnd\<rparr>)"
| test_rx: "ch_rx c = RxTest \<Longrightarrow>
    chat_step L W c TestRx
      (if ch_running c then c\<lparr>ch_rx := RxRead\<rparr> else c\<lparr>ch_rx := RxEnd, ch_running := False\<rparr>)"
| recv_frame: "ch_rx c = RxRead \<Longrightarrow> cli_rx L W (ch_world c) = (Some out, w) \<Longrightarrow>
    chat_step L W c RecvFrame (c\<lparr>ch_world := w, ch_rx := RxTest, ch_printed := ch_printed c @ [out]\<rparr>)"
| recv_end: "ch_rx c = RxRead \<Longrightarrow> cli_rx L W (ch_world c) = (None, w) \<Longrightarrow>
    chat_step L W c RecvFrame (c\<lparr>ch_world := w, ch_rx := RxEnd, ch_running := False\<rparr>)"

inductive_cases chat_stepE: "chat_step L W c a c'"

section \<open>What is printed\<close>

text \<open>\<open>p\<close> is what a frame with a valid tag under \<open>key\<close> decrypts to.\<close>

definition authentic_text :: "('e, 'h) libs \<Rightarrow> gcm_cipher \<Rightarrow> bytes \<Rightarrow> string \<Rightarrow> bool" where
  "authentic_text L G key p \<longleftrightarrow>
     (\<exists>frame en m c. parse_envelope (lb_proto L) frame (c_int (length frame)) = Some en \<and>
        parse_chat (lb_proto L) (ev_payload_e2e en) (c_int (length (ev_payload_e2e en))) = Some m \<and>
        length (cm_nonce m) = NONCE_SIZE \<and>
        cm_encrypted_content m = c @ gcm_T G key (cm_nonce m) c \<and>
        p = string_of (gcm_D G key (cm_nonce m) c))"

definition chat_inv :: "('e, 'h) libs \<Rightarrow> gcm_cipher \<Rightarrow> 'e engine_world \<Rightarrow> 'e chat \<Rightarrow> bool" where
  "chat_inv L G w0 c \<longleftrightarrow>
     world.more (ch_world c) = world.more w0 \<and>
     (\<forall>p. Peer p \<in> set (ch_printed c) \<longrightarrow> authentic_text L G (session_key w0) p) \<and>
     (ch_rx c = RxEnd \<or> ch_tx c \<in> {TxJoin, TxEnd} \<longrightarrow> \<not> ch_running c) \<and>
     (ch_tx c = TxEnd \<longrightarrow> ch_rx c = RxEnd)"

lemma cli_tx_more: "world.more (snd (cli_tx L W line w)) = world.more w"
proof (cases "encryptAndSerializeMessage L line ''cli'' ''peer'' w")
  case (Pair r v)
  then have "world.more v = world.more w"
    using encryptAndSerialize_keeps [of L line "''cli''" "''peer''" w] by simp
  with Pair show ?thesis by (auto simp: cli_tx_def split: sum.split prod.split)
qed

lemma cli_rx_more: "world.more (snd (cli_rx L W w)) = world.more w"
proof (cases "cw_recv W (env w)")
  case (Pair r e)
  show ?thesis
  proof (cases r)
    case (Some frame)
    show ?thesis
      using Pair Some parseAndDecrypt_keeps [of L frame "w\<lparr>env := e\<rparr>"]
      by (cases "parseAndDecryptMessage L frame (w\<lparr>env := e\<rparr>)") (auto simp: cli_rx_def split: sum.split)
  qed (use Pair in \<open>simp add: cli_rx_def\<close>)
qed

lemma cli_rx_Peer:
  assumes "gcm_contract (lb_cipher L) view G" and "proto_contract (lb_proto L)"
    and "cli_rx L W w = (Some (Peer p), w')"
  shows "authentic_text L G (session_key w) p"
proof -
  obtain frame e where "cw_recv W (env w) = (Some frame, e)"
    and "parseAndDecryptMessage L frame (w\<lparr>env := e\<rparr>) = (Inr p, w')"
    using assms(3) by (auto simp: cli_rx_def split: prod.splits option.splits sum.splits)
  from accepted_message_tag [OF assms(1,2) this(2)] show ?thesis
    unfolding authentic_text_def by auto
qed

lemma chat_inv_step:
  assumes "gcm_contract (lb_cipher L) view G" and "proto_contract (lb_proto L)"
    and I: "chat_inv L G w0 c" and step: "chat_step L W c a c'"
  shows "chat_inv L G w0 c'"
proof -
  have key: "session_key (ch_world c) = session_key w0"
    using I more_fields(3) by (auto simp: chat_inv_def)
  from step show ?thesis
  proof (cases rule: chat_step.cases)
    case (line l r w)
    then show ?thesis
      using I cli_tx_more [of L W l "ch_world c"] by (auto simp: chat_inv_def split: sum.split)
  next
    case (recv_frame out w)
    then show ?thesis
      using I cli_rx_more [of L W "ch_world c"] cli_rx_Peer [OF assms(1,2), of W "ch_world c"] key
      by (auto simp: chat_inv_def)
  next
    case (recv_end w)
    then show ?thesis
      using I cli_rx_more [of L W "ch_world c"] by (auto simp: chat_inv_def)
  qed (use I in \<open>auto simp: chat_inv_def\<close>)
qed

lemma chat_invariant:
  assumes "gcm_contract (lb_cipher L) view G" and "proto_contract (lb_proto L)"
  shows "step_invariant (chat_step L W) (chat_start w) (chat_inv L G w)"
proof (rule step_invariant.intro)
  show "chat_inv L G w (chat_start w)" by (simp add: chat_inv_def chat_start_def)
qed (rule chat_inv_step [OF assms])

text \<open>Whatever the two threads of the chat do in whatever order, every line printed as the peer's is the text of
  a frame whose tag is valid under the session key, the session does not change, and when \<open>main\<close> returns the
  receiving thread has ended.\<close>

theorem chat_prints_authentic:
  assumes "gcm_contract (lb_cipher L) view G" and "proto_contract (lb_proto L)"
    and "run (chat_step L W) (chat_start w) acts c" and "Peer p \<in> set (ch_printed c)"
  shows "authentic_text L G (session_key w) p \<and> session_key (ch_world c) = session_key w \<and>
    (if ch_tx c = TxEnd then ch_rx c = RxEnd \<and> \<not> ch_running c else True)"
  using step_invariant.reach_inv [OF chat_invariant [OF assms(1,2)] assms(3)] assms(4)
    more_fields(3) [of "ch_world c" w]
  by (auto simp: chat_inv_def)

section \<open>Who the peer is\<close>

text \<open>C29: a command line client gets to the chat only with a peer that proved its identity in the handshake, and whose
  fingerprint is the one that the pins file has for the relay and room, if it has one. If it has none, the fingerprint is
  pinned now, provided that the file consists of whole lines and can be written, and that the key made of relay and room
  has no white space in it; for a key with white space, as of a room name with a blank, the file never has a pin, before
  or after, so there every peer is accepted.\<close>

theorem cli_session_is_pinned:
  assumes "ed_contract (lb_pkey L) ve Z"
    and "transport_contract (cli_send_fn W) (cli_recv_fn W) tr" and "libs_quiet tr L"
    and "parse_args argv = Go c" and "cli_main L W writable argv stdin w pins = (Chatting fp, w', pins')"
  shows "pin_of (tofu_key (ca_relay c) (ca_room c)) pins \<in> {None, Some fp} \<and>
    (pin_of (tofu_key (ca_relay c) (ca_room c)) pins = Some fp \<longrightarrow> pins' = pins) \<and>
    (writable \<and> pins_wf pins \<and> token (tofu_key (ca_relay c) (ca_room c)) \<longrightarrow>
      pin_of (tofu_key (ca_relay c) (ca_room c)) pins' = Some fp \<and> pins_wf pins') \<and>
    (\<not> token (tofu_key (ca_relay c) (ca_room c)) \<longrightarrow>
      pin_of (tofu_key (ca_relay c) (ca_room c)) pins = None \<and> pin_of (tofu_key (ca_relay c) (ca_room c)) pins' = None) \<and>
    session_ready w' \<and>
    (\<exists>pub kem_pk sig. length pub = 32 \<and> fp = fingerprint_hex (lb_pkey L) pub \<and>
       (if ca_mode c = ''host'' then ed_V Z pub (client_msg kem_pk) sig
        else \<exists>ct. ed_V Z pub (server_msg ct kem_pk) sig))"
proof -
  let ?key = "tofu_key (ca_relay c) (ca_room c)"
  obtain w1 where
    hs: "ca_mode c = ''host'' \<and> runServerHandshake L (cli_send_fn W) (cli_recv_fn W) w1 = (Inr fp, w') \<or>
         ca_mode c = ''connect'' \<and> runClientHandshake L (cli_send_fn W) (cli_recv_fn W) w1 = (Inr fp, w')"
    and check: "tofu_check writable ?key fp pins = (True, pins')"
    using cli_main_Chatting [OF assms(5)] assms(4) by (metis cli_command.inject(2))
  have peer: "session_ready w' \<and> (\<exists>pub kem_pk sig. length pub = 32 \<and> fp = fingerprint_hex (lb_pkey L) pub \<and>
       (if ca_mode c = ''host'' then ed_V Z pub (client_msg kem_pk) sig
        else \<exists>ct. ed_V Z pub (server_msg ct kem_pk) sig))"
    using hs
  proof
    assume host: "ca_mode c = ''host'' \<and> runServerHandshake L (cli_send_fn W) (cli_recv_fn W) w1 = (Inr fp, w')"
    show ?thesis
      using assms(2,3) host [THEN conjunct2]
    proof (rule server_handshake_Inr, goal_cases)
      case (1 k frame hello ct ss sig response key v1 v1' v2 v2' v3 v3')
      then show ?case
        using ed_verify_ok [OF assms(1), of "hh_identity_pub hello" "client_msg (hh_kem_public_key hello)"
            "hh_identity_sig hello" v1] host by auto
    qed
  next
    assume conn: "ca_mode c = ''connect'' \<and> runClientHandshake L (cli_send_fn W) (cli_recv_fn W) w1 = (Inr fp, w')"
    show ?thesis
      using assms(2,3) conn [THEN conjunct2]
    proof (rule client_handshake_Inr, goal_cases)
      case (1 k pk sk sig hello frame resp ss key v1 v1' v2 v2' v3)
      then show ?case
        using ed_verify_ok [OF assms(1), of "hr_identity_pub resp" "server_msg (hr_kem_ciphertext resp) pk"
            "hr_identity_sig resp" v2] conn by auto
    qed
  qed
  then obtain pub where "fp = fingerprint_hex (lb_pkey L) pub" by blast
  then have fp: "token fp" using fingerprint_token by simp
  have kept: "pin_of ?key pins \<in> {None, Some fp}" "pin_of ?key pins = Some fp \<Longrightarrow> pins' = pins"
    using check by (auto simp: tofu_check_def pin_of_def Let_def split: if_splits)
  have pinned: "pin_of ?key pins' = Some fp \<and> pins_wf pins'" if "writable" "pins_wf pins" "token ?key"
    using check [unfolded that(1) eq_True [THEN iffD2, OF that(1)] tofu_check_store] that(2)
      pins.load_save [OF that(2,3) fp] pins.save_wf [OF that(2,3) fp]
    by (auto split: option.splits)
  have unpinned: "pin_of ?key pf = None" if "\<not> token ?key" for pf
    using that load_pin_token [of ?key pf] by (auto simp: pin_of_def)
  show ?thesis using kept pinned unpinned peer by (intro conjI impI) simp_all
qed

text \<open>Unless it gets to the chat, the client leaves the pins file as it was; it returns 0 without a session
  only when it was asked for help.\<close>

theorem cli_failure_keeps_pins:
  assumes "cli_main L W writable argv stdin w pins = (r, w', pins')" and "\<And>fp. r \<noteq> Chatting fp"
  shows "pins' = pins \<and> (\<forall>m. r = Exit 0 m \<longrightarrow> parse_args argv = Usage 0 \<and> w' = w)"
proof (cases "parse_args argv")
  case (Usage n)
  with assms(1) show ?thesis by (auto simp: cli_main_def)
next
  case (Go c)
  then obtain pw where start: "cli_start L W writable c pw w pins = (r, w', pins')"
    using assms(1) by (simp add: cli_main_def Let_def)
  obtain r1 v1 where v1: "loadOrCreateIdentity L (ca_id_path c) pw w = (r1, v1)" by fastforce
  obtain r2 v2 where v2: "callback_io (cw_connect W (ws_join (ca_relay c) (ca_room c))) v1 = (r2, v2)" by fastforce
  let ?run = "if ca_mode c = ''host'' then runServerHandshake L (cli_send_fn W) (cli_recv_fn W) v2
      else runClientHandshake L (cli_send_fn W) (cli_recv_fn W) v2"
  obtain r3 v3 where v3: "?run = (r3, v3)" by fastforce
  have abort: "snd (tofu_check writable key fp pins) = pins" if "\<not> fst (tofu_check writable key fp pins)" for key fp
    using that by (auto simp: tofu_check_def Let_def split: if_splits)
  have "pins' = pins \<and> (\<forall>m. r \<noteq> Exit 0 m)"
  proof (cases "(\<exists>e. r1 = Inl e) \<or> (\<exists>e. r2 = Inl e)")
    case True
    with start v1 v2 show ?thesis by (cases r1; cases r2) (auto simp: cli_start_def split: bool.splits)
  next
    case False
    then obtain u b where "r1 = Inr u" "r2 = Inr b" by (metis sum.exhaust)
    note start = start [unfolded cli_start_def Let_def v1 this prod.case sum.case v2]
    show ?thesis
    proof (cases b)
      case False
      with start show ?thesis by auto
    next
      case True
      show ?thesis
      proof (cases r3)
        case (Inl e)
        with start v3 True show ?thesis by auto
      next
        case (Inr fp)
        obtain ok p where "tofu_check writable (tofu_key (ca_relay c) (ca_room c)) fp pins = (ok, p)" by fastforce
        with Inr start v3 True assms(2) abort [of "tofu_key (ca_relay c) (ca_room c)" fp] show ?thesis
          by (cases ok) auto
      qed
    qed
  qed
  then show ?thesis by auto
qed

end
