(* ===== verification/Tcp_Programs.thy ===== *)
theory Tcp_Programs
  imports Relay_Cli
begin

text \<open>
  The two demonstration programs over TCP, \<^verbatim>\<open>client.cpp\<close> and \<^verbatim>\<open>server.cpp\<close>, and what they achieve together.
  The methods of TcpTransport are parameters here; \<^verbatim>\<open>tcp_transport.cpp\<close> has its own theory. A call that
  blocks for ever is one that has not returned.
\<close>

section \<open>The programs\<close>

text \<open>\<open>tc_waits\<close>: a call of \<open>recv\<close> does not return as things are.\<close>

record 'e tcp_obj =
  tc_connect :: "string \<Rightarrow> 16 word \<Rightarrow> 'e \<Rightarrow> bool \<times> 'e"
  tc_listen_and_accept :: "16 word \<Rightarrow> 'e \<Rightarrow> bool \<times> 'e"
  tc_send :: "bytes \<Rightarrow> 'e \<Rightarrow> bool \<times> 'e"
  tc_recv :: "'e \<Rightarrow> bytes option \<times> 'e"
  tc_waits :: "'e \<Rightarrow> bool"
  tc_close :: "'e \<Rightarrow> 'e"

definition tcp_send_fn :: "'e tcp_obj \<Rightarrow> 'e send_fn" where
  "tcp_send_fn T frame e = (case tc_send T frame e of (ok, e') \<Rightarrow> (Inr ok, e'))"

definition tcp_recv_fn :: "'e tcp_obj \<Rightarrow> 'e recv_fn" where
  "tcp_recv_fn T e = (case tc_recv T e of (r, e') \<Rightarrow> (Inr r, e'))"

text \<open>\<open>std::getline\<close> number \<open>n\<close>: at the end of the input the string is left empty.\<close>

definition getline :: "string list \<Rightarrow> nat \<Rightarrow> string" where
  "getline stdin n = (if n < length stdin then stdin ! n else [])"

text \<open>The message: the second line, or a greeting when it is empty.\<close>

definition client_input :: "string list \<Rightarrow> string" where
  "client_input stdin =
     (let input = getline stdin 1 in if input = [] then ''Hello from client'' else input)"

definition client_main ::
  "('e, 'h) libs \<Rightarrow> 'e tcp_obj \<Rightarrow> string list \<Rightarrow> 'e engine_world \<Rightarrow> cli_end \<times> 'e engine_world" where
  "client_main L T stdin w =
     (case loadOrCreateIdentity L ''client.id'' (getline stdin 0) w of
        (Inl err, w) \<Rightarrow> (Exit 1 (''[client] Identity error: '' @ err), w)
      | (Inr _, w) \<Rightarrow>
       (case tc_connect T ''127.0.0.1'' 5555 (env w) of
          (False, e) \<Rightarrow> (Exit 1 ''[client] Connect failed'', w\<lparr>env := e\<rparr>)
        | (True, e) \<Rightarrow>
         (case runClientHandshake L (tcp_send_fn T) (tcp_recv_fn T) (w\<lparr>env := e\<rparr>) of
            (Inl err, w) \<Rightarrow> (Exit 1 (''[client] Handshake failed: '' @ err), w)
          | (Inr peer_fp, w) \<Rightarrow>
           (case encryptAndSerializeMessage L (client_input stdin) ''alice'' ''bob'' w of
              (Inl err, w) \<Rightarrow> (Exit 1 (''[client] Encrypt failed: '' @ err), w)
            | (Inr frame, w) \<Rightarrow>
             (case tc_send T frame (env w) of
                (False, e) \<Rightarrow> (Exit 1 ''[client] Send failed'', w\<lparr>env := e\<rparr>)
              | (True, e) \<Rightarrow> (Exit 0 '''', w\<lparr>env := tc_close T e\<rparr>))))))"

definition server_main ::
  "('e, 'h) libs \<Rightarrow> 'e tcp_obj \<Rightarrow> string list \<Rightarrow> 'e engine_world \<Rightarrow> cli_end \<times> 'e engine_world" where
  "server_main L T stdin w =
     (case loadOrCreateIdentity L ''server.id'' (getline stdin 0) w of
        (Inl err, w) \<Rightarrow> (Exit 1 (''[server] Identity error: '' @ err), w)
      | (Inr _, w) \<Rightarrow>
       (case tc_listen_and_accept T 5555 (env w) of
          (False, e) \<Rightarrow> (Exit 1 ''[server] accept failed'', w\<lparr>env := e\<rparr>)
        | (True, e) \<Rightarrow>
         (case runServerHandshake L (tcp_send_fn T) (tcp_recv_fn T) (w\<lparr>env := e\<rparr>) of
            (Inl err, w) \<Rightarrow> (Exit 1 (''[server] Handshake failed: '' @ err), w)
          | (Inr peer_fp, w) \<Rightarrow>
           (case tc_recv T (env w) of
              (None, e) \<Rightarrow> (Exit 1 ''[server] recv Envelope failed'', w\<lparr>env := e\<rparr>)
            | (Some frame, e) \<Rightarrow>
             (case parseAndDecryptMessage L frame (w\<lparr>env := e\<rparr>) of
                (Inl err, w) \<Rightarrow> (Exit 1 (''[server] decrypt failed: '' @ err), w)
              | (Inr plaintext, w) \<Rightarrow>
                  (Exit 0 (''[server] Decrypted: '' @ plaintext), w\<lparr>env := tc_close T (env w)\<rparr>))))))"

section \<open>Runs that return 0, read backwards\<close>

lemma client_main_0:
  assumes "client_main L T stdin w = (Exit 0 m, w')"
  obtains fp frame e0 e and w1 w2 w3 where
    "tc_connect T ''127.0.0.1'' 5555 e0 = (True, env w1)"
    and "runClientHandshake L (tcp_send_fn T) (tcp_recv_fn T) w1 = (Inr fp, w2)"
    and "encryptAndSerializeMessage L (client_input stdin) ''alice'' ''bob'' w2 = (Inr frame, w3)"
    and "tc_send T frame (env w3) = (True, e)" and "w' = w3\<lparr>env := tc_close T e\<rparr>"
proof -
  obtain r1 v1 where v1: "loadOrCreateIdentity L ''client.id'' (getline stdin 0) w = (r1, v1)" by fastforce
  obtain u where u: "r1 = Inr u" using assms v1 by (cases r1) (simp_all add: client_main_def)
  obtain ok e1 where e1: "tc_connect T ''127.0.0.1'' 5555 (env v1) = (ok, e1)" by fastforce
  have ok: "ok" using assms v1 u e1 by (cases ok) (simp_all add: client_main_def)
  obtain r2 v2 where v2: "runClientHandshake L (tcp_send_fn T) (tcp_recv_fn T) (v1\<lparr>env := e1\<rparr>) = (r2, v2)" by fastforce
  obtain fp where fp: "r2 = Inr fp" using assms v1 u e1 ok v2 by (cases r2) (simp_all add: client_main_def)
  obtain r3 v3 where v3: "encryptAndSerializeMessage L (client_input stdin) ''alice'' ''bob'' v2 = (r3, v3)" by fastforce
  obtain frame where frame: "r3 = Inr frame"
    using assms v1 u e1 ok v2 fp v3 by (cases r3) (simp_all add: client_main_def)
  obtain sent e2 where e2: "tc_send T frame (env v3) = (sent, e2)" by fastforce
  have "sent \<and> w' = v3\<lparr>env := tc_close T e2\<rparr>"
    using assms v1 u e1 ok v2 fp v3 frame e2 by (cases sent) (simp_all add: client_main_def)
  with that [of "env v1" "v1\<lparr>env := e1\<rparr>"] e1 ok v2 fp v3 frame e2 show ?thesis by simp
qed

lemma server_main_0:
  assumes "server_main L T stdin w = (Exit 0 m, w')"
  obtains fp frame plain e0 e and w1 w2 w3 where
    "tc_listen_and_accept T 5555 e0 = (True, env w1)"
    and "runServerHandshake L (tcp_send_fn T) (tcp_recv_fn T) w1 = (Inr fp, w2)"
    and "tc_recv T (env w2) = (Some frame, e)"
    and "parseAndDecryptMessage L frame (w2\<lparr>env := e\<rparr>) = (Inr plain, w3)"
    and "m = ''[server] Decrypted: '' @ plain" and "w' = w3\<lparr>env := tc_close T (env w3)\<rparr>"
proof -
  obtain r1 v1 where v1: "loadOrCreateIdentity L ''server.id'' (getline stdin 0) w = (r1, v1)" by fastforce
  obtain u where u: "r1 = Inr u" using assms v1 by (cases r1) (simp_all add: server_main_def)
  obtain ok e1 where e1: "tc_listen_and_accept T 5555 (env v1) = (ok, e1)" by fastforce
  have ok: "ok" using assms v1 u e1 by (cases ok) (simp_all add: server_main_def)
  obtain r2 v2 where v2: "runServerHandshake L (tcp_send_fn T) (tcp_recv_fn T) (v1\<lparr>env := e1\<rparr>) = (r2, v2)" by fastforce
  obtain fp where fp: "r2 = Inr fp" using assms v1 u e1 ok v2 by (cases r2) (simp_all add: server_main_def)
  obtain f e2 where e2: "tc_recv T (env v2) = (f, e2)" by fastforce
  obtain frame where frame: "f = Some frame"
    using assms v1 u e1 ok v2 fp e2 by (cases f) (simp_all add: server_main_def)
  obtain r3 v3 where v3: "parseAndDecryptMessage L frame (v2\<lparr>env := e2\<rparr>) = (r3, v3)" by fastforce
  obtain plain where "r3 = Inr plain" "m = ''[server] Decrypted: '' @ plain" "w' = v3\<lparr>env := tc_close T (env v3)\<rparr>"
    using assms v1 u e1 ok v2 fp e2 frame v3 by (cases r3) (simp_all add: server_main_def)
  with that [of "env v1" "v1\<lparr>env := e1\<rparr>"] e1 ok v2 fp e2 frame v3 show ?thesis by simp
qed

section \<open>The network log of a message\<close>

lemma encrypt_quiet:
  fixes w :: "('e, 'x) engine_world_scheme"
  assumes "libs_quiet tr L"
  shows "tr (env (snd (encryptAndSerializeMessage L plain from to w))) = tr (env w)"
proof -
  let ?g = "\<lambda>w :: ('e, 'x) engine_world_scheme. tr (env w)"
  have S: "libs_silent ?g L" by (rule libs_quiet_silent [OF assms])
  then have C: "silent ?g (lb_clock L)" by (simp add: libs_silent_def)
  show ?thesis
    unfolding encryptAndSerializeMessage_def snd_report
    by (rule keeps_def [where g = ?g, THEN iffD1, rule_format])
       (intro keeps_intros silent_calls [OF S] C, simp add: session_encrypt_def
         keeps_intros AESGCM_new_keeps aes_encrypt_keeps [OF S])
qed

lemma parse_quiet:
  fixes w :: "('e, 'x) engine_world_scheme"
  assumes "libs_quiet tr L"
  shows "tr (env (snd (parseAndDecryptMessage L frame w))) = tr (env w)"
proof -
  let ?g = "\<lambda>w :: ('e, 'x) engine_world_scheme. tr (env w)"
  have S: "libs_silent ?g L" by (rule libs_quiet_silent [OF assms])
  show ?thesis
    unfolding parseAndDecryptMessage_def snd_report
    by (rule keeps_def [where g = ?g, THEN iffD1, rule_format])
       (intro keeps_intros, simp add: session_decrypt_def keeps_intros AESGCM_new_keeps aes_decrypt_keeps [OF S])
qed

section \<open>The two together\<close>

text \<open>When both programs return 0 and each received exactly the frames the other one sent, the server prints
  the line that was typed into the client, or its greeting when that was empty.\<close>

theorem demo_delivers_input:
  assumes "kem_contract (lb_kem L)" and "hkdf_contract (lb_hkdf L) vh H" and "gcm_contract (lb_cipher L) view G"
    and "proto_contract (lb_proto L)" and "libs_quiet tr L" and "libs_quiet tr' L"
    and "transport_contract (tcp_send_fn T) (tcp_recv_fn T) tr" and "\<And>e. tr (tc_close T e) = tr e"
    and "transport_contract (tcp_send_fn T') (tcp_recv_fn T') tr'" and "\<And>e. tr' (tc_close T' e) = tr' e"
    and "client_main L T stdin w = (Exit 0 m, w')" and "server_main L T' stdin' v = (Exit 0 m', v')"
    and "tr (env w') = before @ [Sent a, Received b, Sent f]"
    and "tr' (env v') = before' @ [Received a, Sent b, Received f]"
    and "length (getline stdin 1) < 2 ^ 31"
  shows "m' = ''[server] Decrypted: '' @ client_input stdin"
proof -
  obtain fp frame e0 e and w1 w2 w3 where c: "runClientHandshake L (tcp_send_fn T) (tcp_recv_fn T) w1 = (Inr fp, w2)"
    "encryptAndSerializeMessage L (client_input stdin) ''alice'' ''bob'' w2 = (Inr frame, w3)"
    "tc_send T frame (env w3) = (True, e)" "w' = w3\<lparr>env := tc_close T e\<rparr>"
    by (rule client_main_0 [OF assms(11)])
  obtain fp' frame' plain e0' e' and v1 v2 v3 where s: "runServerHandshake L (tcp_send_fn T') (tcp_recv_fn T') v1 = (Inr fp', v2)"
    "tc_recv T' (env v2) = (Some frame', e')" "parseAndDecryptMessage L frame' (v2\<lparr>env := e'\<rparr>) = (Inr plain, v3)"
    "m' = ''[server] Decrypted: '' @ plain" "v' = v3\<lparr>env := tc_close T' (env v3)\<rparr>"
    by (rule server_main_0 [OF assms(12)])
  obtain hello resp where log: "tr (env w2) = tr (env w1) @ [Sent hello, Received resp]"
    using assms(7,5) c(1) by (rule client_handshake_Inr)
  obtain hello' resp' where log': "tr' (env v2) = tr' (env v1) @ [Received hello', Sent resp']"
    using assms(9,6) s(1) by (rule server_handshake_Inr)
  have "tr (env w3) = tr (env w2)" using encrypt_quiet [OF assms(5), of "client_input stdin" "''alice''" "''bob''" w2] c(2) by simp
  moreover have "tr e = tr (env w3) @ [Sent frame]"
    using assms(7) [unfolded transport_contract_def, THEN conjunct1, rule_format, of frame "env w3"] c(3)
    by (simp add: tcp_send_fn_def)
  ultimately have "tr (env w1) @ [Sent hello, Received resp, Sent frame] = before @ [Sent a, Received b, Sent f]"
    using assms(8,13) c(4) log by simp
  then have eq: "hello = a" "resp = b" "frame = f"
    by (auto simp: append_eq_append_conv2 Cons_eq_append_conv append_eq_Cons_conv)
  have "tr' (env v3) = tr' e'" using parse_quiet [OF assms(6), of frame' "v2\<lparr>env := e'\<rparr>"] s(3) by simp
  moreover have "tr' e' = tr' (env v2) @ [Received frame']"
    using assms(9) [unfolded transport_contract_def, THEN conjunct2, rule_format, of "env v2"] s(2)
    by (simp add: tcp_recv_fn_def)
  ultimately have "tr' (env v1) @ [Received hello', Sent resp', Received frame'] = before' @ [Received a, Sent b, Received f]"
    using assms(10,14) s(5) log' by simp
  then have eq': "hello' = a" "resp' = b" "frame' = f"
    by (auto simp: append_eq_append_conv2 Cons_eq_append_conv append_eq_Cons_conv)
  have agree: "session_key w2 = session_key v2" "session_ready v2"
    using handshake_agree [OF assms(1,2,4,7,5,9,6) c(1) s(1), of a b] log log' eq eq' by auto
  have "length (client_input stdin) < 2 ^ 31" using assms(15) by (simp add: client_input_def Let_def)
  then obtain e'' where "parseAndDecryptMessage L frame (v2\<lparr>env := e'\<rparr>) = (Inr (client_input stdin), v2\<lparr>env := e'\<rparr>\<lparr>env := e''\<rparr>)"
    using message_decrypts [OF assms(3,4) _ _ _ c(2), of "v2\<lparr>env := e'\<rparr>"] agree by (auto simp: ascii_def)
  with s(3,4) eq eq' show ?thesis by simp
qed

end
