(* ===== verification/Worker.thy ===== *)
theory Worker
  imports Tcp_Programs Steps
begin

text \<open>
  \<^verbatim>\<open>gui/EngineWorker.cpp\<close>: the slots that the worker thread of the GUI runs one after the other, the
  receiving thread \<open>rxThread_\<close>, and the signals they emit. TcpTransport, WebSocketTransport and Qt are
  parameters; a call that blocks for ever is one that has not returned.
\<close>

section \<open>Qt\<close>

text \<open>\<open>QUrl\<close>, \<open>QString::trimmed\<close>, \<open>QString::toInt\<close>, which is \<open>None\<close> when it sets \<open>ok\<close> to false, and
  \<open>QString::arg\<close>.\<close>

record 'u qt =
  qt_url :: "string \<Rightarrow> 'u"
  qt_scheme :: "'u \<Rightarrow> string"
  qt_set_scheme :: "string \<Rightarrow> 'u \<Rightarrow> 'u"
  qt_path :: "'u \<Rightarrow> string"
  qt_set_path :: "string \<Rightarrow> 'u \<Rightarrow> 'u"
  qt_set_query :: "(string \<times> string) list \<Rightarrow> 'u \<Rightarrow> 'u"
  qt_to_string :: "'u \<Rightarrow> string"
  qt_trimmed :: "string \<Rightarrow> string"
  qt_to_int :: "string \<Rightarrow> int option"
  qt_arg :: "string \<Rightarrow> string \<Rightarrow> string"

text \<open>\<open>wo_waits\<close>: a call of \<open>recv\<close> does not return as things are.\<close>

record 'e ws_obj =
  wo_new :: "'e \<Rightarrow> 'e"
  wo_connect_url :: "string \<Rightarrow> 'e \<Rightarrow> bool \<times> 'e"
  wo_send :: "bytes \<Rightarrow> 'e \<Rightarrow> bool \<times> 'e"
  wo_recv :: "'e \<Rightarrow> bytes option \<times> 'e"
  wo_waits :: "'e \<Rightarrow> bool"
  wo_close :: "'e \<Rightarrow> 'e"
  wo_reset :: "'e \<Rightarrow> 'e"

section \<open>The members\<close>

datatype mode = NoMode | TCP | WS

text \<open>\<open>rxThread_\<close>: no thread, one in the loop of \<open>recvLoop\<close>, one that has left the loop and not yet reported it,
  or one that has returned and was not joined.\<close>

datatype rx_thread = NoThread | RxRunning | RxEnding | RxFinished

datatype signal =
    Status string
  | Error string
  | Connected
  | Disconnected
  | IdentityReady string
  | MessageReceived string

text \<open>The slots; \<open>wk_at\<close> is \<open>Joining k\<close> while the worker thread is in \<open>rxThread_.join()\<close>, with \<open>k\<close> the slot it
  goes on with. \<open>wk_aborted\<close>: \<open>std::terminate\<close> was called.\<close>

datatype slot =
    StartConnect string string
  | StartHost "16 word" string
  | StartRelayConnect string string string
  | StartRelayHost string string string
  | DisconnectFromPeer
  | SendMessage string

datatype worker_at = Ready | Joining "slot option"

record 'e worker =
  wk_mode :: mode
  wk_engine :: "'e engine_world"
  wk_ws :: bool
  wk_running :: bool
  wk_connected :: bool
  wk_rx :: rx_thread
  wk_at :: worker_at
  wk_signals :: "signal list"
  wk_aborted :: bool

definition emit :: "signal \<Rightarrow> 'e worker \<Rightarrow> 'e worker" where
  "emit s w = w\<lparr>wk_signals := wk_signals w @ [s]\<rparr>"

definition set_engine :: "'e engine_world \<Rightarrow> 'e worker \<Rightarrow> 'e worker" where
  "set_engine g w = w\<lparr>wk_engine := g\<rparr>"

abbreviation net :: "'e worker \<Rightarrow> 'e" where
  "net w \<equiv> env (wk_engine w)"

definition set_net :: "'e \<Rightarrow> 'e worker \<Rightarrow> 'e worker" where
  "set_net e w = w\<lparr>wk_engine := (wk_engine w)\<lparr>env := e\<rparr>\<rparr>"

section \<open>Small functions\<close>

definition shortenFingerprint :: "string \<Rightarrow> string" where
  "shortenFingerprint fp = take 16 fp @ ''...''"

definition parseEndpoint :: "'u qt \<Rightarrow> string \<Rightarrow> (string \<times> 16 word) option" where
  "parseEndpoint Q endpoint =
     (let ep = qt_trimmed Q endpoint in
      case cxx_rfind CHR '':'' ep of
        None \<Rightarrow> None
      | Some idx \<Rightarrow>
         if idx = 0 then None
         else (case qt_to_int Q (drop (idx + 1) ep) of
            None \<Rightarrow> None
          | Some p \<Rightarrow> if p \<le> 0 \<or> p > 65535 then None else Some (take idx ep, word_of_int p)))"

definition gui_ws_join :: "'u qt \<Rightarrow> string \<Rightarrow> string \<Rightarrow> string" where
  "gui_ws_join Q base room =
     (let u = qt_url Q base;
          u = (if qt_scheme Q u = ''http'' then qt_set_scheme Q ''ws'' u
               else if qt_scheme Q u = ''https'' then qt_set_scheme Q ''wss'' u else u);
          u = (if qt_path Q u = [] \<or> qt_path Q u = ''/'' then qt_set_path Q ''/ws'' u else u);
          u = qt_set_query Q [(''room'', room)] u
      in qt_to_string Q u)"

definition ws_send_fn :: "'e ws_obj \<Rightarrow> 'e send_fn" where
  "ws_send_fn W frame e = (case wo_send W frame e of (ok, e') \<Rightarrow> (Inr ok, e'))"

definition ws_recv_fn :: "'e ws_obj \<Rightarrow> 'e recv_fn" where
  "ws_recv_fn W e = (case wo_recv W e of (r, e') \<Rightarrow> (Inr r, e'))"

section \<open>Starting a session\<close>

text \<open>What the four slots have in common: the identity, and what follows a completed handshake. Assigning to a
  \<open>std::thread\<close> that is still joinable calls \<open>std::terminate\<close>.\<close>

definition unlock ::
  "('e, 'h) libs \<Rightarrow> string \<Rightarrow> 'e worker \<Rightarrow> bool \<times> 'e worker" where
  "unlock L password w =
     (case loadOrCreateIdentity L ''client.id'' password (wk_engine w) of
        (Inl err, g) \<Rightarrow> (False, emit (Error (''Identity error: '' @ err)) (set_engine g w))
      | (Inr (fp, created), g) \<Rightarrow>
          (True, emit (IdentityReady (shortenFingerprint fp))
            (emit (Status (if created then ''Identity created.'' else ''Identity loaded.'')) (set_engine g w))))"

definition established :: "mode \<Rightarrow> string \<Rightarrow> string \<Rightarrow> 'e worker \<Rightarrow> 'e worker" where
  "established m msg peer w =
     (let w = w\<lparr>wk_mode := m, wk_connected := True, wk_running := True\<rparr>;
          w = emit (Status msg) w;
          w = (if peer \<noteq> [] then emit (Status (''Peer fingerprint: '' @ shortenFingerprint peer)) w else w);
          w = emit Connected w
      in if wk_rx w \<noteq> NoThread then w\<lparr>wk_aborted := True\<rparr> else w\<lparr>wk_rx := RxRunning\<rparr>)"

definition connect_body ::
  "('e, 'h) libs \<Rightarrow> 'u qt \<Rightarrow> 'e tcp_obj \<Rightarrow> string \<Rightarrow> string \<Rightarrow> 'e worker \<Rightarrow> 'e worker" where
  "connect_body L Q T endpoint password w =
     (case parseEndpoint Q endpoint of
        None \<Rightarrow> emit (Error ''Invalid endpoint. Use host:port'') w
      | Some (host, port) \<Rightarrow>
       (case unlock L password w of
          (False, w) \<Rightarrow> w
        | (True, w) \<Rightarrow>
         (let w = emit (Status (qt_arg Q (qt_arg Q ''Connecting to %1:%2 ...'' host) (to_string (unat port)))) w in
          case tc_connect T host port (net w) of
            (False, e) \<Rightarrow> emit (Error ''TCP connect failed.'') (set_net e w)
          | (True, e) \<Rightarrow>
           (case runClientHandshake L (tcp_send_fn T) (tcp_recv_fn T) (wk_engine (set_net e w)) of
              (Inl err, g) \<Rightarrow> emit (Error (''Handshake/connect error: '' @ err))
                 (set_net (tc_close T (env g)) (set_engine g w))
            | (Inr peer, g) \<Rightarrow>
                established TCP ''Handshake complete. Session established (client/TCP).'' peer (set_engine g w)))))"

definition host_body ::
  "('e, 'h) libs \<Rightarrow> 'e tcp_obj \<Rightarrow> 16 word \<Rightarrow> string \<Rightarrow> 'e worker \<Rightarrow> 'e worker" where
  "host_body L T port password w =
     (case unlock L password w of
        (False, w) \<Rightarrow> w
      | (True, w) \<Rightarrow>
       (let w = emit (Status (''Hosting on port '' @ to_string (unat port) @ '' ...'')) w in
        case tc_listen_and_accept T port (net w) of
          (False, e) \<Rightarrow> emit (Error ''listen/accept failed.'') (set_net e w)
        | (True, e) \<Rightarrow>
         (case runServerHandshake L (tcp_send_fn T) (tcp_recv_fn T) (wk_engine (set_net e w)) of
            (Inl err, g) \<Rightarrow> emit (Error (''Handshake/host error: '' @ err))
               (set_net (tc_close T (env g)) (set_engine g w))
          | (Inr peer, g) \<Rightarrow>
              established TCP ''Handshake complete. Session established (host/TCP).'' peer (set_engine g w))))"

text \<open>\<open>ws_ = std::make_unique<WebSocketTransport>()\<close>, \<open>ws_.reset()\<close>.\<close>

definition make_ws :: "'e ws_obj \<Rightarrow> 'e worker \<Rightarrow> 'e worker" where
  "make_ws W w = (set_net (wo_new W (net w)) w)\<lparr>wk_ws := True\<rparr>"

definition reset_ws :: "'e ws_obj \<Rightarrow> 'e worker \<Rightarrow> 'e worker" where
  "reset_ws W w = (set_net (wo_reset W (net w)) w)\<lparr>wk_ws := False\<rparr>"

definition relay_connect_body ::
  "('e, 'h) libs \<Rightarrow> 'u qt \<Rightarrow> 'e ws_obj \<Rightarrow> string \<Rightarrow> string \<Rightarrow> string \<Rightarrow> 'e worker \<Rightarrow> 'e worker" where
  "relay_connect_body L Q W relayUrl peerUsername password w =
     (case unlock L password w of
        (False, w) \<Rightarrow> w
      | (True, w) \<Rightarrow>
       (let url = gui_ws_join Q relayUrl peerUsername;
            w = make_ws W (emit (Status (''Relay connect to '' @ url @ '' ...'')) w) in
        case wo_connect_url W url (net w) of
          (False, e) \<Rightarrow> emit (Error ''Relay WebSocket connect failed.'') (reset_ws W (set_net e w))
        | (True, e) \<Rightarrow>
         (case runClientHandshake L (ws_send_fn W) (ws_recv_fn W) (wk_engine (set_net e w)) of
            (Inl err, g) \<Rightarrow> emit (Error (''Relay handshake error: '' @ err))
               (reset_ws W (set_net (wo_close W (env g)) (set_engine g w)))
          | (Inr peer, g) \<Rightarrow>
              established WS ''Handshake complete. Session established (relay/client).'' peer (set_engine g w))))"

definition relay_host_body ::
  "('e, 'h) libs \<Rightarrow> 'u qt \<Rightarrow> 'e ws_obj \<Rightarrow> string \<Rightarrow> string \<Rightarrow> string \<Rightarrow> 'e worker \<Rightarrow> 'e worker" where
  "relay_host_body L Q W relayUrl myUsername password w =
     (case unlock L password w of
        (False, w) \<Rightarrow> w
      | (True, w) \<Rightarrow>
       (let url = gui_ws_join Q relayUrl myUsername;
            w = make_ws W (emit (Status (''Relay host (listen) at '' @ url @ '' ...'')) w) in
        case wo_connect_url W url (net w) of
          (False, e) \<Rightarrow> emit (Error ''Relay WebSocket connect failed.'') (reset_ws W (set_net e w))
        | (True, e) \<Rightarrow>
         (case runServerHandshake L (ws_send_fn W) (ws_recv_fn W) (wk_engine (set_net e w)) of
            (Inl err, g) \<Rightarrow> emit (Error (''Relay host handshake error: '' @ err))
               (reset_ws W (set_net (wo_close W (env g)) (set_engine g w)))
          | (Inr peer, g) \<Rightarrow>
              established WS ''Handshake complete. Session established (relay/host).'' peer (set_engine g w))))"

section \<open>The other slots and the receiving thread\<close>

text \<open>\<open>disconnectFromPeer\<close> up to and after the join.\<close>

definition disconnect_begin :: "'e tcp_obj \<Rightarrow> 'e ws_obj \<Rightarrow> 'e worker \<Rightarrow> 'e worker" where
  "disconnect_begin T W w =
     (let w = w\<lparr>wk_running := False\<rparr>;
          w = (if wk_mode w = TCP then set_net (tc_close T (net w)) w else w)
      in if wk_mode w = WS \<and> wk_ws w then set_net (wo_close W (net w)) w else w)"

definition disconnect_end :: "'e worker \<Rightarrow> 'e worker" where
  "disconnect_end w =
     (let w = w\<lparr>wk_rx := NoThread\<rparr>;
          w = (if wk_connected w then emit Disconnected (w\<lparr>wk_connected := False\<rparr>) else w)
      in w\<lparr>wk_mode := NoMode\<rparr>)"

definition send_message ::
  "('e, 'h) libs \<Rightarrow> 'e tcp_obj \<Rightarrow> 'e ws_obj \<Rightarrow> string \<Rightarrow> 'e worker \<Rightarrow> 'e worker" where
  "send_message L T W body w =
     (if \<not> wk_connected w then emit (Error ''Not connected.'') w
      else case encryptAndSerializeMessage L body ''gui'' ''peer'' (wk_engine w) of
        (Inl err, g) \<Rightarrow> emit (Error (''Send error: '' @ err)) (set_engine g w)
      | (Inr frame, g) \<Rightarrow>
         (let w = set_engine g w;
              (ok, w) = (if wk_mode w = TCP then (case tc_send T frame (net w) of (ok, e) \<Rightarrow> (ok, set_net e w))
                         else if wk_mode w = WS \<and> wk_ws w
                         then (case wo_send W frame (net w) of (ok, e) \<Rightarrow> (ok, set_net e w))
                         else (False, w))
          in if \<not> ok then emit (Error ''Send failed'') w else w))"

text \<open>One iteration of \<open>recvLoop\<close>, with the assignments that follow when it is left; \<open>recv_leave\<close> is the signal
  after them. Another thread can see the flags before the signal is emitted.\<close>

definition recv_iteration ::
  "('e, 'h) libs \<Rightarrow> 'e tcp_obj \<Rightarrow> 'e ws_obj \<Rightarrow> 'e worker \<Rightarrow> 'e worker" where
  "recv_iteration L T W w =
     (let (r, e) = (if wk_mode w = TCP then tc_recv T (net w)
                    else if wk_mode w = WS \<and> wk_ws w then wo_recv W (net w) else (None, net w));
          w = set_net e w
      in case r of
           None \<Rightarrow> w\<lparr>wk_connected := False, wk_running := False, wk_rx := RxEnding\<rparr>
         | Some frame \<Rightarrow>
            (case parseAndDecryptMessage L frame (wk_engine w) of
               (Inl err, g) \<Rightarrow> emit (Status (''Dropping message: '' @ err)) (set_engine g w)
             | (Inr plain, g) \<Rightarrow> emit (MessageReceived plain) (set_engine g w)))"

definition recv_leave :: "'e worker \<Rightarrow> 'e worker" where
  "recv_leave w = emit Disconnected (w\<lparr>wk_rx := RxFinished\<rparr>)"

text \<open>An iteration that is in a call of \<open>recv\<close> which does not return.\<close>

definition recv_waits :: "'e tcp_obj \<Rightarrow> 'e ws_obj \<Rightarrow> 'e worker \<Rightarrow> bool" where
  "recv_waits T W w =
     (if wk_mode w = TCP then tc_waits T (net w) else if wk_mode w = WS \<and> wk_ws w then wo_waits W (net w) else False)"

section \<open>The two threads\<close>

fun start_body ::
  "('e, 'h) libs \<Rightarrow> 'u qt \<Rightarrow> 'e tcp_obj \<Rightarrow> 'e ws_obj \<Rightarrow> slot \<Rightarrow> 'e worker \<Rightarrow> 'e worker" where
  "start_body L Q T W (StartConnect endpoint pw) w = connect_body L Q T endpoint pw w"
| "start_body L Q T W (StartHost port pw) w = host_body L T port pw w"
| "start_body L Q T W (StartRelayConnect url user pw) w = relay_connect_body L Q W url user pw w"
| "start_body L Q T W (StartRelayHost url user pw) w = relay_host_body L Q W url user pw w"
| "start_body L Q T W _ w = w"

fun run_slot ::
  "('e, 'h) libs \<Rightarrow> 'u qt \<Rightarrow> 'e tcp_obj \<Rightarrow> 'e ws_obj \<Rightarrow> slot \<Rightarrow> 'e worker \<Rightarrow> 'e worker" where
  "run_slot L Q T W DisconnectFromPeer w = (disconnect_begin T W w)\<lparr>wk_at := Joining None\<rparr>"
| "run_slot L Q T W (SendMessage body) w = send_message L T W body w"
| "run_slot L Q T W s w =
     (if wk_connected w
      then (disconnect_begin T W (emit (Status ''Already connected; disconnecting first.'') w))\<lparr>wk_at := Joining (Some s)\<rparr>
      else start_body L Q T W s w)"

datatype worker_act = RunSlot slot | JoinDone | RxIteration | RxLeave

inductive worker_step ::
  "('e, 'h) libs \<Rightarrow> 'u qt \<Rightarrow> 'e tcp_obj \<Rightarrow> 'e ws_obj \<Rightarrow> 'e worker \<Rightarrow> worker_act \<Rightarrow> 'e worker \<Rightarrow> bool"
  for L :: "('e, 'h) libs" and Q :: "'u qt" and T :: "'e tcp_obj" and W :: "'e ws_obj" where
  slot: "\<not> wk_aborted w \<Longrightarrow> wk_at w = Ready \<Longrightarrow> worker_step L Q T W w (RunSlot s) (run_slot L Q T W s w)"
| join_none: "\<not> wk_aborted w \<Longrightarrow> wk_at w = Joining None \<Longrightarrow> wk_rx w \<in> {NoThread, RxFinished} \<Longrightarrow>
    worker_step L Q T W w JoinDone ((disconnect_end w)\<lparr>wk_at := Ready\<rparr>)"
| join_some: "\<not> wk_aborted w \<Longrightarrow> wk_at w = Joining (Some s) \<Longrightarrow> wk_rx w \<in> {NoThread, RxFinished} \<Longrightarrow>
    worker_step L Q T W w JoinDone (start_body L Q T W s ((disconnect_end w)\<lparr>wk_at := Ready\<rparr>))"
| receive: "\<not> wk_aborted w \<Longrightarrow> wk_rx w = RxRunning \<Longrightarrow> \<not> recv_waits T W w \<Longrightarrow>
    worker_step L Q T W w RxIteration (recv_iteration L T W w)"
| leave: "\<not> wk_aborted w \<Longrightarrow> wk_rx w = RxEnding \<Longrightarrow> worker_step L Q T W w RxLeave (recv_leave w)"

inductive_cases worker_slotE: "worker_step L Q T W w (RunSlot s) w'"
inductive_cases worker_stepE: "worker_step L Q T W w a w'"

definition worker_init :: "'e engine_world \<Rightarrow> 'e worker" where
  "worker_init g = \<lparr>wk_mode = NoMode, wk_engine = g, wk_ws = False, wk_running = False, wk_connected = False,
     wk_rx = NoThread, wk_at = Ready, wk_signals = [], wk_aborted = False\<rparr>"

end
