(* ===== verification/Worker_Props.thy ===== *)
theory Worker_Props
  imports Worker
begin

text \<open>
  What the worker of the GUI guarantees about its signals and threads, and where it ends the process.
\<close>

section \<open>The session signals\<close>

text \<open>
  The signals as a client of the worker sees them: connected and disconnected alternate, and messages come
  only in between. The result is whether a session is open.
\<close>

fun session_signals :: "bool \<Rightarrow> signal list \<Rightarrow> bool option" where
  "session_signals up [] = Some up"
| "session_signals up (Connected # s) = (if up then None else session_signals True s)"
| "session_signals up (Disconnected # s) = (if up then session_signals False s else None)"
| "session_signals up (MessageReceived m # s) = (if up then session_signals True s else None)"
| "session_signals up (_ # s) = session_signals up s"

lemma session_signals_append:
  "session_signals b (xs @ ys) = (case session_signals b xs of None \<Rightarrow> None | Some b' \<Rightarrow> session_signals b' ys)"
  by (induction b xs rule: session_signals.induct) auto

fun plain_signal :: "signal \<Rightarrow> bool" where
  "plain_signal (Status s) = True"
| "plain_signal (Error s) = True"
| "plain_signal (IdentityReady s) = True"
| "plain_signal _ = False"

lemma session_signals_plain: "list_all plain_signal s \<Longrightarrow> session_signals b s = Some b"
proof (induction s)
  case (Cons x xs)
  then show ?case by (cases x) auto
qed simp

section \<open>Parts of a slot that touch neither the session nor the threads\<close>

definition quiet_part :: "'e worker \<Rightarrow> 'e worker \<Rightarrow> bool" where
  "quiet_part w w' \<longleftrightarrow> wk_rx w' = wk_rx w \<and> wk_connected w' = wk_connected w \<and> wk_aborted w' = wk_aborted w \<and>
     wk_at w' = wk_at w \<and> wk_mode w' = wk_mode w \<and>
     (\<exists>s. wk_signals w' = wk_signals w @ s \<and> list_all plain_signal s)"

named_theorems quiet_intros \<open>parts of slots that are quiet\<close>

lemma quiet_refl [quiet_intros]: "quiet_part w w"
  by (simp add: quiet_part_def)

lemma quiet_trans: "quiet_part w w1 \<Longrightarrow> quiet_part w1 w2 \<Longrightarrow> quiet_part w w2"
  unfolding quiet_part_def by (auto intro: exI [of _ "_ @ _"])

lemma quiet_emit [quiet_intros]: "quiet_part w w' \<Longrightarrow> plain_signal s \<Longrightarrow> quiet_part w (emit s w')"
  by (rule quiet_trans, assumption) (auto simp: quiet_part_def emit_def)

lemma quiet_engine [quiet_intros]: "quiet_part w w' \<Longrightarrow> quiet_part w (set_engine g w')"
  by (simp add: quiet_part_def set_engine_def)

lemma quiet_net [quiet_intros]: "quiet_part w w' \<Longrightarrow> quiet_part w (set_net e w')"
  by (simp add: quiet_part_def set_net_def)

lemma quiet_ws [quiet_intros]:
  "quiet_part w w' \<Longrightarrow> quiet_part w (make_ws W w')" "quiet_part w w' \<Longrightarrow> quiet_part w (reset_ws W w')"
  by (simp_all add: quiet_part_def make_ws_def reset_ws_def set_net_def)

lemma quiet_unlock: "quiet_part w (snd (unlock L pw w))"
  by (auto simp: unlock_def intro!: quiet_intros split: sum.split prod.split)

text \<open>The members a part leaves alone, for the few that matter later.\<close>

lemma ws_simps [simp]:
  "wk_ws (emit s w) = wk_ws w" "wk_ws (set_engine g w) = wk_ws w" "wk_ws (set_net e w) = wk_ws w"
  "wk_ws (make_ws W w)" "wk_engine (set_engine g w) = g"
  by (simp_all add: emit_def set_engine_def set_net_def make_ws_def)

section \<open>What a start slot does\<close>

lemma handshake_ready:
  "runClientHandshake L s r g = (Inr fp, g') \<Longrightarrow> session_ready g'"
  "runServerHandshake L s r g = (Inr fp, g') \<Longrightarrow> session_ready g'"
  using handshake_settled [OF client_fails_unready, of L s r g] handshake_settled [OF server_fails_unready, of L s r g]
  by (auto simp: runClientHandshake_def runServerHandshake_def report_Inr settled_def)

text \<open>Either it only talks, or it talks and then establishes a session.\<close>

definition start_outcome :: "'e worker \<Rightarrow> 'e worker \<Rightarrow> bool" where
  "start_outcome w w' \<longleftrightarrow> quiet_part w w' \<or>
     (\<exists>w1 m msg peer. quiet_part w w1 \<and> m \<noteq> NoMode \<and> session_ready (wk_engine w1) \<and> (m = WS \<longrightarrow> wk_ws w1) \<and>
        w' = established m msg peer w1)"

lemma start_quiet: "quiet_part w w' \<Longrightarrow> start_outcome w w'"
  by (simp add: start_outcome_def)

lemma start_established:
  "quiet_part w w1 \<Longrightarrow> m \<noteq> NoMode \<Longrightarrow> session_ready (wk_engine w1) \<Longrightarrow> m = WS \<longrightarrow> wk_ws w1 \<Longrightarrow>
     start_outcome w (established m msg peer w1)"
  unfolding start_outcome_def by blast

lemma handshake_outcome:
  assumes "quiet_part w v"
    and "\<And>fp g'. h = (Inr fp, g') \<Longrightarrow> session_ready g'"
    and "\<And>err g'. quiet_part w (fail err g')" and "m \<noteq> NoMode" and "m = WS \<longrightarrow> wk_ws v"
  shows "start_outcome w (case h of (Inl err, g) \<Rightarrow> fail err g | (Inr peer, g) \<Rightarrow> established m msg peer (set_engine g v))"
proof (cases h)
  case (Pair r g)
  show ?thesis
  proof (cases r)
    case (Inl err)
    with Pair assms(3) show ?thesis by (simp add: start_quiet)
  next
    case (Inr peer)
    have "start_outcome w (established m msg peer (set_engine g v))"
      using assms(2) [of peer g] Pair Inr assms(1,4,5)
      by (intro start_established quiet_intros) simp_all
    with Pair Inr show ?thesis by simp
  qed
qed

lemma connect_outcome: "start_outcome w (connect_body L Q T endpoint pw w)"
proof (cases "parseEndpoint Q endpoint")
  case None
  then show ?thesis by (simp add: connect_body_def start_quiet quiet_intros)
next
  case (Some hp)
  obtain host port where hp: "hp = (host, port)" by (cases hp)
  obtain ok v where v: "unlock L pw w = (ok, v)" by fastforce
  then have q: "quiet_part w v" using quiet_unlock [of w L pw] by simp
  let ?v = "emit (Status (qt_arg Q (qt_arg Q ''Connecting to %1:%2 ...'' host) (to_string (unat port)))) v"
  obtain ok2 e where e: "tc_connect T host port (net ?v) = (ok2, e)" by fastforce
  have "start_outcome w (case runClientHandshake L (tcp_send_fn T) (tcp_recv_fn T) (wk_engine (set_net e ?v)) of
      (Inl err, g) \<Rightarrow> emit (Error (''Handshake/connect error: '' @ err)) (set_net (tc_close T (env g)) (set_engine g ?v))
    | (Inr peer, g) \<Rightarrow> established TCP ''Handshake complete. Session established (client/TCP).'' peer (set_engine g ?v))"
    by (rule handshake_outcome) (auto intro!: quiet_intros q dest: handshake_ready)
  then show ?thesis
    unfolding connect_body_def Some hp option.case prod.case v prod.case Let_def e
    by (cases ok; cases ok2)
      (simp_all only: bool.case start_quiet quiet_intros q plain_signal.simps)
qed

lemma host_outcome: "start_outcome w (host_body L T port pw w)"
proof -
  obtain ok v where v: "unlock L pw w = (ok, v)" by fastforce
  then have q: "quiet_part w v" using quiet_unlock [of w L pw] by simp
  let ?v = "emit (Status (''Hosting on port '' @ to_string (unat port) @ '' ...'')) v"
  obtain ok2 e where e: "tc_listen_and_accept T port (net ?v) = (ok2, e)" by fastforce
  have "start_outcome w (case runServerHandshake L (tcp_send_fn T) (tcp_recv_fn T) (wk_engine (set_net e ?v)) of
      (Inl err, g) \<Rightarrow> emit (Error (''Handshake/host error: '' @ err)) (set_net (tc_close T (env g)) (set_engine g ?v))
    | (Inr peer, g) \<Rightarrow> established TCP ''Handshake complete. Session established (host/TCP).'' peer (set_engine g ?v))"
    by (rule handshake_outcome) (auto intro!: quiet_intros q dest: handshake_ready)
  then show ?thesis
    unfolding host_body_def v prod.case Let_def e
    by (cases ok; cases ok2)
      (simp_all only: bool.case start_quiet quiet_intros q plain_signal.simps)
qed

lemma relay_connect_outcome: "start_outcome w (relay_connect_body L Q W url user pw w)"
proof -
  obtain ok v where v: "unlock L pw w = (ok, v)" by fastforce
  then have q: "quiet_part w v" using quiet_unlock [of w L pw] by simp
  let ?url = "gui_ws_join Q url user"
  let ?v = "make_ws W (emit (Status (''Relay connect to '' @ ?url @ '' ...'')) v)"
  obtain ok2 e where e: "wo_connect_url W ?url (net ?v) = (ok2, e)" by fastforce
  have "start_outcome w (case runClientHandshake L (ws_send_fn W) (ws_recv_fn W) (wk_engine (set_net e ?v)) of
      (Inl err, g) \<Rightarrow> emit (Error (''Relay handshake error: '' @ err))
         (reset_ws W (set_net (wo_close W (env g)) (set_engine g ?v)))
    | (Inr peer, g) \<Rightarrow> established WS ''Handshake complete. Session established (relay/client).'' peer (set_engine g ?v))"
    by (rule handshake_outcome) (auto intro!: quiet_intros q dest: handshake_ready)
  then show ?thesis
    unfolding relay_connect_body_def v prod.case Let_def e
    by (cases ok; cases ok2)
      (simp_all only: bool.case start_quiet quiet_intros q plain_signal.simps)
qed

lemma relay_host_outcome: "start_outcome w (relay_host_body L Q W url user pw w)"
proof -
  obtain ok v where v: "unlock L pw w = (ok, v)" by fastforce
  then have q: "quiet_part w v" using quiet_unlock [of w L pw] by simp
  let ?url = "gui_ws_join Q url user"
  let ?v = "make_ws W (emit (Status (''Relay host (listen) at '' @ ?url @ '' ...'')) v)"
  obtain ok2 e where e: "wo_connect_url W ?url (net ?v) = (ok2, e)" by fastforce
  have "start_outcome w (case runServerHandshake L (ws_send_fn W) (ws_recv_fn W) (wk_engine (set_net e ?v)) of
      (Inl err, g) \<Rightarrow> emit (Error (''Relay host handshake error: '' @ err))
         (reset_ws W (set_net (wo_close W (env g)) (set_engine g ?v)))
    | (Inr peer, g) \<Rightarrow> established WS ''Handshake complete. Session established (relay/host).'' peer (set_engine g ?v))"
    by (rule handshake_outcome) (auto intro!: quiet_intros q dest: handshake_ready)
  then show ?thesis
    unfolding relay_host_body_def v prod.case Let_def e
    by (cases ok; cases ok2)
      (simp_all only: bool.case start_quiet quiet_intros q plain_signal.simps)
qed

lemma start_body_outcome: "start_outcome w (start_body L Q T W s w)"
  by (cases s) (simp_all add: connect_outcome host_outcome relay_connect_outcome relay_host_outcome
      start_quiet quiet_intros)

section \<open>The invariant\<close>

definition worker_inv :: "'e worker \<Rightarrow> bool" where
  "worker_inv w \<longleftrightarrow>
     (\<not> wk_aborted w \<longrightarrow> session_signals False (wk_signals w) = Some (wk_rx w \<in> {RxRunning, RxEnding}) \<and>
        (wk_connected w \<longleftrightarrow> wk_rx w = RxRunning) \<and>
        (wk_connected w \<longrightarrow> session_ready (wk_engine w) \<and> (wk_mode w = TCP \<or> wk_mode w = WS \<and> wk_ws w)))"

lemma quiet_signals:
  "quiet_part w w' \<Longrightarrow> session_signals False (wk_signals w) = Some b \<Longrightarrow> session_signals False (wk_signals w') = Some b"
  by (auto simp: quiet_part_def session_signals_append session_signals_plain)

lemma quiet_inv:
  "worker_inv w \<Longrightarrow> \<not> wk_connected w \<Longrightarrow> quiet_part w w' \<Longrightarrow> worker_inv w'"
  using quiet_signals [of w w'] by (auto simp: worker_inv_def quiet_part_def)

lemma established_inv:
  assumes "worker_inv w" and "\<not> wk_connected w" and q: "quiet_part w w1"
    and "m \<noteq> NoMode" and "session_ready (wk_engine w1)" and "m = WS \<longrightarrow> wk_ws w1"
  shows "worker_inv (established m msg peer w1)"
proof -
  have "session_signals False (wk_signals w1) = Some False" if "\<not> wk_aborted w1" "wk_rx w1 = NoThread"
    using quiet_signals [OF q, of False] assms(1,2) q that by (simp add: worker_inv_def quiet_part_def)
  with assms(4-6) show ?thesis
    by (cases m) (auto simp: worker_inv_def established_def emit_def Let_def session_signals_append)
qed

lemma start_inv:
  "worker_inv w \<Longrightarrow> \<not> wk_connected w \<Longrightarrow> start_outcome w w' \<Longrightarrow> worker_inv w'"
  unfolding start_outcome_def using quiet_inv established_inv by blast

lemma disconnect_begin_parts:
  "wk_rx (disconnect_begin T W w) = wk_rx w" "wk_connected (disconnect_begin T W w) = wk_connected w"
  "wk_aborted (disconnect_begin T W w) = wk_aborted w" "wk_mode (disconnect_begin T W w) = wk_mode w"
  "wk_ws (disconnect_begin T W w) = wk_ws w" "wk_signals (disconnect_begin T W w) = wk_signals w"
  "session_ready (wk_engine (disconnect_begin T W w)) = session_ready (wk_engine w)"
  by (simp_all add: disconnect_begin_def set_net_def Let_def)

lemma disconnect_begin_inv:
  "worker_inv w \<Longrightarrow> worker_inv ((disconnect_begin T W w)\<lparr>wk_at := a\<rparr>)"
  by (simp add: worker_inv_def disconnect_begin_parts)

lemma emit_plain_inv: "worker_inv w \<Longrightarrow> plain_signal s \<Longrightarrow> worker_inv (emit s w)"
  using session_signals_plain [of "[s]"] by (simp add: worker_inv_def emit_def session_signals_append)

text \<open>When the join returns, the receiving thread has already reported the end of the session.\<close>

lemma disconnect_end_inv:
  assumes "worker_inv w" and "\<not> wk_aborted w" and "wk_rx w \<in> {NoThread, RxFinished}"
  shows "worker_inv ((disconnect_end w)\<lparr>wk_at := Ready\<rparr>) \<and> \<not> wk_connected ((disconnect_end w)\<lparr>wk_at := Ready\<rparr>)"
  using assms by (auto simp: worker_inv_def disconnect_end_def Let_def)

lemma send_message_parts:
  "\<exists>g s. send_message L T W body w = w\<lparr>wk_engine := g, wk_signals := wk_signals w @ s\<rparr> \<and> list_all plain_signal s \<and>
     session_ready g = session_ready (wk_engine w)"
proof (cases "wk_connected w")
  case False
  then show ?thesis
    by (intro exI [of _ "wk_engine w"] exI [of _ "[Error ''Not connected.'']"]) (simp add: send_message_def emit_def)
next
  case True
  obtain r g where enc: "encryptAndSerializeMessage L body ''gui'' ''peer'' (wk_engine w) = (r, g)" by fastforce
  have ready: "session_ready g = session_ready (wk_engine w)"
    using more_fields(4) [OF encryptAndSerialize_keeps [of L body "''gui''" "''peer''" "wk_engine w"]] enc by simp
  show ?thesis
  proof (cases r)
    case (Inl err)
    with True enc ready show ?thesis
      by (intro exI [of _ g] exI [of _ "[Error (''Send error: '' @ err)]"])
         (simp add: send_message_def emit_def set_engine_def)
  next
    case (Inr frame)
    obtain ok e where sent: "(if wk_mode w = TCP then tc_send T frame (env g)
        else if wk_mode w = WS \<and> wk_ws w then wo_send W frame (env g) else (False, env g)) = (ok, e)" by fastforce
    have "send_message L T W body w = (if ok then w\<lparr>wk_engine := g\<lparr>env := e\<rparr>\<rparr>
        else emit (Error ''Send failed'') (w\<lparr>wk_engine := g\<lparr>env := e\<rparr>\<rparr>))"
      using True enc Inr sent
      by (auto simp: send_message_def set_engine_def set_net_def Let_def split: if_splits prod.splits)
    then have "send_message L T W body w = w\<lparr>wk_engine := g\<lparr>env := e\<rparr>,
        wk_signals := wk_signals w @ (if ok then [] else [Error ''Send failed''])\<rparr>"
      by (simp add: emit_def)
    with ready show ?thesis
      by (intro exI [of _ "g\<lparr>env := e\<rparr>"] exI [of _ "if ok then [] else [Error ''Send failed'']"]) simp
  qed
qed

lemma send_message_inv: "worker_inv w \<Longrightarrow> worker_inv (send_message L T W body w)"
  using send_message_parts [of L T W body w]
  by (auto simp: worker_inv_def session_signals_append session_signals_plain)

lemma recv_iteration_inv:
  assumes "worker_inv w" and "\<not> wk_aborted w" and "wk_rx w = RxRunning"
  shows "worker_inv (recv_iteration L T W w)"
proof -
  obtain r e where re: "(if wk_mode w = TCP then tc_recv T (net w)
      else if wk_mode w = WS \<and> wk_ws w then wo_recv W (net w) else (None, net w)) = (r, e)" by fastforce
  show ?thesis
  proof (cases r)
    case None
    with re assms show ?thesis
      by (simp add: recv_iteration_def worker_inv_def emit_def set_net_def session_signals_append)
  next
    case (Some frame)
    obtain r2 g where dec: "parseAndDecryptMessage L frame ((wk_engine w)\<lparr>env := e\<rparr>) = (r2, g)" by fastforce
    have "session_ready g = session_ready (wk_engine w)"
      using more_fields(4) [OF parseAndDecrypt_keeps [of L frame "(wk_engine w)\<lparr>env := e\<rparr>"]] dec by simp
    with re Some dec assms show ?thesis
      by (cases r2)
        (auto simp: recv_iteration_def worker_inv_def emit_def set_net_def set_engine_def session_signals_append)
  qed
qed

lemma recv_leave_inv:
  "worker_inv w \<Longrightarrow> \<not> wk_aborted w \<Longrightarrow> wk_rx w = RxEnding \<Longrightarrow> worker_inv (recv_leave w)"
  by (simp add: worker_inv_def recv_leave_def emit_def session_signals_append)

lemma run_slot_start:
  assumes "\<And>x. s \<noteq> SendMessage x" and "s \<noteq> DisconnectFromPeer"
  shows "run_slot L Q T W s w = (if wk_connected w
      then (disconnect_begin T W (emit (Status ''Already connected; disconnecting first.'') w))\<lparr>wk_at := Joining (Some s)\<rparr>
      else start_body L Q T W s w)"
  by (cases s) (use assms in \<open>auto simp del: start_body.simps\<close>)

lemma run_slot_inv:
  assumes "worker_inv w"
  shows "worker_inv (run_slot L Q T W s w)"
proof (cases "(\<exists>x. s = SendMessage x) \<or> s = DisconnectFromPeer")
  case True
  with assms show ?thesis by (auto simp: send_message_inv disconnect_begin_inv)
next
  case False
  then have eq: "run_slot L Q T W s w = (if wk_connected w
      then (disconnect_begin T W (emit (Status ''Already connected; disconnecting first.'') w))\<lparr>wk_at := Joining (Some s)\<rparr>
      else start_body L Q T W s w)"
    by (intro run_slot_start) auto
  show ?thesis
  proof (cases "wk_connected w")
    case True
    then show ?thesis unfolding eq by (simp only: if_True disconnect_begin_inv emit_plain_inv assms plain_signal.simps)
  next
    case False
    then show ?thesis unfolding eq using start_inv [OF assms False start_body_outcome] by simp
  qed
qed

lemma worker_inv_step: "worker_inv w \<Longrightarrow> worker_step L Q T W w a w' \<Longrightarrow> worker_inv w'"
proof (erule worker_stepE)
  fix s
  assume "worker_inv w" and "w' = run_slot L Q T W s w"
  then show ?thesis by (simp only: run_slot_inv)
next
  assume "worker_inv w" and "w' = (disconnect_end w)\<lparr>wk_at := Ready\<rparr>" and "\<not> wk_aborted w"
    and "wk_rx w = NoThread \<or> wk_rx w = RxFinished"
  then show ?thesis using disconnect_end_inv [of w] by simp
next
  fix s
  assume "worker_inv w" and "w' = start_body L Q T W s ((disconnect_end w)\<lparr>wk_at := Ready\<rparr>)"
    and "\<not> wk_aborted w" and "wk_rx w = NoThread \<or> wk_rx w = RxFinished"
  then have "worker_inv ((disconnect_end w)\<lparr>wk_at := Ready\<rparr>) \<and> \<not> wk_connected ((disconnect_end w)\<lparr>wk_at := Ready\<rparr>)"
    by (intro disconnect_end_inv) simp_all
  then show ?thesis unfolding \<open>w' = _\<close> by (intro start_inv [OF _ _ start_body_outcome]) simp_all
next
  assume "worker_inv w" and "w' = recv_iteration L T W w" and "\<not> wk_aborted w" and "wk_rx w = RxRunning"
  then show ?thesis using recv_iteration_inv by blast
next
  assume "worker_inv w" and "w' = recv_leave w" and "\<not> wk_aborted w" and "wk_rx w = RxEnding"
  then show ?thesis using recv_leave_inv by blast
qed

interpretation gui_worker: step_invariant "worker_step L Q T W" "worker_init g" worker_inv
  by (rule step_invariant.intro, simp add: worker_inv_def worker_init_def, rule worker_inv_step)

text \<open>C36: as long as the process lives, the signals \<open>connected\<close> and \<open>disconnected\<close> of the worker alternate, starting with
  \<open>connected\<close>, messages are reported only in between, and a session is open exactly while the receiving
  thread has not left its loop: no session ends without, or with more than, one \<open>disconnected\<close>.\<close>

theorem worker_signals_alternate:
  assumes "run (worker_step L Q T W) (worker_init g) acts w" and "\<not> wk_aborted w"
  shows "session_signals False (wk_signals w) = Some (wk_rx w \<in> {RxRunning, RxEnding}) \<and>
    wk_connected w = (wk_rx w = RxRunning)"
  using gui_worker.reach_inv [OF assms(1)] assms(2) by (simp add: worker_inv_def)

text \<open>C37: whenever a slot or the receiving thread uses the connection, the engine has a session and \<open>mode_\<close> names a
  transport that exists: the branches for a missing transport are never taken.\<close>

theorem worker_connected_typed:
  assumes "run (worker_step L Q T W) (worker_init g) acts w" and "wk_connected w" and "\<not> wk_aborted w"
  shows "session_ready (wk_engine w) \<and> (wk_mode w = TCP \<or> wk_mode w = WS \<and> wk_ws w)"
  using gui_worker.reach_inv [OF assms(1)] assms(2,3) by (auto simp: worker_inv_def)

text \<open>C38: after the peer has closed the connection and the receiving thread has left its loop, a slot that gets a new
  session up ends the process: the old thread was never joined, and assigning a new one to \<open>rxThread_\<close> calls \<open>std::terminate\<close>.\<close>

theorem reconnect_after_close_terminates:
  assumes "run (worker_step L Q T W) (worker_init g) acts w" and "wk_rx w \<in> {RxEnding, RxFinished}" and "\<not> wk_aborted w"
    and "worker_step L Q T W w (RunSlot s) w'" and "wk_connected w'"
  shows "wk_aborted w' \<and> (\<forall>a w''. \<not> worker_step L Q T W w' a w'')"
proof -
  have I: "worker_inv w" by (rule gui_worker.reach_inv [OF assms(1)])
  then have off: "\<not> wk_connected w" using assms(2,3) by (auto simp: worker_inv_def)
  have w': "w' = run_slot L Q T W s w" using assms(4) by (rule worker_slotE)
  have "\<not> (\<exists>x. s = SendMessage x) \<and> s \<noteq> DisconnectFromPeer"
    using assms(5) off send_message_parts [of L T W _ w]
    by (auto simp: w' disconnect_begin_parts send_message_def emit_def)
  then have "w' = start_body L Q T W s w" using run_slot_start [of s L Q T W w] off w' by simp
  then have "start_outcome w w'" using start_body_outcome by metis
  then have "wk_aborted w'"
    using assms(2,5) off by (auto simp: start_outcome_def quiet_part_def established_def emit_def Let_def)
  then show ?thesis by (auto elim: worker_stepE)
qed

text \<open>An endpoint that is accepted has a non-empty host and a port from 1 to 65535 that is the number after the
  last colon: the cast to 16 bits loses nothing.\<close>

theorem parse_endpoint_bounds:
  assumes "parseEndpoint Q endpoint = Some (host, port)"
  shows "\<exists>digits. qt_trimmed Q endpoint = host @ '':'' @ digits \<and> CHR '':'' \<notin> set digits \<and> host \<noteq> [] \<and>
    qt_to_int Q digits = Some (int (unat port)) \<and> 0 < unat port"
proof -
  let ?ep = "qt_trimmed Q endpoint"
  obtain idx p where idx: "cxx_rfind CHR '':'' ?ep = Some idx" "idx \<noteq> 0"
    and p: "qt_to_int Q (drop (idx + 1) ?ep) = Some p" "0 < p" "p \<le> 65535"
    and out: "host = take idx ?ep" "port = word_of_int p"
    using assms by (auto simp: parseEndpoint_def Let_def split: option.splits if_splits)
  have "CHR '':'' \<in> set ?ep" using idx(1) by (metis cxx_rfind_None option.distinct(1))
  then obtain a b where ab: "?ep = a @ CHR '':'' # b" "CHR '':'' \<notin> set b" by (metis split_list_last)
  then have "idx = length a" using cxx_rfind_found [of "CHR '':''" b a] idx(1) by simp
  then have "host = a" "drop (idx + 1) ?ep = b" using out(1) ab by simp_all
  moreover have "int (unat port) = p"
    using p out(2) by (simp add: unsigned_of_int take_bit_int_eq_self)
  moreover from this have "0 < unat port" using p(2) by linarith
  ultimately show ?thesis
    using ab idx(2) \<open>idx = length a\<close> p(1) by auto
qed

end
