(* ===== verification/Window.thy ===== *)
theory Window
  imports Worker_Props
begin

text \<open>
  \<^verbatim>\<open>gui/MainWindow.cpp\<close>: the window as what it shows and what it asks of the worker. The dialogs' answers
  and the signals of the worker are its events; the layout of the widgets is not modelled.
\<close>

section \<open>The window\<close>

text \<open>\<open>wi_chat\<close> are the HTML fragments appended to \<open>chatView_\<close>, \<open>wi_requests\<close> the request signals, each
  named by the slot of the worker that the constructor connects it to.\<close>

record window =
  wi_chat :: "string list"
  wi_input :: string
  wi_status :: string
  wi_identity :: string
  wi_requests :: "slot list"

text \<open>\<open>H\<close> is \<open>QString::toHtmlEscaped\<close>, \<open>ts\<close> the time of day as it is printed.\<close>

definition system_line :: "string \<Rightarrow> string \<Rightarrow> string" where
  "system_line ts body = ''<div style='color:gray'>['' @ ts @ ''] '' @ body @ ''</div>''"

definition user_line :: "string \<Rightarrow> string \<Rightarrow> string" where
  "user_line ts body = ''<div>['' @ ts @ ''] <b>You:</b> '' @ body @ ''</div>''"

definition peer_line :: "string \<Rightarrow> string \<Rightarrow> string" where
  "peer_line ts body = ''<div style='color:#2b78e4'>['' @ ts @ ''] <b>Peer:</b> '' @ body @ ''</div>''"

definition append_line :: "string \<Rightarrow> window \<Rightarrow> window" where
  "append_line l w = w\<lparr>wi_chat := wi_chat w @ [l]\<rparr>"

definition appendSystem :: "(string \<Rightarrow> string) \<Rightarrow> string \<Rightarrow> string \<Rightarrow> window \<Rightarrow> window" where
  "appendSystem H ts line = append_line (system_line ts (H line))"

definition appendUser :: "(string \<Rightarrow> string) \<Rightarrow> string \<Rightarrow> string \<Rightarrow> window \<Rightarrow> window" where
  "appendUser H ts line = append_line (user_line ts (H line))"

definition request :: "slot \<Rightarrow> window \<Rightarrow> window" where
  "request s w = w\<lparr>wi_requests := wi_requests w @ [s]\<rparr>"

text \<open>The constructor; the arrows of the greeting are in UTF-8.\<close>

definition window_new :: "(string \<Rightarrow> string) \<Rightarrow> string \<Rightarrow> window" where
  "window_new H ts = appendSystem H ts
     (''Welcome! Use Relay '' @ [CHR 0xE2, CHR 0x86, CHR 0x92] @ '' Go Online on one instance, then Relay '' @
      [CHR 0xE2, CHR 0x86, CHR 0x92] @ '' Connect by Username from another.'')
     \<lparr>wi_chat = [], wi_input = [], wi_status = ''Disconnected'', wi_identity = ''id: --'', wi_requests = []\<rparr>"

section \<open>The slots\<close>

text \<open>Actions of the user. A dialog gives \<open>None\<close> when it is cancelled; the later dialogs of a slot are then
  not shown and their answers not looked at.\<close>

definition onConnect ::
  "(string \<Rightarrow> string) \<Rightarrow> string \<Rightarrow> string option \<Rightarrow> string option \<Rightarrow> window \<Rightarrow> window" where
  "onConnect H ts endpoint password w =
     (case endpoint of
        None \<Rightarrow> w
      | Some ep \<Rightarrow>
         if ep = [] then w
         else (case password of
             None \<Rightarrow> w
           | Some pw \<Rightarrow> request (StartConnect ep pw) (appendSystem H ts (''Connecting to '' @ ep @ '' ...'') w)))"

definition onHost ::
  "(string \<Rightarrow> string) \<Rightarrow> string \<Rightarrow> nat option \<Rightarrow> string option \<Rightarrow> window \<Rightarrow> window" where
  "onHost H ts port password w =
     (case port of
        None \<Rightarrow> w
      | Some p \<Rightarrow>
         (case password of
            None \<Rightarrow> w
          | Some pw \<Rightarrow> request (StartHost (of_nat p) pw)
              (appendSystem H ts (''Hosting on port '' @ to_string p @ '' ...'') w)))"

text \<open>The two relay slots, up to the constructor and the text of the line.\<close>

definition relay_dialog ::
  "(string \<Rightarrow> string \<Rightarrow> string) \<Rightarrow> (string \<Rightarrow> string \<Rightarrow> string \<Rightarrow> slot) \<Rightarrow> (string \<Rightarrow> string) \<Rightarrow> string \<Rightarrow>
   string option \<Rightarrow> string option \<Rightarrow> string option \<Rightarrow> window \<Rightarrow> window" where
  "relay_dialog line mk H ts relay username password w =
     (case relay of
        None \<Rightarrow> w
      | Some r \<Rightarrow>
         if r = [] then w
         else (case username of
             None \<Rightarrow> w
           | Some u \<Rightarrow>
              if u = [] then w
              else (case password of
                  None \<Rightarrow> w
                | Some pw \<Rightarrow> request (mk r u pw) (appendSystem H ts (line u r) w))))"

definition onRelayHost ::
  "(string \<Rightarrow> string) \<Rightarrow> string \<Rightarrow> string option \<Rightarrow> string option \<Rightarrow> string option \<Rightarrow> window \<Rightarrow> window" where
  "onRelayHost = relay_dialog (\<lambda>u r. ''Relay online as @'' @ u @ '' via '' @ r) StartRelayHost"

definition onRelayConnect ::
  "(string \<Rightarrow> string) \<Rightarrow> string \<Rightarrow> string option \<Rightarrow> string option \<Rightarrow> string option \<Rightarrow> window \<Rightarrow> window" where
  "onRelayConnect = relay_dialog (\<lambda>u r. ''Connecting to @'' @ u @ '' via '' @ r @ '' ...'') StartRelayConnect"

definition onDisconnect :: "window \<Rightarrow> window" where
  "onDisconnect w = request DisconnectFromPeer w"

definition onSend :: "(string \<Rightarrow> string) \<Rightarrow> 'u qt \<Rightarrow> string \<Rightarrow> window \<Rightarrow> window" where
  "onSend H Q ts w =
     (let body = qt_trimmed Q (wi_input w) in
      if body = [] then w
      else request (SendMessage body) ((appendUser H ts body w)\<lparr>wi_input := []\<rparr>))"

text \<open>Signals of the worker.\<close>

definition onWorkerConnected :: "(string \<Rightarrow> string) \<Rightarrow> string \<Rightarrow> window \<Rightarrow> window" where
  "onWorkerConnected H ts w = appendSystem H ts ''Connected.'' (w\<lparr>wi_status := ''Connected''\<rparr>)"

definition onWorkerDisconnected :: "(string \<Rightarrow> string) \<Rightarrow> string \<Rightarrow> window \<Rightarrow> window" where
  "onWorkerDisconnected H ts w = appendSystem H ts ''Disconnected.'' (w\<lparr>wi_status := ''Disconnected''\<rparr>)"

definition onWorkerMessage :: "(string \<Rightarrow> string) \<Rightarrow> string \<Rightarrow> string \<Rightarrow> window \<Rightarrow> window" where
  "onWorkerMessage H ts body = append_line (peer_line ts (H body))"

definition error_markup :: "(string \<Rightarrow> string) \<Rightarrow> string \<Rightarrow> string" where
  "error_markup H msg = ''<span style='color:#c00'>Error: '' @ H msg @ ''</span>''"

definition onWorkerError :: "(string \<Rightarrow> string) \<Rightarrow> string \<Rightarrow> string \<Rightarrow> window \<Rightarrow> window" where
  "onWorkerError H ts msg = appendSystem H ts (error_markup H msg)"

definition onIdentityReady :: "string \<Rightarrow> window \<Rightarrow> window" where
  "onIdentityReady fp w = w\<lparr>wi_identity := ''id: '' @ fp\<rparr>"

fun on_signal :: "(string \<Rightarrow> string) \<Rightarrow> string \<Rightarrow> signal \<Rightarrow> window \<Rightarrow> window" where
  "on_signal H ts Connected w = onWorkerConnected H ts w"
| "on_signal H ts Disconnected w = onWorkerDisconnected H ts w"
| "on_signal H ts (MessageReceived body) w = onWorkerMessage H ts body w"
| "on_signal H ts (Status line) w = appendSystem H ts line w"
| "on_signal H ts (Error msg) w = onWorkerError H ts msg w"
| "on_signal H ts (IdentityReady fp) w = onIdentityReady fp w"

section \<open>Events\<close>

datatype win_event =
    FromWorker signal
  | ClickConnect "string option" "string option"
  | ClickHost "nat option" "string option"
  | ClickRelayHost "string option" "string option" "string option"
  | ClickRelayConnect "string option" "string option" "string option"
  | ClickDisconnect
  | Edit string
  | ClickSend
  | ClickAbout

fun on_event :: "(string \<Rightarrow> string) \<Rightarrow> 'u qt \<Rightarrow> string \<times> win_event \<Rightarrow> window \<Rightarrow> window" where
  "on_event H Q (ts, FromWorker s) w = on_signal H ts s w"
| "on_event H Q (ts, ClickConnect ep pw) w = onConnect H ts ep pw w"
| "on_event H Q (ts, ClickHost port pw) w = onHost H ts port pw w"
| "on_event H Q (ts, ClickRelayHost r u pw) w = onRelayHost H ts r u pw w"
| "on_event H Q (ts, ClickRelayConnect r u pw) w = onRelayConnect H ts r u pw w"
| "on_event H Q (ts, ClickDisconnect) w = onDisconnect w"
| "on_event H Q (ts, Edit s) w = w\<lparr>wi_input := s\<rparr>"
| "on_event H Q (ts, ClickSend) w = onSend H Q ts w"
| "on_event H Q (ts, ClickAbout) w = appendSystem H ts
     (''Relay mode: both clients connect to the same ws room name (username), '' @
      ''then run the E2E handshake over that WebSocket.'') w"

definition window_after :: "(string \<Rightarrow> string) \<Rightarrow> 'u qt \<Rightarrow> string \<Rightarrow> (string \<times> win_event) list \<Rightarrow> window" where
  "window_after H Q ts evs = fold (on_event H Q) evs (window_new H ts)"

fun signals_of :: "(string \<times> win_event) list \<Rightarrow> signal list" where
  "signals_of [] = []"
| "signals_of ((_, FromWorker s) # evs) = s # signals_of evs"
| "signals_of (_ # evs) = signals_of evs"

end
