(* ===== verification/Window_Props.thy ===== *)
theory Window_Props
  imports Window
begin

text \<open>
  What the window shows: the label agrees with the worker, nobody's text becomes markup or passes for somebody
  else's, and error messages are escaped twice.
\<close>

section \<open>The escape\<close>

fun esc_char :: "char \<Rightarrow> string" where
  "esc_char c =
     (if c = CHR ''<'' then ''&lt;'' else if c = CHR ''>'' then ''&gt;'' else if c = CHR ''&'' then ''&amp;''
      else if c = CHR 0x22 then ''&quot;'' else [c])"

text \<open>The documentation of \<open>toHtmlEscaped\<close>: these four characters are replaced by their entities.\<close>

definition escapes :: "(string \<Rightarrow> string) \<Rightarrow> bool" where
  "escapes H \<longleftrightarrow> (\<forall>s. H s = concat (map esc_char s))"

lemma esc_char_append: "esc_char c @ x = esc_char d @ y \<Longrightarrow> c = d \<and> x = y"
  by (auto split: if_splits)

lemma escapes_inj:
  assumes "escapes H" and "H s = H t"
  shows "s = t"
proof -
  have "concat (map esc_char s) = concat (map esc_char t) \<Longrightarrow> s = t"
  proof (induction s arbitrary: t)
    case Nil
    then show ?case by (cases t) (auto split: if_splits)
  next
    case (Cons c s)
    show ?case
    proof (cases t)
      case Nil
      with Cons.prems show ?thesis by (auto split: if_splits)
    next
      case (Cons d t')
      then have "esc_char c @ concat (map esc_char s) = esc_char d @ concat (map esc_char t')"
        using Cons.prems by (simp del: esc_char.simps)
      then have "c = d" and eq: "concat (map esc_char s) = concat (map esc_char t')"
        using esc_char_append by blast+
      from Cons.IH [OF eq] Cons \<open>c = d\<close> show ?thesis by simp
    qed
  qed
  with assms show ?thesis by (simp add: escapes_def del: esc_char.simps)
qed

lemma escapes_inert: "escapes H \<Longrightarrow> set (H s) \<inter> {CHR ''<'', CHR ''>'', CHR 0x22} = {}"
  by (auto simp: escapes_def split: if_splits)

section \<open>The three kinds of lines\<close>

lemma lines_differ:
  "system_line a b \<noteq> user_line c d" "system_line a b \<noteq> peer_line c d" "user_line a b \<noteq> peer_line c d"
  by (simp_all add: system_line_def user_line_def peer_line_def)

text \<open>Where a line of the view can come from.\<close>

definition genuine :: "(string \<Rightarrow> string) \<Rightarrow> (string \<times> win_event) list \<Rightarrow> window \<Rightarrow> string \<Rightarrow> bool" where
  "genuine H evs w l \<longleftrightarrow>
     (\<exists>t body. l = system_line t (H body) \<or>
        l = user_line t (H body) \<and> SendMessage body \<in> set (wi_requests w) \<or>
        l = peer_line t (H body) \<and> (t, FromWorker (MessageReceived body)) \<in> set evs)"

definition window_inv :: "(string \<Rightarrow> string) \<Rightarrow> (string \<times> win_event) list \<Rightarrow> window \<Rightarrow> bool" where
  "window_inv H evs w \<longleftrightarrow> (\<forall>l \<in> set (wi_chat w). genuine H evs w l)"

lemma genuine_mono:
  "genuine H evs w l \<Longrightarrow> set (wi_requests w) \<subseteq> set (wi_requests w') \<Longrightarrow> set evs \<subseteq> set evs' \<Longrightarrow> genuine H evs' w' l"
  unfolding genuine_def by blast

lemma genuine_system: "genuine H evs w (system_line t (H body))"
  unfolding genuine_def by blast

lemma window_inv_extend:
  assumes "window_inv H evs w" and "set (wi_requests w) \<subseteq> set (wi_requests w')"
    and "wi_chat w' = wi_chat w @ ls" and "\<And>l. l \<in> set ls \<Longrightarrow> genuine H (evs @ [ev]) w' l"
  shows "window_inv H (evs @ [ev]) w'"
  unfolding window_inv_def
proof
  fix l
  assume "l \<in> set (wi_chat w')"
  then consider "l \<in> set (wi_chat w)" | "l \<in> set ls" using assms(3) by auto
  then show "genuine H (evs @ [ev]) w' l"
  proof cases
    case 1
    then have "genuine H evs w l" using assms(1) by (simp add: window_inv_def)
    then show ?thesis by (rule genuine_mono) (use assms(2) in auto)
  qed (rule assms(4))
qed

text \<open>What one event adds: lines and requests.\<close>

lemmas window_simps = append_line_def appendSystem_def appendUser_def request_def

definition is_system :: "(string \<Rightarrow> string) \<Rightarrow> string \<Rightarrow> bool" where
  "is_system H l \<longleftrightarrow> (\<exists>t body. l = system_line t (H body))"

lemma is_system [simp]: "is_system H (system_line t (H body))"
  by (auto simp: is_system_def)

lemma window_inv_system:
  assumes "window_inv H evs w" and "set (wi_requests w) \<subseteq> set (wi_requests w')"
    and "wi_chat w' = wi_chat w \<or> (\<exists>l. wi_chat w' = wi_chat w @ [l] \<and> is_system H l)"
  shows "window_inv H (evs @ [ev]) w'"
proof -
  obtain ls where ls: "wi_chat w' = wi_chat w @ ls" "list_all (is_system H) ls"
    using assms(3) by (auto intro: that [of "[]"])
  show ?thesis by (rule window_inv_extend [OF assms(1,2) ls(1)]) (use ls(2) in \<open>auto simp: list_all_iff is_system_def genuine_system\<close>)
qed

lemma window_inv_event:
  assumes "window_inv H evs w"
  shows "window_inv H (evs @ [ev]) (on_event H Q ev w)"
proof -
  obtain ts e where ev: "ev = (ts, e)" by (cases ev)
  note sys = window_inv_system [OF assms]
  show ?thesis
  proof (cases e)
    case (FromWorker s)
    show ?thesis
    proof (cases s)
      case (MessageReceived body)
      show ?thesis
        by (rule window_inv_extend [OF assms, where ls = "[peer_line ts (H body)]"])
          (auto simp: ev FromWorker MessageReceived onWorkerMessage_def append_line_def genuine_def)
    qed (auto simp: ev FromWorker onWorkerConnected_def onWorkerDisconnected_def onWorkerError_def onIdentityReady_def
        window_simps intro!: sys)
  next
    case ClickSend
    show ?thesis
    proof (cases "qt_trimmed Q (wi_input w) = []")
      case True
      then show ?thesis by (intro sys) (auto simp: ev ClickSend onSend_def)
    next
      case False
      then show ?thesis
        by (intro window_inv_extend [OF assms, where ls = "[user_line ts (H (qt_trimmed Q (wi_input w)))]"])
          (auto simp: ev ClickSend onSend_def Let_def window_simps genuine_def)
    qed
  next
    case (ClickConnect ep pw)
    then show ?thesis
      by (cases ep; cases pw) (auto simp: ev onConnect_def window_simps intro!: sys)
  next
    case (ClickHost port pw)
    then show ?thesis
      by (cases port; cases pw) (auto simp: ev onHost_def window_simps intro!: sys)
  next
    case (ClickRelayHost r u pw)
    then show ?thesis
      by (cases r; cases u; cases pw) (auto simp: ev onRelayHost_def relay_dialog_def window_simps intro!: sys)
  next
    case (ClickRelayConnect r u pw)
    then show ?thesis
      by (cases r; cases u; cases pw) (auto simp: ev onRelayConnect_def relay_dialog_def window_simps intro!: sys)
  qed (auto simp: ev onDisconnect_def window_simps intro!: sys)
qed

lemma window_inv_after: "window_inv H evs (window_after H Q ts evs)"
proof (induction evs rule: rev_induct)
  case Nil
  then show ?case
    by (auto simp: window_after_def window_inv_def window_new_def window_simps genuine_system)
next
  case (snoc ev evs)
  from window_inv_event [OF this, of ev Q] show ?case by (simp add: window_after_def)
qed

text \<open>C35: whatever the peer sends and the user types, a line of the chat view is one of three templates around an
  escaped text, which contains no character that could start markup; a line shown as the peer's is the text of a
  message that the worker reported, a line shown as the user's is one that was handed to the worker, and the
  templates cannot be mistaken for each other.\<close>

theorem chat_lines_genuine:
  assumes "escapes H" and "l \<in> set (wi_chat (window_after H Q ts evs))"
  shows "\<exists>t body. set (H body) \<inter> {CHR ''<'', CHR ''>'', CHR 0x22} = {} \<and>
    (l = system_line t (H body) \<and> (\<forall>a b. l \<noteq> user_line a b \<and> l \<noteq> peer_line a b) \<or>
     l = user_line t (H body) \<and> (\<forall>a b. l \<noteq> peer_line a b) \<and>
       SendMessage body \<in> set (wi_requests (window_after H Q ts evs)) \<or>
     l = peer_line t (H body) \<and> (t, FromWorker (MessageReceived body)) \<in> set evs)"
proof -
  have "genuine H evs (window_after H Q ts evs) l"
    using window_inv_after [of H evs Q ts] assms(2) by (simp add: window_inv_def)
  then obtain t body where "l = system_line t (H body) \<or>
      l = user_line t (H body) \<and> SendMessage body \<in> set (wi_requests (window_after H Q ts evs)) \<or>
      l = peer_line t (H body) \<and> (t, FromWorker (MessageReceived body)) \<in> set evs"
    unfolding genuine_def by blast
  with escapes_inert [OF assms(1), of body] lines_differ show ?thesis by metis
qed

section \<open>The status label\<close>

definition label :: "bool \<Rightarrow> string" where
  "label up = (if up then ''Connected'' else ''Disconnected'')"

lemma user_events_keep_status:
  assumes "\<And>s. e \<noteq> FromWorker s"
  shows "wi_status (on_event H Q (t, e) w) = wi_status w"
  using assms
  by (cases e) (auto simp: onConnect_def onHost_def onRelayHost_def onRelayConnect_def relay_dialog_def onDisconnect_def
      onSend_def window_simps Let_def split: option.split)

lemma signal_status:
  "wi_status (on_signal H t s w) =
     (case s of Connected \<Rightarrow> label True | Disconnected \<Rightarrow> label False | _ \<Rightarrow> wi_status w)"
  by (cases s) (auto simp: onWorkerConnected_def onWorkerDisconnected_def onWorkerMessage_def onWorkerError_def
      onIdentityReady_def window_simps label_def)

lemma fold_status:
  "session_signals b (signals_of evs) = Some b' \<Longrightarrow> wi_status w = label b \<Longrightarrow>
     wi_status (fold (on_event H Q) evs w) = label b'"
proof (induction evs arbitrary: b w)
  case (Cons ev evs)
  obtain t e where ev: "ev = (t, e)" by (cases ev)
  show ?case
  proof (cases "\<exists>s. e = FromWorker s")
    case True
    then obtain s where e: "e = FromWorker s" by blast
    obtain b1 where "session_signals b1 (signals_of evs) = Some b'" "wi_status (on_signal H t s w) = label b1"
      using Cons.prems ev e signal_status [of H t s w]
      by (cases s) (auto simp del: on_signal.simps split: if_splits)
    with Cons.IH ev e show ?thesis by simp
  next
    case False
    then have "signals_of (ev # evs) = signals_of evs" by (cases e) (auto simp: ev)
    moreover have "wi_status (on_event H Q ev w) = label b"
      using user_events_keep_status [of e H Q t w] False Cons.prems(2) ev by auto
    ultimately show ?thesis using Cons by simp
  qed
qed simp

lemma window_label:
  assumes "run (worker_step L Q T W) (worker_init g) acts w" and "\<not> wk_aborted w"
    and "wk_signals w = signals_of evs @ queued"
  shows "\<exists>b. session_signals False (signals_of evs) = Some b \<and> wi_status (window_after H Q ts evs) = label b \<and>
    (queued = [] \<longrightarrow> b = (wk_connected w \<or> wk_rx w = RxEnding))"
proof -
  have "session_signals False (signals_of evs @ queued) = Some (wk_connected w \<or> wk_rx w = RxEnding)"
    using gui_worker.reach_inv [OF assms(1)] assms(2,3) by (simp add: worker_inv_def)
  then obtain b where b: "session_signals False (signals_of evs) = Some b"
    "session_signals b queued = Some (wk_connected w \<or> wk_rx w = RxEnding)"
    by (auto simp: session_signals_append split: option.splits)
  have "wi_status (window_after H Q ts evs) = label b"
    unfolding window_after_def
    by (rule fold_status [OF b(1)]) (simp add: window_new_def window_simps label_def)
  with b show ?thesis by auto
qed

text \<open>When the window has handled the signals of the worker, whatever the user did meanwhile, its label says
  connected exactly when the worker has a session or has not yet reported its end; and while some signals are still queued it says whether there
  was one when the last handled signal was emitted.\<close>

theorem label_follows_worker:
  assumes "run (worker_step L Q T W) (worker_init g) acts w" and "\<not> wk_aborted w"
    and "wk_signals w = signals_of evs @ queued"
  shows "session_signals False (signals_of evs) = Some (wi_status (window_after H Q ts evs) = ''Connected'') \<and>
    wi_status (window_after H Q ts evs) \<in> {''Connected'', ''Disconnected''} \<and>
    (queued = [] \<longrightarrow> wi_status (window_after H Q ts evs) = label (wk_connected w \<or> wk_rx w = RxEnding))"
proof -
  obtain b where b: "session_signals False (signals_of evs) = Some b" "wi_status (window_after H Q ts evs) = label b"
    "queued = [] \<longrightarrow> b = (wk_connected w \<or> wk_rx w = RxEnding)"
    using window_label [OF assms, where H = H and ts = ts] by blast
  then show ?thesis by (cases b) (simp_all add: label_def)
qed

text \<open>The markup around an error message is itself escaped: the user reads the tags, and entities in place of
  the special characters of the message.\<close>

theorem errors_escaped_twice:
  assumes "escapes H"
  shows "wi_chat (onWorkerError H ts msg w) = wi_chat w @
    [system_line ts (''&lt;span style='color:#c00'&gt;Error: '' @ H (H msg) @ ''&lt;/span&gt;'')]"
  using assms by (simp add: onWorkerError_def error_markup_def window_simps escapes_def)

end
