(* ===== verification/App_Witnesses.thy ===== *)
theory App_Witnesses
  imports Witnesses Relay_Chat Window_Props
begin

text \<open>
  The programs on the concrete libraries of Reference-Lib: a client whose identity is created anew, over a
  network that answers with the prepared response.
\<close>

section \<open>A disk without files\<close>

definition blank_fs :: "'e fs" where
  "blank_fs = \<lparr>fs_exists = (\<lambda>p e. (Inr False, e)), fs_open_read = (\<lambda>p e. (None, e)),
     fs_open_trunc = (\<lambda>p e. (True, e)), fs_write = (\<lambda>p b e. (True, e))\<rparr>"

definition b_libs :: "('e, tobj) libs" where
  "b_libs = \<lparr>lb_cipher = t_cipher, lb_hkdf = t_hkdf, lb_pkey = t_pkey, lb_kem = t_kem, lb_fs = blank_fs,
     lb_proto = t_proto, lb_clock = (\<lambda>e. (1700000000, e)), lb_junk = []\<rparr>"

lemma b_libs_fields [simp]:
  "lb_cipher b_libs = t_cipher" "lb_hkdf b_libs = t_hkdf" "lb_pkey b_libs = t_pkey" "lb_kem b_libs = t_kem"
  "lb_fs b_libs = blank_fs" "lb_proto b_libs = t_proto" "lb_clock b_libs e = (1700000000, e)"
  by (simp_all add: b_libs_def)

lemma b_libs_still: "libs_quiet tr b_libs"
  by (simp add: libs_quiet_def libs_silent_def silent_env b_libs_def t_cipher_def t_hkdf_def t_pkey_def t_kem_def)

lemma b_create:
  "create_profile t_cipher t_pkey blank_fs path (bytes_of ''pw'') w = (Inr (), w\<lparr>id_pub := t_id 43, id_priv := t_id 42\<rparr>)"
  by (simp add: t_aes_encrypt create_profile_def io_run t_gen t_random t_pbkdf2 NONCE_SIZE_def AESGCM_new_def
      t_profile_key_def KEY_SIZE_def blank_fs_def)

lemma b_identity:
  "loadOrCreateIdentity b_libs path ''pw'' w =
     (Inr (t_fp (t_id 43), True), w\<lparr>id_pub := t_id 43, id_priv := t_id 42\<rparr>)"
  by (simp add: loadOrCreateIdentity_def report_def io_run callback_io_def blank_fs_def [THEN arg_cong [where f = fs_exists]]
      b_create)

lemma b_libs_quiet: "libs_quiet t_log b_libs" by (rule b_libs_still)

text \<open>Both handshakes with that identity.\<close>

definition b_hello_msg :: handshake_hello where
  "b_hello_msg = \<lparr>hh_kem_public_key = [1, 2, 3, 4], hh_version = kVersion,
     hh_identity_pub = t_id 43, hh_identity_sig = ed_S t_ed (t_id 42) (client_msg [1, 2, 3, 4])\<rparr>"

definition b_response_msg :: handshake_response where
  "b_response_msg = \<lparr>hr_kem_ciphertext = [11, 12, 13], hr_version = kVersion,
     hr_identity_pub = t_id 43, hr_identity_sig = ed_S t_ed (t_id 42) (server_msg [11, 12, 13] [1, 2, 3, 4])\<rparr>"

definition b_hello :: bytes where "b_hello = the (ser_hello t_proto b_hello_msg)"

definition b_response :: bytes where "b_response = the (ser_response t_proto b_response_msg)"

lemma b_ser: "ser_hello t_proto b_hello_msg = Some b_hello" "ser_response t_proto b_response_msg = Some b_response"
  by (simp_all add: b_hello_def b_response_def b_hello_msg_def b_response_msg_def t_proto_def put_fields_def
      put_field_length Let_def)

lemmas b_parse = proto_contractD(1) [OF t_proto_contract b_ser(1)] proto_contractD(2) [OF t_proto_contract b_ser(2)]

lemma b_client_run:
  fixes w :: "tenv engine_world"
  assumes "id_pub w = t_id 43" and "id_priv w = t_id 42" and "t_inbox (env w) = b_response # fs" and "live w = []"
  shows "runClientHandshake b_libs t_send t_recv w =
     (Inr (t_fp (t_id 43)), w\<lparr>
        env := (env w)\<lparr>t_inbox := fs, t_log := t_log (env w) @ [Sent b_hello, Received b_response]\<rparr>,
        session_key := t_key, session_ready := True\<rparr>)"
  using b_parse(2) b_ser(1) t_sig_valid [of 42] assms
  by (simp add: runClientHandshake_def clientHandshakeInternal_def with_kyber_def
      io_run report_def require_io_def is_loaded_def kyber_destroy_def t_key_def b_response_msg_def b_hello_msg_def)

lemma b_server_run:
  fixes w :: "tenv engine_world"
  assumes "id_pub w = t_id 43" and "id_priv w = t_id 42" and "t_inbox (env w) = b_hello # fs" and "live w = []"
  shows "runServerHandshake b_libs t_send t_recv w =
     (Inr (t_fp (t_id 43)), w\<lparr>
        env := (env w)\<lparr>t_inbox := fs, t_log := t_log (env w) @ [Received b_hello, Sent b_response]\<rparr>,
        session_key := t_key, session_ready := True\<rparr>)"
  using b_parse(1) b_ser(2) t_sig_valid [of 42] assms
  by (simp add: runServerHandshake_def serverHandshakeInternal_def server_reply_def with_kyber_def
      io_run report_def require_io_def is_loaded_def kyber_destroy_def t_key_def b_response_msg_def b_hello_msg_def)

lemma b_encrypt:
  fixes w :: "'e engine_world"
  assumes "session_ready w" and "session_key w = t_key" and "length body + length uid + length sid < 100"
  obtains frame where "encryptAndSerializeMessage b_libs body sid uid w = (Inr frame, w)"
proof -
  have enc: "session_encrypt t_cipher t_key (bytes_of body) (replicate 12 7) w =
      (Inr (gcm_E t_gcm t_key (replicate 12 7) (bytes_of body) @
        gcm_T t_gcm t_key (replicate 12 7) (gcm_E t_gcm t_key (replicate 12 7) (bytes_of body))), w)"
    using assms(3) by (simp add: session_encrypt_eq t_aes_encrypt NONCE_SIZE_def)
  show ?thesis
    using assms(3)
    by - (rule that [of "projr (fst (encryptAndSerializeMessage b_libs body sid uid w))"],
        simp add: encryptAndSerializeMessage_def report_def io_run random_nonce_def require_io_def enc assms(1,2)
         t_cipher_def [THEN arg_cong [where f = rand_bytes]] NONCE_SIZE_def t_proto_def put_fields_def
         put_field_length Let_def t_gcm_def TAG_SIZE_def)
qed

section \<open>The network objects\<close>

definition net_send :: "bytes \<Rightarrow> tenv \<Rightarrow> bool \<times> tenv" where
  "net_send b e = (True, e\<lparr>t_log := t_log e @ [Sent b]\<rparr>)"

definition net_recv :: "tenv \<Rightarrow> bytes option \<times> tenv" where
  "net_recv e = (case t_inbox e of
       [] \<Rightarrow> (None, e)
     | f # fs \<Rightarrow> (Some f, e\<lparr>t_inbox := fs, t_log := t_log e @ [Received f]\<rparr>))"

definition b_ws :: "tenv cli_ws" where
  "b_ws = \<lparr>cw_connect = (\<lambda>_ e. (Inr True, e)), cw_send = net_send, cw_recv = net_recv,
     cw_close = (\<lambda>e. e\<lparr>t_inbox := []\<rparr>)\<rparr>"

text \<open>Every connection finds the given frames waiting.\<close>

definition b_tcp :: "bytes list \<Rightarrow> tenv tcp_obj" where
  "b_tcp fs = \<lparr>tc_connect = (\<lambda>_ _ e. (True, e\<lparr>t_inbox := fs\<rparr>)), tc_listen_and_accept = (\<lambda>_ e. (True, e\<lparr>t_inbox := fs\<rparr>)),
     tc_send = net_send, tc_recv = net_recv, tc_waits = (\<lambda>_. False), tc_close = (\<lambda>e. e)\<rparr>"

lemma b_fns [simp]:
  "cli_send_fn b_ws = t_send" "cli_recv_fn b_ws = t_recv"
  "tcp_send_fn (b_tcp fs) = t_send" "tcp_recv_fn (b_tcp fs) = t_recv"
  by (auto simp: fun_eq_iff cli_send_fn_def cli_recv_fn_def tcp_send_fn_def tcp_recv_fn_def b_ws_def b_tcp_def
      net_send_def net_recv_def t_send_def t_recv_def split: list.split)

lemma b_tcp_fields [simp]:
  "tc_connect (b_tcp fs) host port e = (True, e\<lparr>t_inbox := fs\<rparr>)"
  "tc_listen_and_accept (b_tcp fs) port e = (True, e\<lparr>t_inbox := fs\<rparr>)"
  "tc_send (b_tcp fs) = net_send" "tc_recv (b_tcp fs) = net_recv" "tc_close (b_tcp fs) e = e"
  "tc_waits (b_tcp fs) e = False"
  by (simp_all add: b_tcp_def)

definition b_start :: "bytes list \<Rightarrow> tenv engine_world" where
  "b_start fs = \<lparr>live = [], double_freed = False, env = \<lparr>t_log = [], t_inbox = fs, t_disk = []\<rparr>,
     id_pub = [], id_priv = [], session_key = [], session_ready = False\<rparr>"

section \<open>The command line client\<close>

lemma positional_equals_flags_witness:
  "parse_args [''cli'', ''host'', ''http://r'', ''alice'', ''pw''] =
   parse_args [''cli'', ''--'' @ ''host'', ''--relay'', ''http://r'', ''--room'', ''alice'', ''--password'', ''pw'']"
  by (rule positional_equals_flags) (simp_all add: cli_flags_def)

lemma tofu_keeps_first_pin_witness:
  "fst (attempts (tofu_check True) [(''r#a'', ''f1''), (''r#b'', ''f2''), (''r#a'', ''f2''), (''r#a'', ''f1'')] None) =
     [True, True, False, True]"
  using tofu_keeps_first_pin [of None "[(''r#a'', ''f1''), (''r#b'', ''f2''), (''r#a'', ''f2''), (''r#a'', ''f1'')]"]
  by (simp add: pins_wf_def token_def is_space_def pin_of_def load_pin_def)

lemma tofu_blank_key_unchecked_witness:
  "fst (tofu_check True (tofu_key ''http://r'' ''my room'') ''f2'' (Some (''r#my room f1'' @ [CHR 0x0A])))"
  by (rule tofu_blank_key_unchecked) (simp add: tofu_key_def token_def is_space_def)

lemma tofu_blank_key_hides_later_pins_witness:
  "load_pin ''r#b'' (save_pin True ''r#b'' ''f2'' (save_pin True (''r#my'' @ '' '' @ ''room'') ''f1'' None)) = []"
  by (rule tofu_blank_key_hides_later_pins) (simp_all add: pins_wf_def token_def is_space_def load_pin_def)

lemma b_parse_args:
  "parse_args [''cli'', ''connect'', ''http://r'', ''alice'', ''pw''] =
     Go \<lparr>ca_mode = ''connect'', ca_relay = ''http://r'', ca_room = ''alice'', ca_pw = ''pw'', ca_id_path = ''client.id''\<rparr>"
  by (simp add: parse_args_def arg_loop_plain cli_flags_def)

lemma b_cli_run:
  "cli_main b_libs b_ws True [''cli'', ''connect'', ''http://r'', ''alice'', ''pw''] [] (b_start [b_response]) None =
     (Chatting (t_fp (t_id 43)), (b_start [])\<lparr>
        env := \<lparr>t_log = [Sent b_hello, Received b_response], t_inbox = [], t_disk = []\<rparr>,
        id_pub := t_id 43, id_priv := t_id 42, session_key := t_key, session_ready := True\<rparr>,
      save_pin True (tofu_key ''http://r'' ''alice'') (t_fp (t_id 43)) None)"
proof -
  have connect: "callback_io (cw_connect b_ws url) w = (Inr True, w)" for url and w :: "tenv engine_world"
    by (simp add: callback_io_def io_run b_ws_def)
  show ?thesis
    by (simp add: cli_main_def b_parse_args cli_start_def b_identity connect b_client_run b_start_def Let_def
        tofu_check_def load_pin_def)
qed

lemma cli_session_is_pinned_witness:
  "pin_of (tofu_key ''http://r'' ''alice'')
     (save_pin True (tofu_key ''http://r'' ''alice'') (t_fp (t_id 43)) None) =
   Some (t_fp (t_id 43))"
proof -
  have key: "token (tofu_key ''http://r'' ''alice'')"
    by (simp add: tofu_key_def url_host_def cxx_find_def search.simps token_def is_space_def)
  show ?thesis
    using cli_session_is_pinned [OF _ _ _ b_parse_args b_cli_run, of t_eview t_ed t_log]
      key by (simp add: pins_wf_def t_ed_contract b_libs_quiet t_transport)
qed

lemma cli_failure_keeps_pins_witness:
  "snd (snd (cli_main b_libs b_ws True [''cli''] [] (b_start []) (Some ''r#a f ''))) = Some ''r#a f ''"
proof -
  have run: "cli_main b_libs b_ws True [''cli''] [] (b_start []) (Some ''r#a f '') =
      (Exit 1 ''Usage'', b_start [], Some ''r#a f '')"
    by (simp add: cli_main_def parse_args_def)
  from cli_failure_keeps_pins [OF run] run show ?thesis by simp
qed

text \<open>A chat in which the peer's frame is the one that this client would send.\<close>

definition b_chatting :: "bytes list \<Rightarrow> tenv engine_world" where
  "b_chatting fs = (b_start fs)\<lparr>session_key := t_key, session_ready := True\<rparr>"

lemma b_decrypt:
  fixes w v :: "'e engine_world"
  assumes "encryptAndSerializeMessage b_libs body sid uid w = (Inr frame, w)" and "session_key w = t_key"
    and "session_ready v" and "session_key v = t_key" and "ascii sid" and "ascii uid" and "length body < 2 ^ 31"
  shows "\<exists>e. parseAndDecryptMessage b_libs frame v = (Inr body, v\<lparr>env := e\<rparr>)"
  using assms(7)
  by - (rule message_decrypts [OF _ _ _ _ _ assms(1), where view = t_gview and G = t_gcm],
      simp_all add: t_gcm_contract t_proto_contract assms)

lemma chat_prints_authentic_witness:
  "authentic_text (b_libs :: (tenv, tobj) libs) t_gcm t_key ''hello''"
proof -
  obtain frame where f: "encryptAndSerializeMessage b_libs ''hello'' ''alice'' ''bob'' (b_chatting []) = (Inr frame, b_chatting [])"
    by (rule b_encrypt [where w = "b_chatting []" and body = "''hello''" and sid = "''alice''" and uid = "''bob''"]) (simp_all add: b_chatting_def)
  let ?w = "b_chatting [frame]"
  let ?v = "?w\<lparr>env := (env ?w)\<lparr>t_inbox := [], t_log := [Received frame]\<rparr>\<rparr>"
  obtain e where "parseAndDecryptMessage b_libs frame ?v = (Inr ''hello'', ?v\<lparr>env := e\<rparr>)"
    using b_decrypt [OF f, of ?v] by (auto simp: b_chatting_def ascii_def)
  then have rx: "cli_rx b_libs b_ws ?w = (Some (Peer ''hello''), ?v\<lparr>env := e\<rparr>)"
    by (simp add: cli_rx_def b_ws_def net_recv_def b_chatting_def b_start_def)
  let ?c = "(chat_start ?w)\<lparr>ch_rx := RxRead\<rparr>"
  have "chat_step b_libs b_ws (chat_start ?w) TestRx ?c"
    using chat_step.test_rx [of "chat_start ?w" b_libs b_ws] by (simp add: chat_start_def)
  moreover have "chat_step b_libs b_ws ?c RecvFrame (?c\<lparr>ch_world := ?v\<lparr>env := e\<rparr>, ch_rx := RxTest,
      ch_printed := ch_printed ?c @ [Peer ''hello'']\<rparr>)"
    by (rule chat_step.recv_frame) (simp_all add: chat_start_def rx)
  ultimately have "run (chat_step b_libs b_ws) (chat_start ?w) [TestRx, RecvFrame]
      (?c\<lparr>ch_world := ?v\<lparr>env := e\<rparr>, ch_rx := RxTest, ch_printed := ch_printed ?c @ [Peer ''hello'']\<rparr>)"
    by blast
  from chat_prints_authentic [OF _ _ this, of t_gview t_gcm "''hello''"] show ?thesis
    by (simp add: t_gcm_contract t_proto_contract) (simp add: b_chatting_def)
qed

section \<open>Client and server over TCP\<close>

definition b_established :: "event list \<Rightarrow> tenv engine_world" where
  "b_established log = (b_start [])\<lparr>id_pub := t_id 43, id_priv := t_id 42, session_key := t_key, session_ready := True,
     env := \<lparr>t_log = log, t_inbox = [], t_disk = []\<rparr>\<rparr>"

lemma b_established_fields [simp]:
  "session_ready (b_established log)" "session_key (b_established log) = t_key"
  "env (b_established log) = \<lparr>t_log = log, t_inbox = [], t_disk = []\<rparr>"
  "(b_established log)\<lparr>env := \<lparr>t_log = log', t_inbox = [], t_disk = []\<rparr>\<rparr> = b_established log'"
  by (simp_all add: b_established_def)

lemma b_tcp_client:
  assumes "encryptAndSerializeMessage b_libs ''hello'' ''alice'' ''bob''
      (b_established [Sent b_hello, Received b_response]) =
    (Inr frame, b_established [Sent b_hello, Received b_response])"
  shows "client_main b_libs (b_tcp [b_response]) [''pw'', ''hello''] (b_start []) =
    (Exit 0 '''', b_established [Sent b_hello, Received b_response, Sent frame])"
proof -
  have run: "runClientHandshake b_libs t_send t_recv ((b_start [])\<lparr>id_pub := t_id 43, id_priv := t_id 42,
        env := (env (b_start []))\<lparr>t_inbox := [b_response]\<rparr>\<rparr>) =
      (Inr (t_fp (t_id 43)), b_established [Sent b_hello, Received b_response])"
    by (subst b_client_run [where fs = "[]"]) (simp_all add: b_start_def b_established_def)
  show ?thesis
    using run assms
    by (simp add: client_main_def getline_def client_input_def b_identity net_send_def)
qed

lemma b_tcp_server:
  fixes w :: "tenv engine_world"
  assumes "encryptAndSerializeMessage b_libs ''hello'' ''alice'' ''bob'' w = (Inr frame, w)"
    and "session_key w = t_key"
  shows "\<exists>e. server_main b_libs (b_tcp [b_hello, frame]) [''pw''] (b_start []) =
      (Exit 0 (''[server] Decrypted: '' @ ''hello''), (b_established [])\<lparr>env := e\<rparr>) \<and>
    t_log e = [Received b_hello, Sent b_response, Received frame]"
proof -
  let ?s = "(b_established [])\<lparr>env := \<lparr>t_log = [Received b_hello, Sent b_response], t_inbox = [frame], t_disk = []\<rparr>\<rparr>"
  let ?v = "b_established [Received b_hello, Sent b_response, Received frame]"
  have run: "runServerHandshake b_libs t_send t_recv ((b_start [])\<lparr>id_pub := t_id 43, id_priv := t_id 42,
      env := (env (b_start []))\<lparr>t_inbox := [b_hello, frame]\<rparr>\<rparr>) = (Inr (t_fp (t_id 43)), ?s)"
    by (subst b_server_run [where fs = "[frame]"]) (simp_all add: b_start_def b_established_def)
  obtain e where e: "parseAndDecryptMessage b_libs frame ?v = (Inr ''hello'', ?v\<lparr>env := e\<rparr>)"
    using b_decrypt [OF assms, of ?v] by (auto simp: ascii_def)
  have "t_log e = t_log (env ?v)"
    using parse_quiet [OF b_libs_quiet, of frame ?v] e by simp
  with run e show ?thesis
    by (intro exI [of _ e]) (simp add: server_main_def getline_def b_identity net_recv_def b_established_def)
qed

lemma demo_delivers_input_witness:
  "\<exists>frame. fst (server_main b_libs (b_tcp [b_hello, frame]) [''pw''] (b_start [])) =
     Exit 0 (''[server] Decrypted: '' @ client_input [''pw'', ''hello''])"
proof -
  let ?w = "b_established [Sent b_hello, Received b_response]"
  obtain frame where f: "encryptAndSerializeMessage b_libs ''hello'' ''alice'' ''bob'' ?w = (Inr frame, ?w)"
    by (rule b_encrypt [where w = ?w and body = "''hello''" and sid = "''alice''" and uid = "''bob''"]) simp_all
  obtain e where s: "server_main b_libs (b_tcp [b_hello, frame]) [''pw''] (b_start []) =
      (Exit 0 (''[server] Decrypted: '' @ ''hello''), (b_established [])\<lparr>env := e\<rparr>)"
    "t_log e = [Received b_hello, Sent b_response, Received frame]"
    using b_tcp_server [OF f] by auto
  have "''[server] Decrypted: '' @ ''hello'' = ''[server] Decrypted: '' @ client_input [''pw'', ''hello'']"
    by (rule demo_delivers_input [OF _ _ _ _ _ _ _ _ _ _ b_tcp_client [OF f] s(1), where tr = t_log and tr' = t_log
        and vh = t_hview and H = t_H and view = t_gview and G = t_gcm and before = "[]" and before' = "[]"
        and a = b_hello and b = b_response and f = frame])
      (simp_all add: t_contracts b_libs_quiet t_gcm_contract s(2) getline_def)
  with s(1) show ?thesis by (intro exI [of _ frame]) simp
qed

section \<open>The worker of the GUI\<close>

definition b_qt :: "string qt" where
  "b_qt = \<lparr>qt_url = id, qt_scheme = (\<lambda>_. ''http''), qt_set_scheme = (\<lambda>s u. s @ '':'' @ u), qt_path = (\<lambda>_. []),
     qt_set_path = (\<lambda>p u. u @ p), qt_set_query = (\<lambda>q u. u @ ''?'' @ concat (map snd q)), qt_to_string = id,
     qt_trimmed = id, qt_to_int = (\<lambda>s. if s = ''5555'' then Some 5555 else None),
     qt_arg = (@)\<rparr>"

definition b_wo :: "tenv ws_obj" where
  "b_wo = \<lparr>wo_new = id, wo_connect_url = (\<lambda>_ e. (True, e)), wo_send = net_send, wo_recv = net_recv, wo_waits = (\<lambda>_. False),
     wo_close = id, wo_reset = id\<rparr>"

lemma b_endpoint: "parseEndpoint b_qt ''h:5555'' = Some (''h'', 5555)"
  using cxx_rfind_found [of "CHR '':''" "''5555''" "''h''"] by (simp add: parseEndpoint_def b_qt_def Let_def)

lemma parse_endpoint_bounds_witness:
  "\<exists>digits. qt_trimmed b_qt ''h:5555'' = ''h'' @ '':'' @ digits \<and> qt_to_int b_qt digits = Some 5555"
  using parse_endpoint_bounds [OF b_endpoint] by auto

abbreviation b_run :: "slot \<Rightarrow> tenv worker \<Rightarrow> tenv worker" where
  "b_run \<equiv> run_slot b_libs b_qt (b_tcp [b_response]) b_wo"

lemma b_connect:
  assumes "live (wk_engine w) = []" and "\<not> wk_connected w"
  defines "w' \<equiv> b_run (StartConnect ''h:5555'' ''pw'') w"
  shows "wk_connected w' \<and> wk_mode w' = TCP \<and> wk_at w' = wk_at w \<and> live (wk_engine w') = [] \<and>
    t_inbox (net w') = [] \<and> wk_rx w' = (if wk_rx w = NoThread then RxRunning else wk_rx w) \<and>
    (wk_rx w = NoThread \<longrightarrow> wk_aborted w' = wk_aborted w)"
  using assms(1,2)
  by (simp add: w'_def connect_body_def b_endpoint unlock_def b_identity set_engine_def set_net_def emit_def
      b_client_run [where fs = "[]"] established_def Let_def)

definition b_worker0 :: "tenv worker" where "b_worker0 = worker_init (b_start [])"

definition b_worker1 :: "tenv worker" where "b_worker1 = b_run (StartConnect ''h:5555'' ''pw'') b_worker0"

definition b_worker2 :: "tenv worker" where 
  "b_worker2 = recv_leave (recv_iteration b_libs (b_tcp [b_response]) b_wo b_worker1)"

lemma b_worker1:
  "wk_connected b_worker1" "wk_mode b_worker1 = TCP" "wk_at b_worker1 = Ready" "wk_rx b_worker1 = RxRunning"
  "\<not> wk_aborted b_worker1" "t_inbox (net b_worker1) = []" "live (wk_engine b_worker1) = []"
  using b_connect [of b_worker0] by (simp_all add: b_worker1_def b_worker0_def worker_init_def b_start_def)

text \<open>The network has nothing more: the receiving thread ends.\<close>

lemma b_worker2:
  "\<not> wk_connected b_worker2" "wk_at b_worker2 = Ready" "wk_rx b_worker2 = RxFinished" "\<not> wk_aborted b_worker2"
  "live (wk_engine b_worker2) = []"
  using b_worker1 by (simp_all add: b_worker2_def recv_iteration_def recv_leave_def net_recv_def set_net_def emit_def)

abbreviation b_step :: "tenv worker \<Rightarrow> worker_act \<Rightarrow> tenv worker \<Rightarrow> bool" where
  "b_step \<equiv> worker_step b_libs b_qt (b_tcp [b_response]) b_wo"

lemma b_worker_run1: "run b_step b_worker0 [RunSlot (StartConnect ''h:5555'' ''pw'')] b_worker1"
proof -
  have "b_step b_worker0 (RunSlot (StartConnect ''h:5555'' ''pw'')) b_worker1"
    unfolding b_worker1_def by (rule worker_step.slot) (simp_all add: b_worker0_def worker_init_def)
  then show ?thesis by blast
qed

lemma b_worker_run2: "run b_step b_worker0 [RunSlot (StartConnect ''h:5555'' ''pw''), RxIteration, RxLeave] b_worker2"
proof -
  let ?w = "recv_iteration b_libs (b_tcp [b_response]) b_wo b_worker1"
  have "b_step b_worker1 RxIteration ?w"
    by (rule worker_step.receive) (simp_all add: b_worker1 recv_waits_def)
  moreover have "b_step ?w RxLeave b_worker2"
    unfolding b_worker2_def
    by (rule worker_step.leave) (use b_worker1 in \<open>simp_all add: recv_iteration_def net_recv_def set_net_def\<close>)
  ultimately have "run b_step b_worker1 [RxIteration, RxLeave] b_worker2" by blast
  with b_worker_run1 show ?thesis using run_append by fastforce
qed

lemma worker_signals_alternate_witness:
  "session_signals False (wk_signals b_worker2) = Some False"
  using worker_signals_alternate [OF b_worker_run2 [unfolded b_worker0_def]] b_worker2 by simp

lemma worker_connected_typed_witness: "session_ready (wk_engine b_worker1)"
  using worker_connected_typed [OF b_worker_run1 [unfolded b_worker0_def]] b_worker1 by simp

lemma reconnect_after_close_terminates_witness:
  "wk_aborted (b_run (StartConnect ''h:5555'' ''pw'') b_worker2)"
proof -
  have "b_step b_worker2 (RunSlot (StartConnect ''h:5555'' ''pw'')) (b_run (StartConnect ''h:5555'' ''pw'') b_worker2)"
    by (rule worker_step.slot) (simp_all add: b_worker2)
  moreover have "wk_connected (b_run (StartConnect ''h:5555'' ''pw'') b_worker2)"
    using b_connect [of b_worker2] b_worker2 by simp
  ultimately show ?thesis
    using reconnect_after_close_terminates [OF b_worker_run2 [unfolded b_worker0_def]] b_worker2(3,4) by blast
qed

section \<open>The window of the GUI\<close>

definition html :: "string \<Rightarrow> string" where "html s = concat (map esc_char s)"

lemma html: "escapes html"
  by (simp add: escapes_def html_def del: esc_char.simps)

lemma chat_lines_genuine_witness:
  "\<exists>l t body. l \<in> set (wi_chat (window_after html b_qt ''t'' [(''u'', FromWorker (MessageReceived ''<b>''))])) \<and>
     l = peer_line ''u'' ''&lt;b&gt;'' \<and> set (html body) \<inter> {CHR ''<'', CHR ''>'', CHR 0x22} = {} \<and> l = peer_line t (html body)"
proof -
  let ?l = "peer_line ''u'' ''&lt;b&gt;''"
  have mem: "?l \<in> set (wi_chat (window_after html b_qt ''t'' [(''u'', FromWorker (MessageReceived ''<b>''))]))"
    by (simp add: window_after_def onWorkerMessage_def append_line_def html_def)
  from chat_lines_genuine [OF html this] lines_differ [symmetric] obtain t body
    where "set (html body) \<inter> {CHR ''<'', CHR ''>'', CHR 0x22} = {}" "?l = peer_line t (html body)"
    by metis
  with mem show ?thesis by blast
qed

definition b_seen :: "(string \<times> win_event) list" where
  "b_seen = map (\<lambda>s. (''t'', FromWorker s)) (wk_signals b_worker1) @ [(''t'', ClickDisconnect)]"

lemma b_seen: "signals_of b_seen = wk_signals b_worker1"
proof -
  have "signals_of (map (\<lambda>s. (''t'', FromWorker s)) ss @ [(''t'', ClickDisconnect)]) = ss" for ss
    by (induction ss) simp_all
  then show ?thesis unfolding b_seen_def .
qed

lemma label_follows_worker_witness: "wi_status (window_after html b_qt ''t'' b_seen) = ''Connected''"
  using label_follows_worker [OF b_worker_run1 [unfolded b_worker0_def], of b_seen "[]" html "''t''"]
    b_seen b_worker1 by (simp add: label_def)

lemma errors_escaped_twice_witness:
  "wi_chat (onWorkerError html ''t'' ''a<b'' (window_new html ''t'')) = wi_chat (window_new html ''t'') @
    [system_line ''t'' (''&lt;span style='color:#c00'&gt;Error: '' @ html (html ''a<b'') @ ''&lt;/span&gt;'')]"
  by (rule errors_escaped_twice [OF html])

end
