(* ===== verification/Talk.thy ===== *)
theory Talk
  imports Messages "HOL-Library.Sublist"
begin

text \<open>
  Frames as the two ends of a chat see them: the frame that an engine makes of a text, and what an engine with
  the same key reads in it. The chats over the relay and over TCP rest on these lemmas.
\<close>

section \<open>Frames and texts\<close>

text \<open>\<open>f\<close> is a frame that an engine with this key makes of the text \<open>l\<close>; \<open>r\<close> is what one reads in \<open>f\<close>.\<close>

definition frame_of :: "('e, 'h) libs \<Rightarrow> string \<Rightarrow> string \<Rightarrow> bytes \<Rightarrow> bytes \<Rightarrow> string \<Rightarrow> bool" where
  "frame_of L sender to key f l \<longleftrightarrow>
     (\<exists>w w' :: 'e engine_world. session_key w = key \<and> encryptAndSerializeMessage L l sender to w = (Inr f, w'))"

definition read_of :: "('e, 'h) libs \<Rightarrow> bytes \<Rightarrow> bytes \<Rightarrow> string + string \<Rightarrow> bool" where
  "read_of L key f r \<longleftrightarrow>
     (\<exists>w w' :: 'e engine_world. session_key w = key \<and> session_ready w \<and> parseAndDecryptMessage L f w = (r, w'))"

lemma read_of_frame:
  fixes L :: "('e, 'h) libs"
  assumes "gcm_contract (lb_cipher L) view G" and "proto_contract (lb_proto L)" and "ascii sender" and "ascii to"
    and "length l < 2 ^ 31" and "frame_of L sender to key f l" and "read_of L key f r"
  shows "r = Inr l"
proof -
  obtain w w' :: "'e engine_world" where enc: "session_key w = key"
    "encryptAndSerializeMessage L l sender to w = (Inr f, w')"
    using assms(6) unfolding frame_of_def by blast
  obtain v v' :: "'e engine_world" where v: "session_key v = key" "session_ready v"
    and dec: "parseAndDecryptMessage L f v = (r, v')"
    using assms(7) unfolding read_of_def by blast
  obtain e where "parseAndDecryptMessage L f v = (Inr l, v\<lparr>env := e\<rparr>)"
    using message_decrypts [OF assms(1,2,3,4,5) enc(2), of v] v enc(1) by auto
  with dec show ?thesis by simp
qed

lemma reads_of_frames:
  assumes "gcm_contract (lb_cipher L) view G" and "proto_contract (lb_proto L)" and "ascii sender" and "ascii to"
  shows "list_all2 (frame_of L sender to key) fs ls \<Longrightarrow> list_all2 (read_of L key) fs rs \<Longrightarrow>
    list_all (\<lambda>l. length l < 2 ^ 31) ls \<Longrightarrow> rs = map Inr ls"
proof (induction fs arbitrary: ls rs)
  case (Cons f fs)
  then show ?case
    by (auto simp: list_all2_Cons1 intro!: read_of_frame [OF assms])
qed simp

text \<open>A frame is below 2 GiB.\<close>

lemma frame_of_length:
  fixes L :: "('e, 'h) libs"
  assumes "gcm_contract (lb_cipher L) view G" and "proto_contract (lb_proto L)" and "ascii to"
    and "length l < 2 ^ 31" and "frame_of L sender to key f l"
  shows "length f < 2 ^ 31"
proof -
  obtain w w' :: "'e engine_world" where "encryptAndSerializeMessage L l sender to w = (Inr f, w')"
    using assms(5) unfolding frame_of_def by blast
  from assms(1,4) this obtain nonce c inner now now' where
    "ser_envelope (lb_proto L) \<lparr>ev_version = kVersion, ev_to_username = to, ev_sender_pubkey = [],
       ev_payload_e2e = inner, ev_client_timestamp = now'\<rparr> = Some f"
    by (rule encrypt_Inr)
  then show ?thesis using assms(2,3) unfolding proto_contract_def by fastforce
qed

section \<open>Subsequences of related lists\<close>

lemma subseq_list_all2:
  "subseq xs ys \<Longrightarrow> list_all2 P ys zs \<Longrightarrow> \<exists>us. subseq us zs \<and> list_all2 P xs us"
proof (induction arbitrary: zs rule: list_emb.induct)
  case (list_emb_Nil ys)
  then show ?case by (intro exI [of _ "[]"]) simp
next
  case (list_emb_Cons xs ys y)
  then obtain z zs' where z: "zs = z # zs'" "list_all2 P ys zs'" by (auto simp: list_all2_Cons1)
  from list_emb_Cons.IH [OF z(2)] obtain us where "subseq us zs'" "list_all2 P xs us" by blast
  with z(1) show ?case by (intro exI [of _ us]) auto
next
  case (list_emb_Cons2 x y xs ys)
  then obtain z zs' where z: "zs = z # zs'" "list_all2 P ys zs'" "P y z" by (auto simp: list_all2_Cons1)
  with list_emb_Cons2.IH obtain us where "subseq us zs'" "list_all2 P xs us" by blast
  with z list_emb_Cons2(1) show ?case by (intro exI [of _ "z # us"]) auto
qed

lemma prefix_list_all2:
  assumes "prefix xs ys" and "list_all2 P ys zs"
  shows "prefix (take (length xs) zs) zs \<and> list_all2 P xs (take (length xs) zs)"
proof -
  have "xs = take (length xs) ys" using assms(1) by (auto simp: prefix_def)
  then show ?thesis using list_all2_takeI [OF assms(2), of "length xs"] by (simp add: take_is_prefix)
qed

end
