(* ===== verification/Relay_Talk.thy ===== *)
theory Relay_Talk
  imports Relay_Props Relay_Chat Tcp_Programs Talk
begin

text \<open>
  Two command line clients and the relay between them: what one of them prints of what was typed into the other.
\<close>

section \<open>What went over a socket\<close>

fun sent_frames :: "event list \<Rightarrow> bytes list" where
  "sent_frames [] = []"
| "sent_frames (Sent f # ev) = f # sent_frames ev"
| "sent_frames (Received f # ev) = sent_frames ev"

fun received_frames :: "event list \<Rightarrow> bytes list" where
  "received_frames [] = []"
| "received_frames (Sent f # ev) = received_frames ev"
| "received_frames (Received f # ev) = f # received_frames ev"

lemma frames_append [simp]:
  "sent_frames (ev @ ev') = sent_frames ev @ sent_frames ev'"
  "received_frames (ev @ ev') = received_frames ev @ received_frames ev'"
  by (induction ev rule: sent_frames.induct) simp_all

text \<open>The lines that \<open>main\<close> has read.\<close>

fun lines :: "chat_act list \<Rightarrow> string list" where
  "lines [] = []"
| "lines (Line l # acts) = l # lines acts"
| "lines (_ # acts) = lines acts"

lemma lines_append [simp]: "lines (as @ bs) = lines as @ lines bs"
  by (induction as rule: lines.induct) simp_all

section \<open>One client\<close>

text \<open>\<open>out\<close> is what a client with this key prints for \<open>f\<close>.\<close>

abbreviation typed_frame :: "('e, 'h) libs \<Rightarrow> bytes \<Rightarrow> bytes \<Rightarrow> string \<Rightarrow> bool" where
  "typed_frame L \<equiv> frame_of L ''cli'' ''peer''"

fun printed_read :: "rx_line \<Rightarrow> string + string" where
  "printed_read (Peer p) = Inr p"
| "printed_read (Drop err) = Inl err"

definition print_of :: "('e, 'h) libs \<Rightarrow> bytes \<Rightarrow> bytes \<Rightarrow> rx_line \<Rightarrow> bool" where
  "print_of L key f out \<longleftrightarrow> read_of L key f (printed_read out)"

text \<open>
  What a chat that began in \<open>w0\<close> has sent since then, and received, against what was typed and printed.
\<close>

definition talk_inv ::
  "('e, 'h) libs \<Rightarrow> ('e \<Rightarrow> event list) \<Rightarrow> 'e engine_world \<Rightarrow> string list \<Rightarrow> 'e chat \<Rightarrow> bool" where
  "talk_inv L tr w0 typed c \<longleftrightarrow>
     world.more (ch_world c) = world.more w0 \<and>
     (\<exists>ev ls. tr (env (ch_world c)) = tr (env w0) @ ev \<and> subseq ls typed \<and>
        list_all2 (typed_frame L (session_key w0)) (sent_frames ev) ls \<and>
        list_all2 (print_of L (session_key w0)) (received_frames ev) (ch_printed c))"

lemma cli_tx_talk:
  fixes w w' :: "'e engine_world"
  assumes T: "transport_contract (cli_send_fn W) (cli_recv_fn W) tr" and Q: "libs_quiet tr L"
    and run: "cli_tx L W l w = (r, w')"
  shows "\<exists>ev ls. tr (env w') = tr (env w) @ ev \<and> subseq ls [l] \<and>
    list_all2 (typed_frame L (session_key w)) (sent_frames ev) ls \<and> received_frames ev = []"
proof (cases "l = []")
  case True
  then have "w' = w" using run by (simp add: cli_tx_def)
  then show ?thesis by (intro exI [of _ "[]"]) simp
next
  case False
  obtain r1 w1 where enc: "encryptAndSerializeMessage L l ''cli'' ''peer'' w = (r1, w1)" by fastforce
  then have tr1: "tr (env w1) = tr (env w)" using encrypt_quiet [OF Q, of l "''cli''" "''peer''" w] by simp
  show ?thesis
  proof (cases r1)
    case (Inl e)
    then have "w' = w1" using run enc False by (simp add: cli_tx_def)
    with tr1 show ?thesis by (intro exI [of _ "[]"]) simp
  next
    case (Inr f)
    obtain ok e where snd: "cw_send W f (env w1) = (ok, e)" by fastforce
    then have "env w' = e" using run enc False Inr by (auto simp: cli_tx_def split: if_splits)
    moreover have "tr e = tr (env w1) @ (if ok then [Sent f] else [])"
      using T [unfolded transport_contract_def, THEN conjunct1, rule_format, of f "env w1"] snd
      by (simp add: cli_send_fn_def)
    moreover have "typed_frame L (session_key w) f l" using enc Inr unfolding frame_of_def by blast
    ultimately show ?thesis
      using tr1 by (intro exI [of _ "if ok then [Sent f] else []"] exI [of _ "if ok then [l] else []"]) simp
  qed
qed

lemma cli_rx_talk:
  fixes w w' :: "'e engine_world"
  assumes T: "transport_contract (cli_send_fn W) (cli_recv_fn W) tr" and Q: "libs_quiet tr L"
    and run: "cli_rx L W w = (out, w')" and ready: "session_ready w"
  shows "\<exists>ev. tr (env w') = tr (env w) @ ev \<and> sent_frames ev = [] \<and>
    list_all2 (print_of L (session_key w)) (received_frames ev) (case out of None \<Rightarrow> [] | Some l \<Rightarrow> [l])"
proof -
  obtain r e where rcv: "cw_recv W (env w) = (r, e)" by fastforce
  then have tr: "tr e = tr (env w) @ (case r of None \<Rightarrow> [] | Some f \<Rightarrow> [Received f])"
    using T [unfolded transport_contract_def, THEN conjunct2, rule_format, of "env w"]
    by (simp add: cli_recv_fn_def split: option.splits)
  show ?thesis
  proof (cases r)
    case None
    then show ?thesis using run rcv tr by (intro exI [of _ "[]"]) (auto simp: cli_rx_def)
  next
    case (Some f)
    obtain r2 w2 where dec: "parseAndDecryptMessage L f (w\<lparr>env := e\<rparr>) = (r2, w2)" by fastforce
    then have "tr (env w2) = tr e" using parse_quiet [OF Q, of f "w\<lparr>env := e\<rparr>"] by simp
    moreover have "w' = w2" "out = Some (case r2 of Inr p \<Rightarrow> Peer p | Inl err \<Rightarrow> Drop err)"
      using run rcv Some dec by (auto simp: cli_rx_def split: sum.splits)
    moreover have "print_of L (session_key w) f (case r2 of Inr p \<Rightarrow> Peer p | Inl err \<Rightarrow> Drop err)"
      unfolding print_of_def read_of_def using dec ready
      by (intro exI [of _ "w\<lparr>env := e\<rparr>"] exI [of _ w2]) (simp split: sum.split)
    ultimately show ?thesis using tr Some by (intro exI [of _ "[Received f]"]) simp
  qed
qed

lemma talk_step:
  assumes T: "transport_contract (cli_send_fn W) (cli_recv_fn W) tr" and Q: "libs_quiet tr L"
    and closed: "\<And>e. tr (cw_close W e) = tr e" and ready: "session_ready w0"
    and I: "talk_inv L tr w0 typed c" and step: "chat_step L W c a c'"
  shows "talk_inv L tr w0 (typed @ lines [a]) c'"
proof -
  obtain ev ls where more: "world.more (ch_world c) = world.more w0"
    and log: "tr (env (ch_world c)) = tr (env w0) @ ev" and ls: "subseq ls typed"
    and snd: "list_all2 (typed_frame L (session_key w0)) (sent_frames ev) ls"
    and rcv: "list_all2 (print_of L (session_key w0)) (received_frames ev) (ch_printed c)"
    using I unfolding talk_inv_def by blast
  have key: "session_key (ch_world c) = session_key w0" "session_ready (ch_world c)"
    using more_fields(3,4) [OF more] ready by auto
  have still: "talk_inv L tr w0 typed c1"
    if "world.more (ch_world c1) = world.more w0" "tr (env (ch_world c1)) = tr (env (ch_world c))"
      "ch_printed c1 = ch_printed c" for c1
    unfolding talk_inv_def using that log ls snd rcv by auto
  from step show ?thesis
  proof (cases rule: chat_step.cases)
    case (line l r w)
    obtain ev' ls' where new: "tr (env w) = tr (env (ch_world c)) @ ev'" "subseq ls' [l]"
      "list_all2 (typed_frame L (session_key w0)) (sent_frames ev') ls'" "received_frames ev' = []"
      using cli_tx_talk [OF T Q line(4)] key(1) by auto
    have "world.more w = world.more w0"
      using cli_tx_more [of L W l "ch_world c"] line(4) more by simp
    moreover have "subseq (ls @ ls') (typed @ [l])" using ls new(2) by (rule list_emb_append_mono)
    ultimately show ?thesis
      unfolding talk_inv_def line using log snd rcv new
      by (intro conjI exI [of _ "ev @ ev'"] exI [of _ "ls @ ls'"]) (simp_all add: list_all2_appendI)
  next
    case (recv_frame out w)
    obtain ev' where new: "tr (env w) = tr (env (ch_world c)) @ ev'" "sent_frames ev' = []"
      "list_all2 (print_of L (session_key w0)) (received_frames ev') [out]"
      using cli_rx_talk [OF T Q recv_frame(4) key(2)] key(1) by auto
    have "world.more w = world.more w0"
      using cli_rx_more [of L W "ch_world c"] recv_frame(4) more by simp
    then show ?thesis
      unfolding talk_inv_def recv_frame using log snd rcv new ls
      by (intro conjI exI [of _ "ev @ ev'"] exI [of _ ls]) (simp_all add: list_all2_appendI)
  next
    case (recv_end w)
    obtain ev' where new: "tr (env w) = tr (env (ch_world c)) @ ev'" "sent_frames ev' = []" "received_frames ev' = []"
      using cli_rx_talk [OF T Q recv_end(4) key(2)] by auto
    have "world.more w = world.more w0"
      using cli_rx_more [of L W "ch_world c"] recv_end(4) more by simp
    then show ?thesis
      unfolding talk_inv_def recv_end using log snd rcv new ls
      by (intro conjI exI [of _ "ev @ ev'"] exI [of _ ls]) simp_all
  qed (use still more closed in auto)
qed

lemma talk_run:
  assumes "run (chat_step L W) c acts c'" and "talk_inv L tr w0 typed c"
    and "transport_contract (cli_send_fn W) (cli_recv_fn W) tr" and "libs_quiet tr L"
    and "\<And>e. tr (cw_close W e) = tr e" and "session_ready w0"
  shows "talk_inv L tr w0 (typed @ lines acts) c'"
  using assms(1,2)
proof (induction arbitrary: typed rule: run.induct)
  case (run_Cons c a c1 as c')
  have "talk_inv L tr w0 (typed @ lines [a]) c1" by (rule talk_step [OF assms(3-6) run_Cons.prems run_Cons.hyps(1)])
  from run_Cons.IH [OF this] show ?case by (cases a) simp_all
qed simp

lemma talk_start: "talk_inv L tr w [] (chat_start w)"
  by (simp add: talk_inv_def chat_start_def)

section \<open>Two clients\<close>

lemma prints_of_frames:
  assumes "gcm_contract (lb_cipher L) view G" and "proto_contract (lb_proto L)"
    and "list_all2 (typed_frame L key) fs ls" and "list_all2 (print_of L key) fs outs"
    and "list_all (\<lambda>l. length l < 2 ^ 31) ls"
  shows "outs = map Peer ls"
proof -
  have "list_all2 (read_of L key) fs (map printed_read outs)"
    using assms(4) unfolding print_of_def by (simp add: list.rel_map)
  then have "map printed_read outs = map Inr ls"
    using reads_of_frames [OF assms(1,2) _ _ assms(3)] assms(5) by (simp add: ascii_def)
  then show ?thesis
  proof (induction outs arbitrary: ls)
    case (Cons out outs)
    then show ?case by (cases out) auto
  qed simp
qed

text \<open>C9: two command line clients whose handshake gave them one key, alone in a room of the relay, over connections that
  keep the order: whatever the threads of the clients and of the relay do, what one of them prints are lines
  that were typed into the other one, whole, in the order they were typed and none of them twice, and it drops
  nothing.\<close>

theorem relay_chat_in_order:
  assumes "gcm_contract (lb_cipher L) view G" and "proto_contract (lb_proto L)"
    and "transport_contract (cli_send_fn W) (cli_recv_fn W) tr" and "libs_quiet tr L" and "\<And>e. tr (cw_close W e) = tr e"
    and "transport_contract (cli_send_fn W') (cli_recv_fn W') tr'" and "libs_quiet tr' L" and "\<And>e. tr' (cw_close W' e) = tr' e"
    and "session_ready w" and "session_ready v" and "session_key v = session_key w"
    and "run (chat_step L W) (chat_start w) acts c" and "run (chat_step L W') (chat_start v) acts' c'"
    and "run relay_step relay_init racts r" and "i < length (sessions r)" and "j < length (sessions r)"
    and "\<And>k. k < length (sessions r) \<Longrightarrow> room_of r k = room_of r j \<Longrightarrow> k \<in> {i, j}"
    and "sent_frames (tr (env w)) = [handshake]" and "received_frames (tr' (env v)) = [handshake']"
    and "prefix (ss_in (sessions r ! i)) (sent_frames (tr (env (ch_world c))))"
    and "prefix (received_frames (tr' (env (ch_world c')))) (map snd (ss_out (sessions r ! j)))"
    and "list_all (\<lambda>l. length l < 2 ^ 31) (lines acts)"
  shows "\<exists>ls. ch_printed c' = map Peer ls \<and> subseq ls (lines acts)"
proof -
  let ?k = "session_key w"
  have "talk_inv L tr w ([] @ lines acts) c" by (rule talk_run [OF assms(12) talk_start assms(3-5,9)])
  then obtain ev ls where A: "tr (env (ch_world c)) = tr (env w) @ ev" "subseq ls (lines acts)"
    "list_all2 (typed_frame L ?k) (sent_frames ev) ls"
    unfolding talk_inv_def by auto
  have "talk_inv L tr' v ([] @ lines acts') c'" by (rule talk_run [OF assms(13) talk_start assms(6-8,10)])
  then obtain ev' where B: "tr' (env (ch_world c')) = tr' (env v) @ ev'"
    "list_all2 (print_of L ?k) (received_frames ev') (ch_printed c')"
    unfolding talk_inv_def using assms(11) by auto
  have "subseq (received_frames (tr' (env (ch_world c')))) (sent_frames (tr (env (ch_world c))))"
  proof -
    have "subseq (from_log i (sessions r ! j)) (ss_in (sessions r ! i))"
      by (rule relay_in_order [OF assms(14-16)])
    then show ?thesis
      using prefix_imp_subseq [OF assms(20)] prefix_imp_subseq [OF assms(21)] relay_pair [OF assms(14,16,17)]
      by (metis subseq_order.order_trans)
  qed
  then have "subseq (handshake' # received_frames ev') (handshake # sent_frames ev)"
    using A(1) B(1) assms(18,19) by simp
  then have "subseq (received_frames ev') (sent_frames ev)"
    by (cases "handshake' = handshake") (auto dest: subseq_Cons' subseq_Cons2' subseq_Cons2_neq)
  then obtain us where us: "subseq us ls" "list_all2 (typed_frame L ?k) (received_frames ev') us"
    using subseq_list_all2 A(3) by blast
  have typed: "subseq us (lines acts)" using us(1) A(2) by (rule subseq_order.order_trans)
  then have "list_all (\<lambda>l. length l < 2 ^ 31) us"
    using assms(22) list_emb_set [OF typed] by (fastforce simp: list_all_iff)
  then have "ch_printed c' = map Peer us" by (rule prints_of_frames [OF assms(1,2) us(2) B(2)])
  with typed show ?thesis by blast
qed

end
