(* ===== verification/Talk_Witnesses.thy ===== *)
theory Talk_Witnesses
  imports App_Witnesses Relay_Talk
begin

text \<open>Two clients on the concrete libraries of Reference-Lib, one line typed into the first, and the relay between them.\<close>

text \<open>The relay passes on the first frame, to nobody yet or to the second client, and then a second one.\<close>

definition pair_acts :: "bytes \<Rightarrow> bytes \<Rightarrow> relay_act list" where
  "pair_acts h f = replicate 2 (Request (upgrade_request ''/ws'')) @ [Join 0, Join 1,
     Frame 0 h, Collect 0, StartWrite 0, FinishWrite 0 True, EndRound 0,
     Frame 0 f, Collect 0, StartWrite 0, FinishWrite 0 True, EndRound 0]"

definition pair_state :: "bytes \<Rightarrow> bytes \<Rightarrow> relay" where
  "pair_state h f = the (relay_exec relay_init (pair_acts h f))"

lemma pair_exec:
  "case relay_exec relay_init (pair_acts h f) of None \<Rightarrow> False
   | Some r \<Rightarrow> sessions r = [\<lparr>ss_room = ''default'', ss_phase = Reading, ss_in = [h, f], ss_out = []\<rparr>,
       \<lparr>ss_room = ''default'', ss_phase = Reading, ss_in = [], ss_out = [(0, h), (0, f)]\<rparr>]"
  by code_simp

lemma pair_state_run: "run relay_step relay_init (pair_acts h f) (pair_state h f)"
  and pair_state_sessions: "sessions (pair_state h f) =
    [\<lparr>ss_room = ''default'', ss_phase = Reading, ss_in = [h, f], ss_out = []\<rparr>,
     \<lparr>ss_room = ''default'', ss_phase = Reading, ss_in = [], ss_out = [(0, h), (0, f)]\<rparr>]"
proof -
  obtain r where "relay_exec relay_init (pair_acts h f) = Some r"
    using pair_exec [of h f] by (auto split: option.splits)
  then show "run relay_step relay_init (pair_acts h f) (pair_state h f)"
    using relay_exec_run [of relay_init "pair_acts h f" r] by (simp add: pair_state_def)
  show "sessions (pair_state h f) =
    [\<lparr>ss_room = ''default'', ss_phase = Reading, ss_in = [h, f], ss_out = []\<rparr>,
     \<lparr>ss_room = ''default'', ss_phase = Reading, ss_in = [], ss_out = [(0, h), (0, f)]\<rparr>]"
    using pair_exec [of h f] by (auto simp: pair_state_def split: option.splits)
qed

lemma b_close: "t_log (cw_close b_ws e) = t_log e"
  by (simp add: b_ws_def)

text \<open>The clients after their handshakes.\<close>

definition a_world :: "tenv engine_world" where "a_world = b_established [Sent b_hello, Received b_response]"

definition b_world :: "bytes \<Rightarrow> tenv engine_world" where
  "b_world f = (b_established [])\<lparr>env := \<lparr>t_log = [Received b_hello, Sent b_response], t_inbox = [f], t_disk = []\<rparr>\<rparr>"

lemma a_run:
  assumes f: "encryptAndSerializeMessage b_libs ''hello'' ''cli'' ''peer'' a_world = (Inr f, a_world)"
  shows "run (chat_step b_libs b_ws) (chat_start a_world) [TestTx, Line ''hello'']
    ((chat_start a_world)\<lparr>ch_world := b_established [Sent b_hello, Received b_response, Sent f], ch_tx := TxTest\<rparr>)"
proof -
  let ?c = "(chat_start a_world)\<lparr>ch_tx := TxRead\<rparr>"
  have tx: "cli_tx b_libs b_ws ''hello'' a_world = (Inr (), b_established [Sent b_hello, Received b_response, Sent f])"
    using f by (simp add: cli_tx_def b_ws_def net_send_def a_world_def)
  have "chat_step b_libs b_ws (chat_start a_world) TestTx ?c"
    using chat_step.test_tx [of "chat_start a_world" b_libs b_ws] by (simp add: chat_start_def)
  moreover have "chat_step b_libs b_ws ?c (Line ''hello'')
      (?c\<lparr>ch_world := b_established [Sent b_hello, Received b_response, Sent f], ch_tx := TxTest\<rparr>)"
    using chat_step.line [of ?c b_libs b_ws "''hello''"] tx by (simp add: chat_start_def)
  ultimately show ?thesis by (auto simp: chat_start_def)
qed

lemma b_run:
  assumes f: "encryptAndSerializeMessage b_libs ''hello'' ''cli'' ''peer'' a_world = (Inr f, a_world)"
  shows "\<exists>w. run (chat_step b_libs b_ws) (chat_start (b_world f)) [TestRx, RecvFrame]
      ((chat_start (b_world f))\<lparr>ch_world := w, ch_rx := RxTest, ch_printed := [Peer ''hello'']\<rparr>) \<and>
    t_log (env w) = [Received b_hello, Sent b_response, Received f]"
proof -
  let ?v = "b_established [Received b_hello, Sent b_response, Received f]"
  let ?c = "(chat_start (b_world f))\<lparr>ch_rx := RxRead\<rparr>"
  obtain e where e: "parseAndDecryptMessage b_libs f ?v = (Inr ''hello'', ?v\<lparr>env := e\<rparr>)"
    using b_decrypt [OF f, of ?v] by (auto simp: a_world_def ascii_def)
  have rx: "cli_rx b_libs b_ws (b_world f) = (Some (Peer ''hello''), ?v\<lparr>env := e\<rparr>)"
    using e by (simp add: cli_rx_def b_ws_def net_recv_def b_world_def)
  have "chat_step b_libs b_ws (chat_start (b_world f)) TestRx ?c"
    using chat_step.test_rx [of "chat_start (b_world f)" b_libs b_ws] by (simp add: chat_start_def)
  moreover have "chat_step b_libs b_ws ?c RecvFrame (?c\<lparr>ch_world := ?v\<lparr>env := e\<rparr>, ch_rx := RxTest,
      ch_printed := ch_printed ?c @ [Peer ''hello'']\<rparr>)"
    by (rule chat_step.recv_frame) (simp_all add: chat_start_def rx)
  moreover have "t_log e = t_log (env ?v)"
    using parse_quiet [OF b_libs_quiet, of f ?v] e by simp
  ultimately show ?thesis by (intro exI [of _ "?v\<lparr>env := e\<rparr>"]) (auto simp: chat_start_def)
qed

lemma relay_chat_in_order_witness:
  "\<exists>f (w :: tenv engine_world). run (chat_step b_libs b_ws) (chat_start (b_world f)) [TestRx, RecvFrame]
      ((chat_start (b_world f))\<lparr>ch_world := w, ch_rx := RxTest, ch_printed := [Peer ''hello'']\<rparr>) \<and>
    (\<exists>ls. [Peer ''hello''] = map Peer ls \<and> subseq ls [''hello''])"
proof -
  obtain f where f: "encryptAndSerializeMessage b_libs ''hello'' ''cli'' ''peer'' a_world = (Inr f, a_world)"
    by (rule b_encrypt [where w = a_world and body = "''hello''" and sid = "''cli''" and uid = "''peer''"]) (simp_all add: a_world_def)
  obtain w where w: "run (chat_step b_libs b_ws) (chat_start (b_world f)) [TestRx, RecvFrame]
      ((chat_start (b_world f))\<lparr>ch_world := w, ch_rx := RxTest, ch_printed := [Peer ''hello'']\<rparr>)"
    "t_log (env w) = [Received b_hello, Sent b_response, Received f]"
    using b_run [OF f] by blast
  have "\<exists>ls. ch_printed ((chat_start (b_world f))\<lparr>ch_world := w, ch_rx := RxTest, ch_printed := [Peer ''hello'']\<rparr>) =
      map Peer ls \<and> subseq ls (lines [TestTx, Line ''hello''])"
    by (rule relay_chat_in_order [OF _ _ _ b_libs_quiet _ _ b_libs_quiet _ _ _ _
        a_run [OF f] w(1) pair_state_run [of b_hello f], where view = t_gview and G = t_gcm and i = 0 and j = 1
        and handshake = b_hello and handshake' = b_hello])
      (auto simp: t_contracts t_proto_contract b_close a_world_def b_world_def pair_state_sessions w(2) less_Suc_eq)
  with w(1) show ?thesis by (intro exI [of _ f] exI [of _ w]) simp
qed

end
