(* ===== verification/Moves.thy ===== *)
theory Moves
  imports Handshake
begin

text \<open>
  A handshake seen from its transport: how far the calls of the two callbacks have got when it returns. The programs that
  join two engines rest on it.
\<close>

lemma libs_quiet_of: "libs_quiet f L \<Longrightarrow> libs_quiet (\<lambda>e. g (f e)) L"
  unfolding libs_quiet_def libs_silent_def silent_env silent_env [where tr = "\<lambda>e. g (f e)"]
  using heap_blind_env [where g = "\<lambda>e. g (f e)"] by simp

section \<open>A handshake between two observations of its transport\<close>

text \<open>
  What \<open>obs\<close> sees of the outside world changes only in the callbacks: \<open>R\<close> relates what it sees before to whether the
  call succeeds and what it sees afterwards.
\<close>

definition obs_run :: "('e \<Rightarrow> 't) \<Rightarrow> ('t \<Rightarrow> bool \<Rightarrow> 't \<Rightarrow> bool) \<Rightarrow> (('e, 'x) world_scheme, 'a) io \<Rightarrow> bool" where
  "obs_run obs R m \<longleftrightarrow> (\<forall>w. R (obs (env w)) (\<not> isl (fst (m w))) (obs (env (snd (m w)))))"

lemma obs_run_stay:
  "keeps (\<lambda>w. obs (env w)) m \<Longrightarrow> (\<And>s ok. R s ok s) \<Longrightarrow> obs_run obs R m"
  by (simp add: obs_run_def keeps_def)

lemma obs_run_bind:
  fixes m :: "(('e, 'x) world_scheme, 'a) io" and k :: "'a \<Rightarrow> (('e, 'x) world_scheme, 'b) io"
  assumes "keeps (\<lambda>w. obs (env w)) m" and "\<And>s. R s False s" and "\<And>x. obs_run obs R (k x)"
  shows "obs_run obs R (bind_io m k)"
  unfolding obs_run_def
proof
  fix w :: "('e, 'x) world_scheme"
  obtain r w1 where m: "m w = (r, w1)" by fastforce
  then have "obs (env w1) = obs (env w)" using keepsD [OF assms(1)] by blast
  with m assms(2) assms(3) [unfolded obs_run_def, rule_format, where w = w1]
  show "R (obs (env w)) (\<not> isl (fst (bind_io m k w))) (obs (env (snd (bind_io m k w))))"
    by (cases r) (simp_all add: io_run)
qed

lemma obs_run_finally:
  assumes "obs_run obs R m" and "\<And>w. env (c w) = env w"
  shows "obs_run obs R (finally_io m c)"
  using assms by (simp add: obs_run_def io_run)

lemma env_kyber_destroy [simp]: "env (kyber_destroy kem w) = env w"
  by (simp add: kyber_destroy_def split: option.split)

text \<open>Where a client can stop: before its send, at a send that fails, or with its receive done.\<close>

definition client_moves :: "'e send_fn \<Rightarrow> 'e recv_fn \<Rightarrow> ('e \<Rightarrow> 't) \<Rightarrow> 't \<Rightarrow> bool \<Rightarrow> 't \<Rightarrow> bool" where
  "client_moves send recv obs s ok s' \<longleftrightarrow>
     (\<not> ok \<and> s' = s) \<or>
     (\<exists>b e. obs e = s \<and> fst (send b e) \<noteq> Inr True \<and> \<not> ok \<and> s' = obs (snd (send b e))) \<or>
     (\<exists>b e. obs e = s \<and> fst (send b e) = Inr True \<and> s' = obs (snd (recv (snd (send b e)))))"

text \<open>And a server: before its receive, at it, or with its send done.\<close>

definition server_moves :: "'e send_fn \<Rightarrow> 'e recv_fn \<Rightarrow> ('e \<Rightarrow> 't) \<Rightarrow> 't \<Rightarrow> bool \<Rightarrow> 't \<Rightarrow> bool" where
  "server_moves send recv obs s ok s' \<longleftrightarrow>
     (\<not> ok \<and> s' = s) \<or>
     (\<exists>e. obs e = s \<and> \<not> ok \<and> s' = obs (snd (recv e))) \<or>
     (\<exists>e f e1 b. obs e = s \<and> fst (recv e) = Inr (Some f) \<and> obs e1 = obs (snd (recv e)) \<and>
        s' = obs (snd (send b e1)) \<and> (ok \<longrightarrow> fst (send b e1) = Inr True))"

lemma moves_fail: "client_moves send recv obs s False s" "server_moves send recv obs s False s"
  by (simp_all add: client_moves_def server_moves_def)

lemma session_set_keeps:
  "keeps (\<lambda>w :: ('e, 'x) engine_world_scheme. obs (env w)) (modify_io (\<lambda>w. w\<lparr>session_key := key, session_ready := True\<rparr>))"
  "keeps (\<lambda>w :: ('e, 'x) engine_world_scheme. obs (env w)) (modify_io (\<lambda>w. w\<lparr>session_ready := False\<rparr>))"
  by (rule keeps_modify, simp)+

lemmas quiet_rules = keeps_ret keeps_get keeps_guard require_keeps kyber_decapsulate_keeps session_set_keeps silent_calls

lemma client_network:
  fixes L :: "('e, 'h) libs"
  assumes Q: "libs_quiet obs L"
  shows "obs_run obs (client_moves send recv obs)
    (clientHandshakeInternal L send recv :: (('e, 'x) engine_world_scheme, string) io)"
proof -
  let ?g = "\<lambda>w :: ('e, 'x) engine_world_scheme. obs (env w)"
  note quiet = quiet_rules(1-6) silent_calls [where g = ?g, OF libs_quiet_silent [OF Q]]
  have exchange: "obs_run obs (client_moves send recv obs)
      (bind_io (callback_io (send b)) (\<lambda>sent. bind_io (guard_io sent (EarlyReturn m)) (\<lambda>_. bind_io (callback_io recv) k)))"
    if "\<And>x. keeps ?g (k x)" for b m and k :: "bytes option \<Rightarrow> (('e, 'x) engine_world_scheme, string) io"
    unfolding obs_run_def
  proof
    fix w :: "('e, 'x) engine_world_scheme"
    let ?m = "bind_io (callback_io (send b)) (\<lambda>sent. bind_io (guard_io sent (EarlyReturn m)) (\<lambda>_. bind_io (callback_io recv) k))"
    obtain r e where s: "send b (env w) = (r, e)" by fastforce
    obtain r' e' where v: "recv e = (r', e')" by fastforce
    show "client_moves send recv obs (obs (env w)) (\<not> isl (fst (?m w))) (obs (env (snd (?m w))))"
    proof (cases "r = Inr True")
      case False
      then have "isl (fst (?m w))" "env (snd (?m w)) = e"
        using s by (auto simp: callback_io_def io_run split: sum.splits)
      then show ?thesis unfolding client_moves_def using s False by (intro disjI2 disjI1 exI [of _ b] exI [of _ "env w"]) simp
    next
      case True
      have "obs (env (snd (?m w))) = obs e'"
      proof (cases r')
        case (Inr x)
        then show ?thesis
          using s v True that [of x, unfolded keeps_def, rule_format, of "w\<lparr>env := e'\<rparr>"]
          by (simp add: callback_io_def io_run)
      qed (use s v True in \<open>simp add: callback_io_def io_run\<close>)
      then show ?thesis
        unfolding client_moves_def using s v True
        by (intro disjI2 exI [of _ b] exI [of _ "env w"]) simp
    qed
  qed
  show ?thesis
    unfolding clientHandshakeInternal_def with_kyber_def split_def
    by (intro obs_run_bind obs_run_finally quiet moves_fail env_kyber_destroy exchange keeps_bind)
qed

lemma server_network:
  fixes L :: "('e, 'h) libs"
  assumes Q: "libs_quiet obs L"
  shows "obs_run obs (server_moves send recv obs)
    (serverHandshakeInternal L send recv :: (('e, 'x) engine_world_scheme, string) io)"
proof -
  let ?g = "\<lambda>w :: ('e, 'x) engine_world_scheme. obs (env w)"
  note quiet = quiet_rules(1-6) silent_calls [where g = ?g, OF libs_quiet_silent [OF Q]]
  let ?reply = "\<lambda>s ok s'. (\<not> ok \<and> s' = s) \<or>
    (\<exists>b e. obs e = s \<and> s' = obs (snd (send b e)) \<and> (ok \<longrightarrow> fst (send b e) = Inr True))"
  have answer: "obs_run obs ?reply (bind_io (callback_io (send b)) (\<lambda>sent. bind_io (guard_io sent (EarlyReturn m)) k))"
    if "\<And>x. keeps ?g (k x)" for b m and k :: "unit \<Rightarrow> (('e, 'x) engine_world_scheme, string) io"
    unfolding obs_run_def
  proof
    fix w :: "('e, 'x) engine_world_scheme"
    obtain r e where s: "send b (env w) = (r, e)" by fastforce
    let ?m = "bind_io (callback_io (send b)) (\<lambda>sent. bind_io (guard_io sent (EarlyReturn m)) k)"
    have "obs (env (snd (?m w))) = obs e \<and> (\<not> isl (fst (?m w)) \<longrightarrow> r = Inr True)"
      using s that [of "()", unfolded keeps_def, rule_format, of "w\<lparr>env := e\<rparr>"]
      by (auto simp: callback_io_def io_run split: sum.splits)
    with s show "?reply (obs (env w)) (\<not> isl (fst (?m w))) (obs (env (snd (?m w))))"
      by (intro disjI2 exI [of _ b] exI [of _ "env w"]) simp
  qed
  have reply: "obs_run obs ?reply (server_reply L send hello :: (('e, 'x) engine_world_scheme, string) io)" for hello
    unfolding server_reply_def with_kyber_def split_def
    by (intro obs_run_bind obs_run_finally quiet env_kyber_destroy answer keeps_bind) simp_all
  have exchange: "obs_run obs (server_moves send recv obs)
      (bind_io (callback_io recv) (\<lambda>r. bind_io (require_io m r) k))"
    if "\<And>x. obs_run obs ?reply (k x)" for m and k :: "bytes \<Rightarrow> (('e, 'x) engine_world_scheme, string) io"
    unfolding obs_run_def
  proof
    fix w :: "('e, 'x) engine_world_scheme"
    obtain r e where v: "recv (env w) = (r, e)" by fastforce
    let ?m = "bind_io (callback_io recv) (\<lambda>r. bind_io (require_io m r) k)"
    show "server_moves send recv obs (obs (env w)) (\<not> isl (fst (?m w))) (obs (env (snd (?m w))))"
    proof (cases "\<exists>f. r = Inr (Some f)")
      case False
      then have "isl (fst (?m w))" "env (snd (?m w)) = e"
        using v by (auto simp: callback_io_def require_io_def io_run split: sum.splits option.splits)
      then show ?thesis unfolding server_moves_def using v by (intro disjI2 disjI1 exI [of _ "env w"]) simp
    next
      case True
      then obtain f where f: "r = Inr (Some f)" by blast
      then have "?m w = k f (w\<lparr>env := e\<rparr>)"
        using v by (simp add: callback_io_def require_io_def io_run)
      moreover have "?reply (obs e) (\<not> isl (fst (k f (w\<lparr>env := e\<rparr>)))) (obs (env (snd (k f (w\<lparr>env := e\<rparr>)))))"
        using that [of f, unfolded obs_run_def, rule_format, of "w\<lparr>env := e\<rparr>"] by simp
      moreover have "fst (recv (env w)) = Inr (Some f)" "obs e = obs (snd (recv (env w)))"
        using v f by simp_all
      ultimately show ?thesis
        unfolding server_moves_def by metis
    qed
  qed
  show ?thesis
    unfolding serverHandshakeInternal_def
    by (intro obs_run_bind quiet moves_fail exchange)
       (simp_all add: reply obs_run_bind quiet)
qed

lemma client_run_moves:
  assumes "libs_quiet obs L" and "runClientHandshake L send recv w = (r, w')"
  shows "client_moves send recv obs (obs (env w)) (\<not> isl r) (obs (env w'))"
proof -
  let ?w = "w\<lparr>session_ready := False\<rparr>"
  have "w' = snd (clientHandshakeInternal L send recv ?w)" "isl r = isl (fst (clientHandshakeInternal L send recv ?w))"
    using assms(2) by (auto simp: runClientHandshake_def report_def io_run split: prod.splits sum.splits)
  then show ?thesis
    using client_network [OF assms(1), unfolded obs_run_def, rule_format, of send recv ?w] by simp
qed

lemma server_run_moves:
  assumes "libs_quiet obs L" and "runServerHandshake L send recv w = (r, w')"
  shows "server_moves send recv obs (obs (env w)) (\<not> isl r) (obs (env w'))"
proof -
  let ?w = "w\<lparr>session_ready := False\<rparr>"
  have "w' = snd (serverHandshakeInternal L send recv ?w)" "isl r = isl (fst (serverHandshakeInternal L send recv ?w))"
    using assms(2) by (auto simp: runServerHandshake_def report_def io_run split: prod.splits sum.splits)
  then show ?thesis
    using server_network [OF assms(1), unfolded obs_run_def, rule_format, of send recv ?w] by simp
qed

end
