(* ===== verification/Loopback.thy ===== *)
theory Loopback
  imports Tcp_Programs Transport Moves
begin

text \<open>
  \<^verbatim>\<open>tools/engine_loopback_test.cpp\<close>: two engines in one process, joined by two in-memory channels; the server's
  handshake runs in a thread of its own. The library calls of both threads are parameters of the model.
\<close>

section \<open>The process\<close>

text \<open>
  The channels and the engine \<open>server\<close>, whose members are the fields of an engine without an outside world; \<open>outside\<close> is
  what the libraries act on. \<open>le_end\<close> is what \<open>runServerHandshake\<close> returned in the thread, once it has; \<open>le_stuck\<close>
  records that the client waits in \<open>recv_from\<close> for a frame that no thread will send. The logs record the frames
  of the callbacks.
\<close>

record 'o loop_env =
  c2s :: channel
  s2c :: channel
  le_server :: "unit engine_world"
  le_end :: "(string + string) option"
  le_stuck :: bool
  c_log :: "event list"
  s_log :: "event list"
  outside :: 'o

definition open_channel :: channel where
  "open_channel = \<lparr>ch_q = [], ch_closed = False\<rparr>"

definition close_channels :: "'o loop_env \<Rightarrow> 'o loop_env" where
  "close_channels e = e\<lparr>c2s := (c2s e)\<lparr>ch_closed := True\<rparr>, s2c := (s2c e)\<lparr>ch_closed := True\<rparr>\<rparr>"

text \<open>A call of a member function of \<open>server\<close>.\<close>

definition server_in :: "'o loop_env \<Rightarrow> 'o loop_env engine_world" where
  "server_in e = \<lparr>live = live (le_server e), double_freed = double_freed (le_server e), env = e,
     id_pub = id_pub (le_server e), id_priv = id_priv (le_server e),
     session_key = session_key (le_server e), session_ready = session_ready (le_server e)\<rparr>"

definition server_out :: "'o loop_env engine_world \<Rightarrow> 'o loop_env" where
  "server_out v = (env v)\<lparr>le_server := \<lparr>live = live v, double_freed = double_freed v, env = (),
     id_pub = id_pub v, id_priv = id_priv v, session_key = session_key v, session_ready = session_ready v\<rparr>\<rparr>"

definition on_server ::
  "('o loop_env engine_world \<Rightarrow> 'a \<times> 'o loop_env engine_world) \<Rightarrow> 'o loop_env engine_world
    \<Rightarrow> 'a \<times> 'o loop_env engine_world" where
  "on_server call w = (case call (server_in (env w)) of (r, v) \<Rightarrow> (r, w\<lparr>env := server_out v\<rparr>))"

section \<open>The thread of the server\<close>

definition s_send :: "'o loop_env send_fn" where
  "s_send f e = (case send_to f (s2c e) of (ok, ch) \<Rightarrow>
     (Inr ok, e\<lparr>s2c := ch, s_log := s_log e @ (if ok then [Sent f] else [])\<rparr>))"

definition s_recv :: "'o loop_env recv_fn" where
  "s_recv e = (case recv_from (c2s e) of
       (Blocked, ch) \<Rightarrow> (Inr None, e\<lparr>le_stuck := True\<rparr>)
     | (Ret None, ch) \<Rightarrow> (Inr None, e\<lparr>c2s := ch\<rparr>)
     | (Ret (Some f), ch) \<Rightarrow> (Inr (Some f), e\<lparr>c2s := ch, s_log := s_log e @ [Received f]\<rparr>))"

definition th_server :: "('o loop_env, 'h) libs \<Rightarrow> 'o loop_env \<Rightarrow> 'o loop_env" where
  "th_server L e =
     (case runServerHandshake L s_send s_recv (server_in e) of
        (Inl err, v) \<Rightarrow> close_channels ((server_out v)\<lparr>le_end := Some (Inl err)\<rparr>)
      | (Inr peer, v) \<Rightarrow> (server_out v)\<lparr>le_end := Some (Inr peer)\<rparr>)"

text \<open>
  The thread runs as far as it gets: to its end, or to the wait for the hello, before which it has changed nothing. It
  waits for nothing else.
\<close>

definition run_server :: "('o loop_env, 'h) libs \<Rightarrow> 'o loop_env \<Rightarrow> 'o loop_env" where
  "run_server L e =
     (if le_end e \<noteq> None then e
      else (let e' = th_server L e in if le_stuck e' then e else e'))"

section \<open>The client\<close>

definition c_send :: "'o loop_env send_fn" where
  "c_send f e = (case send_to f (c2s e) of (ok, ch) \<Rightarrow>
     (Inr ok, e\<lparr>c2s := ch, c_log := c_log e @ (if ok then [Sent f] else [])\<rparr>))"

text \<open>While the client waits, the server runs.\<close>

definition c_recv :: "('o loop_env, 'h) libs \<Rightarrow> 'o loop_env recv_fn" where
  "c_recv L e =
     (let e = run_server L e in
      case recv_from (s2c e) of
        (Blocked, ch) \<Rightarrow> (Inr None, e\<lparr>le_stuck := True\<rparr>)
      | (Ret None, ch) \<Rightarrow> (Inr None, e\<lparr>s2c := ch\<rparr>)
      | (Ret (Some f), ch) \<Rightarrow> (Inr (Some f), e\<lparr>s2c := ch, c_log := c_log e @ [Received f]\<rparr>))"

section \<open>The program\<close>

text \<open>\<open>Blocked\<close> is a \<open>main\<close> that never returns.\<close>

definition loop_message ::
  "('o loop_env, 'h) libs \<Rightarrow> 'o loop_env engine_world \<Rightarrow> cli_end await \<times> 'o loop_env engine_world" where
  "loop_message L w =
     (case encryptAndSerializeMessage L ''hello loopback'' ''client'' ''server'' w of
        (Inl err, w) \<Rightarrow> (Ret (Exit 1 (''encrypt failed: '' @ err)), w)
      | (Inr frame, w) \<Rightarrow>
       (case send_to frame (c2s (env w)) of
          (False, ch) \<Rightarrow> (Ret (Exit 1 ''send frame failed''), w)
        | (True, ch) \<Rightarrow>
         (case recv_from ch of
            (Blocked, ch) \<Rightarrow> (Blocked, w\<lparr>env := (env w)\<lparr>c2s := ch\<rparr>\<rparr>)
          | (Ret None, ch) \<Rightarrow> (Ret (Exit 1 ''unexpected channel state''), w\<lparr>env := (env w)\<lparr>c2s := ch\<rparr>\<rparr>)
          | (Ret (Some inbound), ch) \<Rightarrow>
           (case on_server (parseAndDecryptMessage L inbound) (w\<lparr>env := (env w)\<lparr>c2s := ch\<rparr>\<rparr>) of
              (Inl err, w) \<Rightarrow> (Ret (Exit 1 (''decrypt failed: '' @ err)), w)
            | (Inr plain, w) \<Rightarrow> (Ret (Exit 0 (''server decrypted: '' @ plain)), w)))))"

text \<open>\<open>th_server.join()\<close>, and what follows it.\<close>

definition loop_join ::
  "('o loop_env, 'h) libs \<Rightarrow> ('o loop_env engine_world \<Rightarrow> cli_end await \<times> 'o loop_env engine_world)
    \<Rightarrow> 'o loop_env engine_world \<Rightarrow> cli_end await \<times> 'o loop_env engine_world" where
  "loop_join L k w =
     (let w = w\<lparr>env := run_server L (env w)\<rparr> in if le_end (env w) = None then (Blocked, w) else k w)"

text \<open>\<open>early\<close>: the thread of the server gets to run before the client has sent anything.\<close>

definition loop_session ::
  "('o loop_env, 'h) libs \<Rightarrow> bool \<Rightarrow> 'o loop_env engine_world \<Rightarrow> cli_end await \<times> 'o loop_env engine_world" where
  "loop_session L early w =
     (let w = w\<lparr>env := (env w)\<lparr>c2s := open_channel, s2c := open_channel, le_end := None, le_stuck := False,
                c_log := [], s_log := []\<rparr>\<rparr>;
          w = (if early then w\<lparr>env := run_server L (env w)\<rparr> else w) in
      case runClientHandshake L c_send (c_recv L) w of
        (Inl err, w) \<Rightarrow>
          if le_stuck (env w) then (Blocked, w)
          else loop_join L (\<lambda>w. (Ret (Exit 1 (''client handshake failed: '' @ err)), w))
                 (w\<lparr>env := close_channels (env w)\<rparr>)
      | (Inr peer_client, w) \<Rightarrow> loop_join L (loop_message L) w)"

definition loop_main ::
  "(string \<Rightarrow> 'o loop_env \<Rightarrow> (string + bool) \<times> 'o loop_env) \<Rightarrow> ('o loop_env, 'h) libs \<Rightarrow> bool
    \<Rightarrow> 'o loop_env engine_world \<Rightarrow> cli_end await \<times> 'o loop_env engine_world" where
  "loop_main create_directories L early w =
     (case create_directories ''build/test_id'' (env w) of
        (Inl ex, e) \<Rightarrow> (Ret (Uncaught (RuntimeError ex)), w\<lparr>env := e\<rparr>)
      | (Inr _, e) \<Rightarrow>
       (case loadOrCreateIdentity L ''build/test_id/client.id'' ''pw'' (w\<lparr>env := e\<rparr>) of
          (Inl err, w) \<Rightarrow> (Ret (Exit 1 (''client identity error: '' @ err)), w)
        | (Inr _, w) \<Rightarrow>
         (case on_server (loadOrCreateIdentity L ''build/test_id/server.id'' ''pw'') w of
            (Inl err, w) \<Rightarrow> (Ret (Exit 1 (''server identity error: '' @ err)), w)
          | (Inr _, w) \<Rightarrow> loop_session L early w)))"

section \<open>The channels during a run\<close>

text \<open>Everything of the process but what the libraries act on.\<close>

definition chans :: "'o loop_env \<Rightarrow> unit loop_env" where
  "chans e = \<lparr>c2s = c2s e, s2c = s2c e, le_server = le_server e, le_end = le_end e, le_stuck = le_stuck e,
     c_log = c_log e, s_log = s_log e, outside = ()\<rparr>"

lemma chans_fields [simp]:
  "c2s (chans e) = c2s e" "s2c (chans e) = s2c e" "le_server (chans e) = le_server e" "le_end (chans e) = le_end e"
  "le_stuck (chans e) = le_stuck e" "c_log (chans e) = c_log e" "s_log (chans e) = s_log e"
  by (simp_all add: chans_def)

lemma chans_eqD:
  assumes "chans e = chans e'"
  shows "c2s e = c2s e'" "s2c e = s2c e'" "le_server e = le_server e'" "le_end e = le_end e'" "le_stuck e = le_stuck e'"
    "c_log e = c_log e'" "s_log e = s_log e'"
  using assms by (simp_all add: chans_def)

lemma quiet_logs:
  assumes "libs_quiet chans L"
  shows "libs_quiet c_log L" "libs_quiet s_log L"
  using libs_quiet_of [OF assms, of c_log] libs_quiet_of [OF assms, of s_log] by simp_all

lemma server_in_out [simp]:
  "env (server_in e) = e" "c2s (server_out v) = c2s (env v)" "s2c (server_out v) = s2c (env v)"
  "le_end (server_out v) = le_end (env v)" "le_stuck (server_out v) = le_stuck (env v)"
  "c_log (server_out v) = c_log (env v)" "s_log (server_out v) = s_log (env v)"
  by (simp_all add: server_in_def server_out_def)

lemma server_in_server_out:
  "session_key (server_in (server_out v)) = session_key v" "session_ready (server_in (server_out v)) = session_ready v"
  by (simp_all add: server_in_def server_out_def)

lemma s_send_eq: "s_send f e = (if ch_closed (s2c e) then (Inr False, e)
    else (Inr True, e\<lparr>s2c := (s2c e)\<lparr>ch_q := ch_q (s2c e) @ [f]\<rparr>, s_log := s_log e @ [Sent f]\<rparr>))"
  by (simp add: s_send_def send_to_def)

lemma c_send_eq: "c_send f e = (if ch_closed (c2s e) then (Inr False, e)
    else (Inr True, e\<lparr>c2s := (c2s e)\<lparr>ch_q := ch_q (c2s e) @ [f]\<rparr>, c_log := c_log e @ [Sent f]\<rparr>))"
  by (simp add: c_send_def send_to_def)

lemma s_recv_eq: "s_recv e = (case ch_q (c2s e) of
     [] \<Rightarrow> (Inr None, if ch_closed (c2s e) then e else e\<lparr>le_stuck := True\<rparr>)
   | f # fs \<Rightarrow> (Inr (Some f), e\<lparr>c2s := (c2s e)\<lparr>ch_q := fs\<rparr>, s_log := s_log e @ [Received f]\<rparr>))"
  by (simp add: s_recv_def recv_from_def split: list.split)

lemma c_recv_eq: "c_recv L e = (let e = run_server L e in case ch_q (s2c e) of
     [] \<Rightarrow> (Inr None, if ch_closed (s2c e) then e else e\<lparr>le_stuck := True\<rparr>)
   | f # fs \<Rightarrow> (Inr (Some f), e\<lparr>s2c := (s2c e)\<lparr>ch_q := fs\<rparr>, c_log := c_log e @ [Received f]\<rparr>))"
  by (simp add: c_recv_def recv_from_def Let_def split: list.split)

lemma s_log_only [simp]:
  "c_log (snd (s_send f e)) = c_log e" "c_log (snd (s_recv e)) = c_log e"
  "le_stuck (snd (s_send f e)) = le_stuck e"
  "le_stuck (snd (s_recv e)) = (le_stuck e \<or> ch_q (c2s e) = [] \<and> \<not> ch_closed (c2s e))"
  by (auto simp: s_send_eq s_recv_eq split: list.split)

lemma s_transport: "transport_contract s_send s_recv s_log"
  by (auto simp: transport_contract_def s_send_eq s_recv_eq split: list.split)

lemma th_server_c_log:
  assumes "libs_quiet chans L"
  shows "c_log (th_server L e) = c_log e"
proof -
  obtain r v where v: "runServerHandshake L s_send s_recv (server_in e) = (r, v)" by fastforce
  have "c_log (env v) = c_log e"
    using server_run_moves [OF quiet_logs(1) [OF assms] v] by (auto simp: server_moves_def)
  with v show ?thesis by (auto simp: th_server_def close_channels_def split: sum.split)
qed

lemma run_server_c_log: "libs_quiet chans L \<Longrightarrow> c_log (run_server L e) = c_log e"
  by (simp add: run_server_def th_server_c_log Let_def)

lemma c_transport: "libs_quiet chans L \<Longrightarrow> transport_contract c_send (c_recv L) c_log"
  by (auto simp: transport_contract_def c_send_eq c_recv_eq Let_def run_server_c_log split: list.split)

text \<open>The thread does not wait when there is a frame or the channel is closed.\<close>

lemma th_server_unstuck:
  assumes Q: "libs_quiet chans L" and "ch_q (c2s e) \<noteq> [] \<or> ch_closed (c2s e)" and "\<not> le_stuck e"
  shows "\<not> le_stuck (th_server L e)" and "le_end (th_server L e) \<noteq> None"
proof -
  let ?obs = "\<lambda>e :: 'a loop_env. (c2s e, le_stuck e)"
  have q: "libs_quiet ?obs L" using libs_quiet_of [OF Q, of "\<lambda>e. (c2s e, le_stuck e)"] by simp
  obtain r v where v: "runServerHandshake L s_send s_recv (server_in e) = (r, v)" by fastforce
  have "\<not> le_stuck (env v)"
    using server_run_moves [OF q v] assms(2,3) by (auto simp: server_moves_def)
  with v show "\<not> le_stuck (th_server L e)" "le_end (th_server L e) \<noteq> None"
    by (auto simp: th_server_def close_channels_def split: sum.split)
qed

text \<open>Before the client has sent anything, the thread waits or has failed.\<close>

lemma run_server_early:
  assumes Q: "libs_quiet chans L" and "c2s e = open_channel" and "s2c e = open_channel" and "le_end e = None" and "\<not> le_stuck e"
  shows "run_server L e = e \<or>
    c2s (run_server L e) = open_channel\<lparr>ch_closed := True\<rparr> \<and> s2c (run_server L e) = open_channel\<lparr>ch_closed := True\<rparr> \<and>
    le_end (run_server L e) \<noteq> None \<and> \<not> le_stuck (run_server L e)"
proof -
  obtain r v where v: "runServerHandshake L s_send s_recv (server_in e) = (r, v)" by fastforce
  have blocked: "s_recv x = (Inr None, x\<lparr>le_stuck := True\<rparr>)" if "chans x = chans e" for x
    using chans_eqD [OF that] assms(2) by (simp add: s_recv_eq open_channel_def)
  have "le_stuck (env v) \<or> isl r \<and> chans (env v) = chans e"
    using server_run_moves [OF Q v] unfolding server_moves_def server_in_out
  proof (elim disjE exE conjE)
    fix x assume "chans x = chans e" "chans (env v) = chans (snd (s_recv x))"
    then show ?thesis using blocked [of x] chans_eqD(5) [of "env v" "snd (s_recv x)"] by simp
  next
    fix x f assume "chans x = chans e" "fst (s_recv x) = Inr (Some f)"
    then show ?thesis using blocked [of x] by simp
  qed simp
  then show ?thesis
  proof
    assume "le_stuck (env v)"
    with v have "le_stuck (th_server L e)"
      by (auto simp: th_server_def close_channels_def split: sum.split)
    then show ?thesis by (simp add: run_server_def Let_def)
  next
    assume "isl r \<and> chans (env v) = chans e"
    with v chans_eqD [of "env v" e] assms(2-5) show ?thesis
      by (auto simp: th_server_def run_server_def Let_def close_channels_def open_channel_def isl_def)
  qed
qed

text \<open>With the hello in the channel the thread ends; when it ends well, the response is in the other channel.\<close>

lemma run_server_hello:
  fixes e :: "'o loop_env"
  assumes Q: "libs_quiet chans L" and "ch_q (c2s e) = [a]" and "\<not> ch_closed (c2s e)" and "s2c e = open_channel"
    and "le_end e = None" and "\<not> le_stuck e" and "s_log e = []"
  defines "e' \<equiv> run_server L e"
  shows "\<not> le_stuck e' \<and> le_end e' \<noteq> None \<and> c_log e' = c_log e \<and>
    (ch_closed (s2c e') \<and> ch_closed (c2s e') \<or>
     (\<exists>peer v b. runServerHandshake L s_send s_recv (server_in e) = (Inr peer, v) \<and> le_server e' = le_server (server_out v) \<and>
        s_log (env v) = [Received a, Sent b] \<and> c2s e' = open_channel \<and> s2c e' = open_channel\<lparr>ch_q := [b]\<rparr>))"
proof -
  obtain r v where v: "runServerHandshake L s_send s_recv (server_in e) = (r, v)" by fastforce
  have e': "e' = th_server L e"
    using th_server_unstuck [OF Q, of e] assms(2,5,6) by (simp add: e'_def run_server_def Let_def)
  have basic: "\<not> le_stuck e' \<and> le_end e' \<noteq> None \<and> c_log e' = c_log e"
    using th_server_unstuck [OF Q, of e] assms(2,6) th_server_c_log [OF Q, of e] by (simp add: e')
  show ?thesis
  proof (cases r)
    case (Inl err)
    with v basic show ?thesis by (simp add: e' th_server_def close_channels_def)
  next
    case (Inr peer)
    obtain x x1 :: "'o loop_env" and f b where x: "chans x = chans e" "fst (s_recv x) = Inr (Some f)" "chans x1 = chans (snd (s_recv x))"
      "fst (s_send b x1) = Inr True" "chans (env v) = chans (snd (s_send b x1))"
      using server_run_moves [OF Q v] Inr unfolding server_moves_def by (auto simp del: s_log_only)
    have "f = a" "c2s x1 = open_channel" "s2c x1 = open_channel" "s_log x1 = [Received a]"
      using x(2) chans_eqD [OF x(1)] chans_eqD [OF x(3)] assms(2-7)
      by (auto simp: s_recv_eq open_channel_def intro!: channel.equality)
    then have "c2s (env v) = open_channel" "s2c (env v) = open_channel\<lparr>ch_q := [b]\<rparr>" "s_log (env v) = [Received a, Sent b]"
      using x(4) chans_eqD [OF x(5)] by (auto simp: s_send_eq open_channel_def split: if_splits)
    with basic v Inr show ?thesis by (auto simp: e' th_server_def)
  qed
qed

text \<open>The client's handshake between fresh channels.\<close>

definition fresh :: "'o loop_env \<Rightarrow> bool" where
  "fresh e \<longleftrightarrow> c2s e = open_channel \<and> s2c e = open_channel \<and> le_end e = None \<and> \<not> le_stuck e \<and> c_log e = [] \<and> s_log e = []"

lemma client_in_loop:
  fixes w :: "'o loop_env engine_world"
  assumes Q: "libs_quiet chans L" and "fresh (env w)" and "runClientHandshake L c_send (c_recv L) w = (r, w')"
  shows "isl r \<and> chans (env w') = chans (env w) \<or>
    (\<exists>(e :: 'o loop_env) a. chans e = chans (snd (c_send a (env w))) \<and> chans (env w') = chans (snd (c_recv L e)))"
  using client_run_moves [OF Q assms(3)] unfolding client_moves_def
proof (elim disjE exE conjE)
  fix b and x :: "'o loop_env" assume x: "chans x = chans (env w)" "fst (c_send b x) \<noteq> Inr True"
  have "c2s x = open_channel" using chans_eqD(1) [OF x(1)] assms(2) by (simp add: fresh_def)
  with x(2) have False by (simp add: c_send_eq open_channel_def)
  then show ?thesis ..
next
  fix b and x :: "'o loop_env" assume x: "chans x = chans (env w)" "fst (c_send b x) = Inr True"
    "chans (env w') = chans (snd (c_recv L (snd (c_send b x))))"
  have "chans (snd (c_send b x)) = chans (snd (c_send b (env w)))"
    using chans_eqD [OF x(1)] by (simp add: chans_def c_send_eq)
  with x(3) show ?thesis by blast
qed blast

text \<open>Afterwards the thread waits for a hello, or its handshake failed and it closed the channels, or both have the same frames.\<close>

definition exchanged :: "('o loop_env, 'h) libs \<Rightarrow> 'o loop_env \<Rightarrow> bool" where
  "exchanged L e \<longleftrightarrow>
     (\<exists>e1 peer v a b. runServerHandshake L s_send s_recv (server_in e1) = (Inr peer, v) \<and> s_log e1 = [] \<and>
        s_log (env v) = [Received a, Sent b] \<and> c_log e = [Sent a, Received b] \<and>
        le_server e = le_server (server_out v) \<and> c2s e = open_channel)"

lemma client_after:
  fixes w :: "'o loop_env engine_world"
  assumes Q: "libs_quiet chans L" and F: "fresh (env w)" and run: "runClientHandshake L c_send (c_recv L) w = (r, w')"
  shows "\<not> le_stuck (env w') \<and>
    (isl r \<and> fresh (env w') \<or> le_end (env w') \<noteq> None \<and> (ch_closed (c2s (env w')) \<or> exchanged L (env w')))"
  using client_in_loop [OF Q F run]
proof (elim disjE exE conjE)
  assume "isl r" "chans (env w') = chans (env w)"
  with chans_eqD [OF this(2)] F show ?thesis by (simp add: fresh_def)
next
  fix e :: "'o loop_env" and a
  assume e: "chans e = chans (snd (c_send a (env w)))" and w': "chans (env w') = chans (snd (c_recv L e))"
  have hello: "ch_q (c2s e) = [a]" "\<not> ch_closed (c2s e)" "s2c e = open_channel" "le_end e = None" "\<not> le_stuck e"
    "s_log e = []" "c_log e = [Sent a]"
    using chans_eqD [OF e] F by (simp_all add: c_send_eq fresh_def open_channel_def)
  let ?e = "run_server L e"
  note server = run_server_hello [OF Q hello(1-6)]
  from server consider "\<not> le_stuck ?e" "le_end ?e \<noteq> None" "ch_closed (s2c ?e)" "ch_closed (c2s ?e)"
    | peer v b where "\<not> le_stuck ?e" "le_end ?e \<noteq> None" "c_log ?e = c_log e"
      "runServerHandshake L s_send s_recv (server_in e) = (Inr peer, v)" "le_server ?e = le_server (server_out v)"
      "s_log (env v) = [Received a, Sent b]" "c2s ?e = open_channel" "s2c ?e = open_channel\<lparr>ch_q := [b]\<rparr>"
    by blast
  then show ?thesis
  proof cases
    case 1
    with chans_eqD [OF w'] show ?thesis by (simp add: c_recv_eq Let_def split: list.splits)
  next
    case 2
    then have rcv: "c_recv L e = (Inr (Some b), ?e\<lparr>s2c := open_channel, c_log := [Sent a, Received b]\<rparr>)"
      using hello(7) by (simp add: c_recv_eq Let_def open_channel_def)
    have "exchanged L (env w')"
      unfolding exchanged_def
      using 2 hello(6) chans_eqD [OF w' [unfolded rcv]] by (intro exI conjI) auto
    with 2 chans_eqD [OF w' [unfolded rcv]] show ?thesis by simp
  qed
qed

lemma client_after_failure:
  fixes w :: "'o loop_env engine_world"
  assumes Q: "libs_quiet chans L" and closed: "ch_closed (c2s (env w))"
    and run: "runClientHandshake L c_send (c_recv L) w = (r, w')"
  shows "isl r \<and> chans (env w') = chans (env w)"
proof -
  have "c_send b x = (Inr False, x)" if "chans x = chans (env w)" for b x
    using chans_eqD(1) [OF that] closed by (simp add: c_send_eq)
  with client_run_moves [OF Q run] show ?thesis unfolding client_moves_def by fastforce
qed

section \<open>The program returns\<close>

lemma loop_join_returns:
  assumes "le_end (env w) \<noteq> None" and "\<And>w. fst (k w) \<noteq> Blocked"
  shows "fst (loop_join L k w) \<noteq> Blocked"
  using assms by (simp add: loop_join_def run_server_def)

lemma loop_join_closed:
  assumes Q: "libs_quiet chans L" and "\<not> le_stuck (env w)" and "\<And>w. fst (k w) \<noteq> Blocked"
  shows "fst (loop_join L k (w\<lparr>env := close_channels (env w)\<rparr>)) \<noteq> Blocked"
proof -
  have "le_end (run_server L (close_channels (env w))) \<noteq> None"
    using th_server_unstuck [OF Q, of "close_channels (env w)"] assms(2)
    by (simp add: run_server_def Let_def close_channels_def)
  then show ?thesis using assms(3) by (simp add: loop_join_def Let_def)
qed

lemma loop_message_returns: "fst (loop_message L w) \<noteq> Blocked"
  by (auto simp: loop_message_def send_to_def recv_from_def split: prod.splits sum.splits list.splits)

definition loop_start :: "('o loop_env, 'h) libs \<Rightarrow> bool \<Rightarrow> 'o loop_env engine_world \<Rightarrow> 'o loop_env engine_world" where
  "loop_start L early w =
     (let w = w\<lparr>env := (env w)\<lparr>c2s := open_channel, s2c := open_channel, le_end := None, le_stuck := False,
                c_log := [], s_log := []\<rparr>\<rparr>
      in if early then w\<lparr>env := run_server L (env w)\<rparr> else w)"

lemma loop_start_cases:
  assumes "libs_quiet chans L"
  obtains "fresh (env (loop_start L early w))"
  | "ch_closed (c2s (env (loop_start L early w)))" "le_end (env (loop_start L early w)) \<noteq> None"
      "\<not> le_stuck (env (loop_start L early w))"
proof -
  let ?e = "(env w)\<lparr>c2s := open_channel, s2c := open_channel, le_end := None, le_stuck := False, c_log := [], s_log := []\<rparr>"
  have "fresh ?e" by (simp add: fresh_def)
  then show ?thesis
    using that run_server_early [OF assms, of ?e] by (cases early) (auto simp: loop_start_def Let_def fresh_def)
qed

lemma loop_session_start: "loop_session L early w =
    (case runClientHandshake L c_send (c_recv L) (loop_start L early w) of
        (Inl err, w) \<Rightarrow>
          if le_stuck (env w) then (Blocked, w)
          else loop_join L (\<lambda>w. (Ret (Exit 1 (''client handshake failed: '' @ err)), w))
                 (w\<lparr>env := close_channels (env w)\<rparr>)
      | (Inr peer_client, w) \<Rightarrow> loop_join L (loop_message L) w)"
  by (simp add: loop_session_def loop_start_def Let_def)

lemma loop_session_returns:
  assumes Q: "libs_quiet chans L"
  shows "fst (loop_session L early w) \<noteq> Blocked"
proof -
  let ?w = "loop_start L early w"
  obtain r w' where run: "runClientHandshake L c_send (c_recv L) ?w = (r, w')" by fastforce
  have after: "\<not> le_stuck (env w') \<and> (isl r \<or> le_end (env w') \<noteq> None)"
  proof (rule loop_start_cases [OF Q, of early w])
    assume "fresh (env ?w)"
    then show ?thesis using client_after [OF Q _ run] by auto
  next
    assume c: "ch_closed (c2s (env ?w))" "le_end (env ?w) \<noteq> None" "\<not> le_stuck (env ?w)"
    have "isl r \<and> chans (env w') = chans (env ?w)" by (rule client_after_failure [OF Q c(1) run])
    with chans_eqD(5) [of "env w'" "env ?w"] c(3) show ?thesis by simp
  qed
  show ?thesis
  proof (cases r)
    case (Inl err)
    then show ?thesis
      using run after loop_join_closed [OF Q, of w'] by (simp add: loop_session_start)
  next
    case (Inr peer)
    have "fst (loop_join L (loop_message L) w') \<noteq> Blocked"
      by (rule loop_join_returns [OF _ loop_message_returns]) (use after Inr in simp)
    then show ?thesis using run Inr by (simp add: loop_session_start)
  qed
qed

text \<open>C11: the loopback program always returns from \<open>main\<close>: whatever the libraries answer, whichever handshake fails and
  whichever thread gets to run first, neither thread waits for ever, in \<open>recv_from\<close> or in \<open>join\<close>.\<close>

theorem loopback_returns:
  assumes "libs_quiet chans L"
  shows "\<exists>r. fst (loop_main create_directories L early w) = Ret r"
proof -
  have "fst (loop_main create_directories L early w) \<noteq> Blocked"
    using loop_session_returns [OF assms]
    by (auto simp: loop_main_def split: prod.splits sum.splits)
  then show ?thesis by (cases "fst (loop_main create_directories L early w)") simp_all
qed

section \<open>What it prints\<close>

lemma loop_message_0:
  assumes Q: "libs_quiet chans L" and "fst (loop_message L w) = Ret (Exit 0 m)"
  obtains frame w1 e plain v where "encryptAndSerializeMessage L ''hello loopback'' ''client'' ''server'' w = (Inr frame, w1)"
    and "\<not> ch_closed (c2s (env w))" and "le_server e = le_server (env w)"
    and "c2s (env w) = open_channel \<longrightarrow> parseAndDecryptMessage L frame (server_in e) = (Inr plain, v)"
    and "m = ''server decrypted: '' @ plain"
proof -
  obtain r w1 where enc: "encryptAndSerializeMessage L ''hello loopback'' ''client'' ''server'' w = (r, w1)" by fastforce
  then have same: "chans (env w1) = chans (env w)"
    using encrypt_quiet [OF Q, of "''hello loopback''" "''client''" "''server''" w] by simp
  obtain frame where frame: "r = Inr frame" using assms(2) enc by (cases r) (simp_all add: loop_message_def)
  have closed: "\<not> ch_closed (c2s (env w))"
    using assms(2) enc frame chans_eqD(1) [OF same] by (auto simp: loop_message_def send_to_def)
  obtain f fs where q: "ch_q (c2s (env w)) @ [frame] = f # fs" by (cases "ch_q (c2s (env w)) @ [frame]") simp_all
  let ?e = "(env w1)\<lparr>c2s := (c2s (env w))\<lparr>ch_q := fs\<rparr>\<rparr>"
  obtain r' v where dec: "parseAndDecryptMessage L f (server_in ?e) = (r', v)" by fastforce
  have "loop_message L w = (case (r', w1\<lparr>env := server_out v\<rparr>) of
      (Inl err, w) \<Rightarrow> (Ret (Exit 1 (''decrypt failed: '' @ err)), w)
    | (Inr plain, w) \<Rightarrow> (Ret (Exit 0 (''server decrypted: '' @ plain)), w))"
    using enc frame closed q dec chans_eqD(1) [OF same]
    by (simp add: loop_message_def send_to_def recv_from_def on_server_def)
  then obtain plain where "r' = Inr plain" "m = ''server decrypted: '' @ plain"
    using assms(2) by (cases r') simp_all
  have "c2s (env w) = open_channel \<longrightarrow> parseAndDecryptMessage L frame (server_in ?e) = (Inr plain, v)"
    using dec q \<open>r' = Inr plain\<close> by (auto simp: open_channel_def)
  from that [OF enc [unfolded frame] closed _ this \<open>m = _\<close>] show ?thesis
    using chans_eqD(3) [OF same] by simp
qed

lemma loop_session_0:
  assumes "kem_contract (lb_kem L)" and "hkdf_contract (lb_hkdf L) vh H" and "gcm_contract (lb_cipher L) view G"
    and "proto_contract (lb_proto L)" and Q: "libs_quiet chans L" and "fst (loop_session L early w) = Ret (Exit 0 m)"
  shows "m = ''server decrypted: hello loopback''"
proof -
  let ?w = "loop_start L early w"
  obtain r w' where run: "runClientHandshake L c_send (c_recv L) ?w = (r, w')" by fastforce
  have ok: "\<exists>peer. r = Inr peer"
    using assms(6) run by (cases r) (auto simp: loop_session_start loop_join_def Let_def split: if_splits)
  then have F: "fresh (env ?w)"
    using client_after_failure [OF Q _ run] by (auto intro: loop_start_cases [OF Q, of early w])
  then have after: "le_end (env w') \<noteq> None" "ch_closed (c2s (env w')) \<or> exchanged L (env w')"
    using client_after [OF Q F run] ok by auto
  have "fst (loop_message L w') = Ret (Exit 0 m)"
    using assms(6) run ok after(1) by (auto simp: loop_session_start loop_join_def run_server_def Let_def)
  then obtain frame w1 e plain v' where enc: "encryptAndSerializeMessage L ''hello loopback'' ''client'' ''server'' w' = (Inr frame, w1)"
    and open': "\<not> ch_closed (c2s (env w'))" and e: "le_server e = le_server (env w')"
    and dec: "c2s (env w') = open_channel \<longrightarrow> parseAndDecryptMessage L frame (server_in e) = (Inr plain, v')"
    and m: "m = ''server decrypted: '' @ plain"
    by (rule loop_message_0 [OF Q])
  from after(2) open' obtain e1 peer' v a b where srv: "runServerHandshake L s_send s_recv (server_in e1) = (Inr peer', v)"
    "s_log e1 = []" "s_log (env v) = [Received a, Sent b]" "c_log (env w') = [Sent a, Received b]"
    "le_server (env w') = le_server (server_out v)" "c2s (env w') = open_channel"
    unfolding exchanged_def by blast
  obtain peer where peer: "r = Inr peer" using ok by blast
  have agree: "session_key w' = session_key v" "session_ready v"
    using handshake_agree [OF assms(1,2,4) c_transport [OF Q] quiet_logs(1) [OF Q] s_transport quiet_logs(2) [OF Q]
        run [unfolded peer] srv(1), of a b] srv(2-4) F by (auto simp: fresh_def)
  have "session_key (server_in e) = session_key w'" "session_ready (server_in e)"
    using agree srv(5) e by (simp_all add: server_in_def server_out_def)
  then obtain e' where "parseAndDecryptMessage L frame (server_in e) = (Inr ''hello loopback'', (server_in e)\<lparr>env := e'\<rparr>)"
    using message_decrypts [OF assms(3,4) _ _ _ enc, of "server_in e"] by (auto simp: ascii_def)
  with dec srv(6) m show ?thesis by simp
qed

text \<open>C10: when the loopback program returns 0 it has printed the very message: the server decrypted what the
  client encrypted. Nothing is assumed of the channels or of the two threads.\<close>

theorem loopback_delivers:
  assumes "kem_contract (lb_kem L)" and "hkdf_contract (lb_hkdf L) vh H" and "gcm_contract (lb_cipher L) view G"
    and "proto_contract (lb_proto L)" and "libs_quiet chans L"
    and "fst (loop_main create_directories L early w) = Ret (Exit 0 m)"
  shows "m = ''server decrypted: hello loopback''"
proof -
  have "\<exists>w. fst (loop_session L early w) = Ret (Exit 0 m)"
    using assms(6) by (auto simp: loop_main_def split: prod.splits sum.splits)
  then show ?thesis using loop_session_0 [OF assms(1-5)] by blast
qed

end
