(* ===== verification/Loop_Witnesses.thy ===== *)
theory Loop_Witnesses
  imports App_Witnesses Loopback
begin

text \<open>The loopback program on the concrete libraries of Reference-Lib: it returns 0.\<close>

lemma l_callbacks:
  "\<not> ch_closed (c2s (env w)) \<Longrightarrow> callback_io (c_send b) w = (Inr True, w\<lparr>env := (env w)\<lparr>
     c2s := (c2s (env w))\<lparr>ch_q := ch_q (c2s (env w)) @ [b]\<rparr>, c_log := c_log (env w) @ [Sent b]\<rparr>\<rparr>)"
  "\<not> ch_closed (s2c (env w)) \<Longrightarrow> callback_io (s_send b) w = (Inr True, w\<lparr>env := (env w)\<lparr>
     s2c := (s2c (env w))\<lparr>ch_q := ch_q (s2c (env w)) @ [b]\<rparr>, s_log := s_log (env w) @ [Sent b]\<rparr>\<rparr>)"
  "ch_q (c2s (env w)) = f # fs \<Longrightarrow> callback_io s_recv w = (Inr (Some f), w\<lparr>env := (env w)\<lparr>
     c2s := (c2s (env w))\<lparr>ch_q := fs\<rparr>, s_log := s_log (env w) @ [Received f]\<rparr>\<rparr>)"
  by (simp_all add: callback_io_def io_run c_send_eq s_send_eq s_recv_eq)

text \<open>The two engines after \<open>loadOrCreateIdentity\<close>, and the process in which they meet.\<close>

definition l_engine :: "'e \<Rightarrow> 'e engine_world" where
  "l_engine e = \<lparr>live = [], double_freed = False, env = e, id_pub = t_id 43, id_priv = t_id 42, session_key = [],
     session_ready = False\<rparr>"

definition l_env :: "bytes list \<Rightarrow> event list \<Rightarrow> unit loop_env" where
  "l_env q log = \<lparr>c2s = open_channel\<lparr>ch_q := q\<rparr>, s2c = open_channel, le_server = l_engine (), le_end = None,
     le_stuck = False, c_log = log, s_log = [], outside = ()\<rparr>"

definition l_ended :: "bytes list \<Rightarrow> event list \<Rightarrow> unit loop_env" where
  "l_ended q log = \<lparr>c2s = open_channel, s2c = open_channel\<lparr>ch_q := q\<rparr>,
     le_server = (l_engine ())\<lparr>session_key := t_key, session_ready := True\<rparr>,
     le_end = Some (Inr (t_fp (t_id 43))), le_stuck = False, c_log = log,
     s_log = [Received b_hello, Sent b_response], outside = ()\<rparr>"

lemma l_server_run:
  "runServerHandshake b_libs s_send s_recv (server_in (l_env [b_hello] log)) =
     (Inr (t_fp (t_id 43)), (l_engine (l_env [] log))\<lparr>
        env := (l_env [] log)\<lparr>s2c := open_channel\<lparr>ch_q := [b_response]\<rparr>, s_log := [Received b_hello, Sent b_response]\<rparr>,
        session_key := t_key, session_ready := True\<rparr>)"
  using b_parse(1) b_ser(2) t_sig_valid [of 42]
  by (simp add: runServerHandshake_def serverHandshakeInternal_def server_reply_def with_kyber_def l_callbacks
      server_in_def l_env_def l_engine_def open_channel_def
      io_run report_def require_io_def is_loaded_def kyber_destroy_def t_key_def b_response_msg_def b_hello_msg_def)

lemma l_run_server: "run_server b_libs (l_env [b_hello] log) = l_ended [b_response] log"
  by (simp add: run_server_def th_server_def l_server_run server_out_def Let_def)
     (simp add: l_ended_def l_env_def l_engine_def open_channel_def)

lemma l_client_run:
  "runClientHandshake b_libs c_send (c_recv b_libs) (l_engine (l_env [] [])) =
     (Inr (t_fp (t_id 43)), (l_engine (l_ended [] [Sent b_hello, Received b_response]))\<lparr>
        session_key := t_key, session_ready := True\<rparr>)"
proof -
  have send: "callback_io (c_send b_hello) (w\<lparr>env := l_env [] []\<rparr>) =
      (Inr True, w\<lparr>env := l_env [b_hello] [Sent b_hello]\<rparr>)" for w :: "unit loop_env engine_world"
    by (simp add: l_callbacks l_env_def open_channel_def)
  have recv: "callback_io (c_recv b_libs) (w\<lparr>env := l_env [b_hello] [Sent b_hello]\<rparr>) =
      (Inr (Some b_response), w\<lparr>env := l_ended [] [Sent b_hello, Received b_response]\<rparr>)" for w :: "unit loop_env engine_world"
    by (simp add: callback_io_def io_run c_recv_eq l_run_server Let_def) (simp add: l_ended_def open_channel_def io_run)
  show ?thesis
    using b_parse(2) b_ser(1) t_sig_valid [of 42] send [of "\<lparr>live = [OqsKem], double_freed = False, env = l_env [] [],
        id_pub = t_id 43, id_priv = t_id 42, session_key = [], session_ready = False\<rparr>"]
      recv [of "\<lparr>live = [OqsKem], double_freed = False, env = l_env [] [],
        id_pub = t_id 43, id_priv = t_id 42, session_key = [], session_ready = False\<rparr>"]
    by (simp add: runClientHandshake_def clientHandshakeInternal_def with_kyber_def l_engine_def
        io_run report_def require_io_def is_loaded_def kyber_destroy_def t_key_def b_response_msg_def b_hello_msg_def)
qed

text \<open>A process before \<open>main\<close>, and the program on it.\<close>

definition l_mkdir :: "string \<Rightarrow> 'e \<Rightarrow> (string + bool) \<times> 'e" where
  "l_mkdir path e = (Inr True, e)"

definition l_blank :: "'e \<Rightarrow> 'e engine_world" where
  "l_blank e = \<lparr>live = [], double_freed = False, env = e, id_pub = [], id_priv = [], session_key = [], session_ready = False\<rparr>"

definition l_start :: "unit loop_env engine_world" where
  "l_start = l_blank ((l_env [] [])\<lparr>le_server := l_blank ()\<rparr>)"

lemma l_main: "\<exists>m. fst (loop_main l_mkdir b_libs False l_start) = Ret (Exit 0 m)"
proof -
  let ?w = "(l_engine (l_ended [] [Sent b_hello, Received b_response]))\<lparr>session_key := t_key, session_ready := True\<rparr>"
  obtain frame where enc: "encryptAndSerializeMessage b_libs ''hello loopback'' ''client'' ''server'' ?w = (Inr frame, ?w)"
    by (rule b_encrypt [where w = ?w and body = "''hello loopback''" and sid = "''client''" and uid = "''server''"]) simp_all
  have dec: "\<exists>v. parseAndDecryptMessage b_libs frame (server_in (l_ended [] log)) = (Inr ''hello loopback'', v)" for log
    using b_decrypt [OF enc, of "server_in (l_ended [] log)"]
    by (auto simp: ascii_def server_in_def l_ended_def l_engine_def)
  then obtain v where v: "parseAndDecryptMessage b_libs frame (server_in (l_ended [] [Sent b_hello, Received b_response])) =
      (Inr ''hello loopback'', v)" by blast
  have msg: "fst (loop_message b_libs ?w) = Ret (Exit 0 ''server decrypted: hello loopback'')"
    using enc v by (simp add: loop_message_def send_to_def recv_from_def on_server_def l_engine_def l_ended_def open_channel_def)
  have session: "loop_session b_libs False (l_engine (l_env [] [])) = loop_message b_libs ?w"
  proof -
    have "(l_engine (l_env [] []))\<lparr>env := (env (l_engine (l_env [] [])))\<lparr>c2s := open_channel, s2c := open_channel,
        le_end := None, le_stuck := False, c_log := [], s_log := []\<rparr>\<rparr> = l_engine (l_env [] [])"
      by (simp add: l_engine_def l_env_def open_channel_def)
    moreover have "?w\<lparr>env := run_server b_libs (env ?w)\<rparr> = ?w" "le_end (env ?w) \<noteq> None"
      by (simp_all add: l_engine_def l_ended_def run_server_def)
    ultimately show ?thesis
      by (simp only: loop_session_def Let_def if_False l_client_run prod.case sum.case loop_join_def)
  qed
  have "loop_main l_mkdir b_libs False l_start = loop_session b_libs False (l_engine (l_env [] []))"
    by (simp add: loop_main_def l_mkdir_def b_identity on_server_def l_start_def l_blank_def l_engine_def
        server_in_def server_out_def l_env_def)
  with session msg show ?thesis by simp
qed

lemma loopback_returns_witness: "\<exists>r. fst (loop_main l_mkdir b_libs True l_start) = Ret r"
  by (rule loopback_returns [OF b_libs_still])

lemma loopback_delivers_witness:
  "fst (loop_main l_mkdir b_libs False l_start) = Ret (Exit 0 ''server decrypted: hello loopback'')"
proof -
  obtain m where m: "fst (loop_main l_mkdir b_libs False l_start) = Ret (Exit 0 m)" using l_main by blast
  have "m = ''server decrypted: hello loopback''"
    by (rule loopback_delivers [OF _ _ _ _ b_libs_still m, where vh = t_hview and H = t_H and view = t_gview and G = t_gcm])
       (simp_all add: t_kem_contract t_hkdf_contract t_gcm_contract t_proto_contract)
  with m show ?thesis by simp
qed

end
