(* ===== verification/Tcp_Demo.thy ===== *)
theory Tcp_Demo
  imports Tcp_Programs Transport Moves "HOL-Library.Sublist"
begin

text \<open>
  \<^verbatim>\<open>client.cpp\<close> and \<^verbatim>\<open>server.cpp\<close> over the transport of \<^verbatim>\<open>tcp_transport.cpp\<close>, down to the bytes of the connection:
  one process each, joined by nothing but the two byte streams of the socket.
\<close>

section \<open>A process with a TcpTransport\<close>

text \<open>
  \<open>te_stuck\<close> records that a \<open>recv\<close> has not returned: what a program does after it has no meaning. \<open>te_log\<close>
  records the frames that were sent and received, \<open>te_outside\<close> is what the libraries act on.
\<close>

record ('s, 'o) tcp_env =
  te_sock :: 's
  te_stuck :: bool
  te_log :: "event list"
  te_outside :: 'o

definition on_socket :: "('s \<Rightarrow> bool \<times> 's) \<Rightarrow> ('s, 'o) tcp_env \<Rightarrow> bool \<times> ('s, 'o) tcp_env" where
  "on_socket call e = (case call (te_sock e) of (ok, s) \<Rightarrow> (ok, e\<lparr>te_sock := s\<rparr>))"

definition tcp_transport :: "('s, 'ep) asio \<Rightarrow> ('s, 'o) tcp_env tcp_obj" where
  "tcp_transport A = \<lparr>
     tc_connect = (\<lambda>host port. on_socket (tcp_connect A host port)),
     tc_listen_and_accept = (\<lambda>port. on_socket (tcp_listen_and_accept A port)),
     tc_send = (\<lambda>f e. case on_socket (tcp_send A f) e of (ok, e) \<Rightarrow>
       (ok, e\<lparr>te_log := te_log e @ (if ok then [Sent f] else [])\<rparr>)),
     tc_recv = (\<lambda>e. case tcp_recv A (te_sock e) of
         (Blocked, s) \<Rightarrow> (None, e\<lparr>te_stuck := True\<rparr>)
       | (Ret None, s) \<Rightarrow> (None, e\<lparr>te_sock := s\<rparr>)
       | (Ret (Some f), s) \<Rightarrow> (Some f, e\<lparr>te_sock := s, te_log := te_log e @ [Received f]\<rparr>)),
     tc_waits = (\<lambda>e. fst (tcp_recv A (te_sock e)) = Blocked),
     tc_close = (\<lambda>e. e\<lparr>te_sock := tcp_close A (te_sock e)\<rparr>)\<rparr>"

lemma tcp_transport_contract:
  "transport_contract (tcp_send_fn (tcp_transport A)) (tcp_recv_fn (tcp_transport A)) te_log"
  by (auto simp: transport_contract_def tcp_send_fn_def tcp_recv_fn_def tcp_transport_def on_socket_def
      split: prod.splits await.splits option.splits)

lemma tcp_transport_close [simp]: "te_log (tc_close (tcp_transport A) e) = te_log e"
  by (simp add: tcp_transport_def)

section \<open>The bytes of a connection\<close>

text \<open>
  A connected socket: \<open>wrote\<close> are the bytes that were handed to it, \<open>taken\<close> those that were read from it. Nothing is
  said about calls that throw.
\<close>

definition stream_contract :: "('s, 'ep) asio \<Rightarrow> ('s \<Rightarrow> bytes) \<Rightarrow> ('s \<Rightarrow> bytes) \<Rightarrow> bool" where
  "stream_contract A wrote taken \<longleftrightarrow>
     (\<forall>ep s s'. asio_connect A ep s = (True, s') \<longrightarrow> wrote s' = [] \<and> taken s' = []) \<and>
     (\<forall>s s'. asio_accept A s = (True, s') \<longrightarrow> wrote s' = [] \<and> taken s' = []) \<and>
     (\<forall>b s s'. asio_write A b s = (True, s') \<longrightarrow> wrote s' = wrote s @ b \<and> taken s' = taken s) \<and>
     (\<forall>n s b s'. asio_read A n s = (Ret (Some b), s') \<longrightarrow>
        length b = n \<and> taken s' = taken s @ b \<and> wrote s' = wrote s) \<and>
     (\<forall>s. wrote (asio_shutdown A s) = wrote s \<and> taken (asio_shutdown A s) = taken s) \<and>
     (\<forall>s. wrote (asio_close A s) = wrote s \<and> taken (asio_close A s) = taken s)"

lemma stream_fresh:
  assumes "stream_contract A wrote taken"
  shows "tcp_connect A host port s = (True, s') \<Longrightarrow> wrote s' = [] \<and> taken s' = []"
    and "tcp_listen_and_accept A port s = (True, s') \<Longrightarrow> wrote s' = [] \<and> taken s' = []"
proof -
  have fresh: "asio_connect A ep s = (True, s') \<Longrightarrow> wrote s' = [] \<and> taken s' = []"
    "asio_accept A s = (True, s') \<Longrightarrow> wrote s' = [] \<and> taken s' = []" for ep s s'
    using assms unfolding stream_contract_def by blast+
  show "wrote s' = [] \<and> taken s' = []" if "tcp_connect A host port s = (True, s')"
    using that fresh(1) by (auto simp: tcp_connect_def split: prod.splits option.splits)
  show "wrote s' = [] \<and> taken s' = []" if "tcp_listen_and_accept A port s = (True, s')"
    using that fresh(2) by (auto simp: tcp_listen_and_accept_def split: prod.splits if_splits)
qed

lemma stream_close:
  assumes "stream_contract A wrote taken"
  shows "wrote (tcp_close A s) = wrote s" and "taken (tcp_close A s) = taken s"
  using assms by (simp_all add: stream_contract_def tcp_close_def)

lemma stream_send:
  assumes "stream_contract A wrote taken" and "tcp_send A f s = (True, s')"
  shows "wrote s' = wrote s @ tcp_encode f \<and> taken s' = taken s"
proof -
  have W: "asio_write A b s = (True, s') \<Longrightarrow> wrote s' = wrote s @ b \<and> taken s' = taken s" for b s s'
    using assms(1) by (simp add: stream_contract_def)
  let ?len = "c_uint32 (length f)"
  obtain s1 where s1: "asio_write A (be32 ?len) s = (True, s1)"
    using assms(2) by (auto simp: tcp_send_def Let_def split: prod.splits bool.splits)
  show ?thesis
    using W [OF s1] assms(2) s1 W [of f s1 s'] by (auto simp: tcp_send_def tcp_encode_def Let_def split: if_splits)
qed

lemma stream_recv:
  assumes "stream_contract A wrote taken" and "tcp_recv A s = (Ret (Some f), s')"
  shows "taken s' = taken s @ tcp_encode f \<and> wrote s' = wrote s \<and> length f < 2 ^ 32"
proof -
  have R: "length b = n \<and> taken s' = taken s @ b \<and> wrote s' = wrote s" if "asio_read A n s = (Ret (Some b), s')" for n b s s'
    using assms(1) that unfolding stream_contract_def by blast
  obtain h s1 where s1: "asio_read A 4 s = (Ret (Some h), s1)"
    using assms(2) by (auto simp: tcp_recv_def split: prod.splits await.splits option.splits)
  note h = R [OF s1]
  show ?thesis
  proof (cases "ntohl h = 0")
    case True
    then have "be32 0 = h" using h be32_ntohl [of h] by simp
    with True h s1 assms(2) show ?thesis by (simp add: tcp_recv_def tcp_encode_def c_uint32_def)
  next
    case False
    obtain r s2 where s2: "asio_read A (unat (ntohl h)) s1 = (r, s2)" by fastforce
    then have r: "r = Ret (Some f)" "s2 = s'"
      using False s1 assms(2) by (auto simp: tcp_recv_def Let_def split: await.splits)
    note b = R [OF s2 [unfolded r]]
    then have "c_uint32 (length f) = ntohl h" by (simp add: c_uint32_def)
    moreover have "unat (ntohl h) < 2 ^ LENGTH(32)" by (rule unsigned_less)
    then have "length f < 2 ^ 32" using b by simp
    ultimately show ?thesis using False h b by (simp add: tcp_encode_def)
  qed
qed

text \<open>Frames that were read from the beginning of a stream are the frames at its beginning.\<close>

lemma stream_prefix:
  assumes "prefix (concat (map tcp_encode got)) (concat (map tcp_encode sent))"
    and "list_all (\<lambda>f. length f < 2 ^ 32) got" and "list_all (\<lambda>f. length f < 2 ^ 32) sent"
  shows "prefix got sent"
proof -
  obtain r where "concat (map tcp_encode sent) = concat (map tcp_encode got) @ r"
    using assms(1) by (auto simp: prefix_def)
  then have "sent = got @ deframe r"
    using deframe_frames [OF assms(2), of r] deframe_frames [OF assms(3), of "[]"] by simp
  then show ?thesis by simp
qed

section \<open>The handshakes over it\<close>

text \<open>What the callbacks change of a process.\<close>

definition wire :: "('s, 'o) tcp_env \<Rightarrow> 's \<times> bool \<times> event list" where
  "wire e = (te_sock e, te_stuck e, te_log e)"

lemma wire_quiet: "libs_quiet wire L \<Longrightarrow> libs_quiet te_log L"
  using libs_quiet_of [of wire L "\<lambda>x. snd (snd x)"] by (simp add: wire_def)

text \<open>The bytes of a connection are those of the frames in the log.\<close>

definition on_wire :: "('s \<Rightarrow> bytes) \<Rightarrow> ('s \<Rightarrow> bytes) \<Rightarrow> ('s, 'o) tcp_env \<Rightarrow> bytes list \<Rightarrow> bytes list \<Rightarrow> bool" where
  "on_wire wrote taken e out inp \<longleftrightarrow>
     wrote (te_sock e) = concat (map tcp_encode out) \<and> taken (te_sock e) = concat (map tcp_encode inp) \<and>
     list_all (\<lambda>f. length f < 2 ^ 32) inp"

lemma on_wire_cong: "wire e = wire e' \<Longrightarrow> on_wire wrote taken e out inp = on_wire wrote taken e' out inp"
  by (simp add: on_wire_def wire_def)

lemma send_on_wire:
  assumes "stream_contract A wrote taken" and "tc_send (tcp_transport A) f e = (True, e')" and "on_wire wrote taken e out inp"
  shows "on_wire wrote taken e' (out @ [f]) inp \<and> te_log e' = te_log e @ [Sent f]"
proof -
  obtain s where s: "tcp_send A f (te_sock e) = (True, s)" "e' = e\<lparr>te_sock := s, te_log := te_log e @ [Sent f]\<rparr>"
    using assms(2) by (auto simp: tcp_transport_def on_socket_def split: prod.splits)
  with stream_send [OF assms(1) s(1)] assms(3) show ?thesis by (simp add: on_wire_def)
qed

lemma recv_on_wire:
  assumes "stream_contract A wrote taken" and "tc_recv (tcp_transport A) e = (Some f, e')" and "on_wire wrote taken e out inp"
  shows "on_wire wrote taken e' out (inp @ [f]) \<and> te_log e' = te_log e @ [Received f]"
proof -
  obtain s where s: "tcp_recv A (te_sock e) = (Ret (Some f), s)" "e' = e\<lparr>te_sock := s, te_log := te_log e @ [Received f]\<rparr>"
    using assms(2) by (auto simp: tcp_transport_def split: prod.splits await.splits option.splits)
  with stream_recv [OF assms(1) s(1)] assms(3) show ?thesis by (simp add: on_wire_def)
qed

text \<open>A receive that did not give a frame adds nothing to the log.\<close>

lemma recv_nothing: "tc_recv (tcp_transport A) e = (None, e') \<Longrightarrow> te_log e' = te_log e"
  by (auto simp: tcp_transport_def split: prod.splits await.splits option.splits)

lemma client_on_wire:
  fixes A :: "('s, 'ep) asio" and L :: "(('s, 'o) tcp_env, 'h) libs"
  assumes S: "stream_contract A wrote taken" and Q: "libs_quiet wire L" and P: "proto_contract (lb_proto L)"
    and run: "runClientHandshake L (tcp_send_fn (tcp_transport A)) (tcp_recv_fn (tcp_transport A)) w = (Inr fp, w')"
    and start: "on_wire wrote taken (env w) [] []"
  obtains hello response where "te_log (env w') = te_log (env w) @ [Sent hello, Received response]"
    and "on_wire wrote taken (env w') [hello] [response]" and "length hello < 2 ^ 32"
proof -
  let ?T = "tcp_transport A :: ('s, 'o) tcp_env tcp_obj"
  from tcp_transport_contract wire_quiet [OF Q] run obtain k pk sk sig hello response resp ss key where
    hello: "ser_hello (lb_proto L) \<lparr>hh_kem_public_key = pk, hh_version = kVersion,
        hh_identity_pub = id_pub w, hh_identity_sig = sig\<rparr> = Some hello"
    and log: "te_log (env w') = te_log (env w) @ [Sent hello, Received response]"
    by (rule client_handshake_Inr)
  have len: "length hello < 2 ^ 32" using P hello unfolding proto_contract_def by fastforce
  obtain b e where b: "wire e = wire (env w)" "fst (tcp_send_fn ?T b e) = Inr True"
    "wire (env w') = wire (snd (tcp_recv_fn ?T (snd (tcp_send_fn ?T b e))))"
    using client_run_moves [OF Q run] by (auto simp: client_moves_def)
  obtain e1 where e1: "tc_send ?T b e = (True, e1)"
    using b(2) by (auto simp: tcp_send_fn_def split: prod.splits)
  have sent: "on_wire wrote taken e1 ([] @ [b]) []" "te_log e1 = te_log e @ [Sent b]"
    using send_on_wire [OF S e1, of "[]" "[]"] start on_wire_cong [OF b(1)] by simp_all
  obtain r e2 where e2: "tc_recv ?T e1 = (r, e2)" by fastforce
  have end_e2: "wire (env w') = wire e2" using b(3) e1 e2 by (simp add: tcp_send_fn_def tcp_recv_fn_def)
  have logs: "te_log (env w') = te_log e2" "te_log e = te_log (env w)"
    using end_e2 b(1) by (simp_all add: wire_def)
  obtain f where f: "r = Some f"
    using log logs sent(2) recv_nothing [of A e1 e2] e2 by (cases r) auto
  have got: "on_wire wrote taken e2 [b] [f]" "te_log e2 = te_log e1 @ [Received f]"
    using recv_on_wire [OF S e2 [unfolded f], of "[b]" "[]"] sent(1) by simp_all
  then have "b = hello" "f = response" using log logs sent(2) by simp_all
  with that log got(1) on_wire_cong [OF end_e2] len show ?thesis by blast
qed

lemma server_on_wire:
  fixes A :: "('s, 'ep) asio" and L :: "(('s, 'o) tcp_env, 'h) libs"
  assumes S: "stream_contract A wrote taken" and Q: "libs_quiet wire L" and P: "proto_contract (lb_proto L)"
    and run: "runServerHandshake L (tcp_send_fn (tcp_transport A)) (tcp_recv_fn (tcp_transport A)) w = (Inr fp, w')"
    and start: "on_wire wrote taken (env w) [] []"
  obtains hello response where "te_log (env w') = te_log (env w) @ [Received hello, Sent response]"
    and "on_wire wrote taken (env w') [response] [hello]" and "length response < 2 ^ 32"
proof -
  let ?T = "tcp_transport A :: ('s, 'o) tcp_env tcp_obj"
  from tcp_transport_contract wire_quiet [OF Q] run obtain k hello h ct ss sig response key where
    response: "ser_response (lb_proto L) \<lparr>hr_kem_ciphertext = ct, hr_version = kVersion,
        hr_identity_pub = id_pub w, hr_identity_sig = sig\<rparr> = Some response"
    and log: "te_log (env w') = te_log (env w) @ [Received hello, Sent response]"
    by (rule server_handshake_Inr)
  have len: "length response < 2 ^ 32" using P response unfolding proto_contract_def by fastforce
  obtain e f e1 b where b: "wire e = wire (env w)" "fst (tcp_recv_fn ?T e) = Inr (Some f)"
    "wire e1 = wire (snd (tcp_recv_fn ?T e))" "wire (env w') = wire (snd (tcp_send_fn ?T b e1))"
    "fst (tcp_send_fn ?T b e1) = Inr True"
    using server_run_moves [OF Q run] by (auto simp: server_moves_def)
  obtain e2 where e2: "tc_recv ?T e = (Some f, e2)"
    using b(2) by (auto simp: tcp_recv_fn_def split: prod.splits)
  have got: "on_wire wrote taken e2 [] ([] @ [f])" "te_log e2 = te_log e @ [Received f]"
    using recv_on_wire [OF S e2, of "[]" "[]"] start on_wire_cong [OF b(1)] by simp_all
  have e1: "wire e1 = wire e2" using b(3) e2 by (simp add: tcp_recv_fn_def)
  obtain e3 where e3: "tc_send ?T b e1 = (True, e3)"
    using b(5) by (auto simp: tcp_send_fn_def split: prod.splits)
  have sent: "on_wire wrote taken e3 ([] @ [b]) [f]" "te_log e3 = te_log e1 @ [Sent b]"
    using send_on_wire [OF S e3, of "[]" "[f]"] got(1) on_wire_cong [OF e1] by simp_all
  have end_e3: "wire (env w') = wire e3" using b(4) e3 by (simp add: tcp_send_fn_def)
  then have "te_log (env w') = te_log (env w) @ [Received f, Sent b]"
    using sent(2) got(2) e1 b(1) by (simp add: wire_def)
  then have "b = response" "f = hello" using log by simp_all
  with that log sent(1) on_wire_cong [OF end_e3] len show ?thesis by simp
qed

section \<open>The programs over it\<close>

lemma fresh_on_wire:
  assumes "stream_contract A wrote taken"
  shows "tc_connect (tcp_transport A) host port e = (True, e') \<Longrightarrow> on_wire wrote taken e' [] []"
    and "tc_listen_and_accept (tcp_transport A) port e = (True, e') \<Longrightarrow> on_wire wrote taken e' [] []"
  using stream_fresh [OF assms]
  by (auto simp: tcp_transport_def on_socket_def on_wire_def split: prod.splits)

lemma close_on_wire:
  "stream_contract A wrote taken \<Longrightarrow>
    on_wire wrote taken (tc_close (tcp_transport A) e) out inp = on_wire wrote taken e out inp"
  by (simp add: tcp_transport_def on_wire_def stream_close)

lemma client_main_on_wire:
  fixes A :: "('s, 'ep) asio" and L :: "(('s, 'o) tcp_env, 'h) libs"
  assumes S: "stream_contract A wrote taken" and Q: "libs_quiet wire L" and P: "proto_contract (lb_proto L)"
    and G: "gcm_contract (lb_cipher L) view G" and short: "length (getline stdin 1) < 2 ^ 31"
    and run: "client_main L (tcp_transport A) stdin w = (Exit 0 m, w')"
  obtains before hello response frame where
    "te_log (env w') = before @ [Sent hello, Received response, Sent frame]"
    and "on_wire wrote taken (env w') [hello, frame] [response]" and "list_all (\<lambda>f. length f < 2 ^ 32) [hello, frame]"
proof -
  let ?T = "tcp_transport A :: ('s, 'o) tcp_env tcp_obj"
  obtain fp frame e0 e w1 w2 w3 where c: "tc_connect ?T ''127.0.0.1'' 5555 e0 = (True, env w1)"
    "runClientHandshake L (tcp_send_fn ?T) (tcp_recv_fn ?T) w1 = (Inr fp, w2)"
    "encryptAndSerializeMessage L (client_input stdin) ''alice'' ''bob'' w2 = (Inr frame, w3)"
    "tc_send ?T frame (env w3) = (True, e)" "w' = w3\<lparr>env := tc_close ?T e\<rparr>"
    by (rule client_main_0 [OF run])
  obtain hello response where h: "te_log (env w2) = te_log (env w1) @ [Sent hello, Received response]"
    "on_wire wrote taken (env w2) [hello] [response]" "length hello < 2 ^ 32"
    by (rule client_on_wire [OF S Q P c(2) fresh_on_wire(1) [OF S c(1)]])
  have w3: "wire (env w3) = wire (env w2)"
    using encrypt_quiet [OF Q, of "client_input stdin" "''alice''" "''bob''" w2] c(3) by simp
  have "length (client_input stdin) < 2 ^ 31" using short by (simp add: client_input_def Let_def)
  from G this c(3) obtain nonce ct inner now now' where
    "ser_envelope (lb_proto L) \<lparr>ev_version = kVersion, ev_to_username = ''bob'', ev_sender_pubkey = [],
       ev_payload_e2e = inner, ev_client_timestamp = now'\<rparr> = Some frame"
    by (rule encrypt_Inr)
  then have "length frame < 2 ^ 32" using P unfolding proto_contract_def by (fastforce simp: ascii_def)
  moreover have "on_wire wrote taken e ([hello] @ [frame]) [response]" "te_log e = te_log (env w3) @ [Sent frame]"
    using send_on_wire [OF S c(4), of "[hello]" "[response]"] h(2) on_wire_cong [OF w3] by simp_all
  moreover have "te_log (env w3) = te_log (env w2)" using w3 by (simp add: wire_def)
  ultimately show ?thesis using that h(1,3) c(5) by (simp add: close_on_wire [OF S])
qed

lemma server_main_on_wire:
  fixes A :: "('s, 'ep) asio" and L :: "(('s, 'o) tcp_env, 'h) libs"
  assumes S: "stream_contract A wrote taken" and Q: "libs_quiet wire L" and P: "proto_contract (lb_proto L)"
    and run: "server_main L (tcp_transport A) stdin w = (Exit 0 m, w')"
  obtains before hello response frame where
    "te_log (env w') = before @ [Received hello, Sent response, Received frame]"
    and "on_wire wrote taken (env w') [response] [hello, frame]" and "list_all (\<lambda>f. length f < 2 ^ 32) [response]"
proof -
  let ?T = "tcp_transport A :: ('s, 'o) tcp_env tcp_obj"
  obtain fp frame plain e0 e w1 w2 w3 where c: "tc_listen_and_accept ?T 5555 e0 = (True, env w1)"
    "runServerHandshake L (tcp_send_fn ?T) (tcp_recv_fn ?T) w1 = (Inr fp, w2)"
    "tc_recv ?T (env w2) = (Some frame, e)" "parseAndDecryptMessage L frame (w2\<lparr>env := e\<rparr>) = (Inr plain, w3)"
    "w' = w3\<lparr>env := tc_close ?T (env w3)\<rparr>"
    by (rule server_main_0 [OF run])
  obtain hello response where h: "te_log (env w2) = te_log (env w1) @ [Received hello, Sent response]"
    "on_wire wrote taken (env w2) [response] [hello]" "length response < 2 ^ 32"
    by (rule server_on_wire [OF S Q P c(2) fresh_on_wire(2) [OF S c(1)]])
  have "on_wire wrote taken e [response] ([hello] @ [frame])" "te_log e = te_log (env w2) @ [Received frame]"
    using recv_on_wire [OF S c(3), of "[response]" "[hello]"] h(2) by simp_all
  moreover have w3: "wire (env w3) = wire e" using parse_quiet [OF Q, of frame "w2\<lparr>env := e\<rparr>"] c(4) by simp
  moreover have "te_log (env w3) = te_log e" using w3 by (simp add: wire_def)
  ultimately show ?thesis using that h(1,3) c(5) on_wire_cong [OF w3, of wrote taken] by (simp add: close_on_wire [OF S])
qed

section \<open>Waiting\<close>

text \<open>The identity functions leave alone what \<open>tr\<close> observes, when the file system and the generation of keys do.\<close>

definition files_quiet :: "('e \<Rightarrow> 't) \<Rightarrow> ('e, 'h) libs \<Rightarrow> bool" where
  "files_quiet tr L \<longleftrightarrow>
     (\<forall>p e. tr (snd (fs_exists (lb_fs L) p e)) = tr e) \<and> (\<forall>p e. tr (snd (fs_open_read (lb_fs L) p e)) = tr e) \<and>
     (\<forall>p e. tr (snd (fs_open_trunc (lb_fs L) p e)) = tr e) \<and> (\<forall>p b e. tr (snd (fs_write (lb_fs L) p b e)) = tr e) \<and>
     (\<forall>e. tr (snd (keygen_ctx_new (lb_pkey L) e)) = tr e) \<and> (\<forall>k e. tr (snd (pkey_keygen (lb_pkey L) k e)) = tr e)"

lemma identity_quiet:
  fixes w :: "('e, 'x) engine_world_scheme"
  assumes Q: "libs_quiet tr L" and F: "files_quiet tr L"
  shows "tr (env (snd (loadOrCreateIdentity L path pw w))) = tr (env w)"
proof -
  let ?g = "\<lambda>w :: ('e, 'x) engine_world_scheme. tr (env w)"
  have S: "libs_silent ?g L" by (rule libs_quiet_silent [OF Q])
  have blind: "heap_blind ?g" by (rule heap_blind_env)
  have set: "keeps ?g (modify_io (\<lambda>w. w\<lparr>id_pub := f w\<rparr>))" "keeps ?g (modify_io (\<lambda>w. w\<lparr>id_priv := f w\<rparr>))"
    "keeps ?g (modify_io (\<lambda>w. w\<lparr>id_pub := f w, id_priv := h w\<rparr>))" for f h
    by (simp_all add: keeps_def io_run)
  have files: "silent ?g (fs_open_read (lb_fs L) p)" "silent ?g (fs_open_trunc (lb_fs L) p)"
    "silent ?g (fs_write (lb_fs L) p b)" "silent ?g (keygen_ctx_new (lb_pkey L))" "silent ?g (pkey_keygen (lb_pkey L) k)" for p b k
    using F by (simp_all add: files_quiet_def silent_env)
  have rand: "silent ?g (rand_bytes (lb_cipher L) n)" for n using S by (simp add: libs_silent_def)
  have gen: "keeps ?g (gen_ed25519 (lb_pkey L))"
    unfolding gen_ed25519_def split_def Let_def by (intro keeps_intros set files blind)
  have bytes: "keeps ?g (random_bytes (lb_cipher L) n)" for n
    unfolding random_bytes_def split_def by (intro keeps_intros rand)
  have create: "keeps ?g (create_profile (lb_cipher L) (lb_pkey L) (lb_fs L) path p)" for p
    unfolding create_profile_def
    by (intro keeps_intros gen bytes pbkdf2_keeps AESGCM_new_keeps aes_encrypt_keeps [OF S] files)
  have load: "keeps ?g (load_profile (lb_cipher L) (lb_pkey L) (lb_fs L) junk path p)" for p junk
    unfolding load_profile_def split_def Let_def
    by (intro keeps_intros set files pbkdf2_keeps AESGCM_new_keeps aes_decrypt_keeps [OF S])
  have "keeps ?g (callback_io (\<lambda>e. case fs_exists (lb_fs L) path e of
      (Inl m, e') \<Rightarrow> (Inl (RuntimeError m), e') | (Inr b, e') \<Rightarrow> (Inr b, e')))"
  proof -
    have "silent ?g (\<lambda>e. case fs_exists (lb_fs L) path e of
        (Inl m, e') \<Rightarrow> (Inl (RuntimeError m), e') | (Inr b, e') \<Rightarrow> (Inr b, e'))"
      using F unfolding silent_env files_quiet_def by (auto split: prod.split sum.split) (metis snd_conv)+
    then show ?thesis unfolding callback_io_def by (intro keeps_intros) (auto intro!: keeps_intros split: sum.splits)
  qed
  then show ?thesis
    unfolding loadOrCreateIdentity_def snd_report
    by (rule keeps_def [where g = ?g, THEN iffD1, rule_format, OF keeps_bind]) (intro keeps_intros create load)
qed

text \<open>
  \<open>arrived\<close> are all the bytes that reach the socket as long as its process makes no further step. A read blocks only
  when it wants more than these, and what it returns are their first bytes that were not read yet.
\<close>

definition arrival_contract :: "('s, 'ep) asio \<Rightarrow> ('s \<Rightarrow> bytes) \<Rightarrow> ('s \<Rightarrow> bytes) \<Rightarrow> bool" where
  "arrival_contract A taken arrived \<longleftrightarrow>
     (\<forall>n s s'. asio_read A n s = (Blocked, s') \<longrightarrow> length (arrived s) < length (taken s) + n) \<and>
     (\<forall>n s b s'. asio_read A n s = (Ret (Some b), s') \<longrightarrow>
        prefix (taken s') (arrived s') \<and> prefix (arrived s) (arrived s'))"

text \<open>The receive of a frame of which all bytes arrive returns, whatever the length of the frame.\<close>

lemma recv_returns:
  assumes S: "stream_contract A wrote taken" and R: "arrival_contract A taken arrived"
    and "taken s = []" and "arrived s = tcp_encode f"
  shows "fst (tcp_recv A s) \<noteq> Blocked"
proof
  assume blocked: "fst (tcp_recv A s) = Blocked"
  let ?len = "c_uint32 (length f)"
  have no_block: "length (arrived s) < length (taken s) + n" if "asio_read A n s = (Blocked, s')" for n s s'
    using R that unfolding arrival_contract_def by blast
  obtain r s1 where s1: "asio_read A 4 s = (r, s1)" by fastforce
  have "r \<noteq> Blocked" using no_block [of 4 s s1] s1 assms(3,4) by (auto simp: tcp_encode_def)
  then obtain h where h: "r = Ret (Some h)"
    using blocked s1 by (cases r) (auto simp: tcp_recv_def split: option.splits)
  have s1': "length h = 4" "taken s1 = h" using S s1 h assms(3) unfolding stream_contract_def by fastforce+
  have "prefix h (arrived s1)" "prefix (tcp_encode f) (arrived s1)"
    using R s1 h s1'(2) assms(4) unfolding arrival_contract_def by metis+
  then have eq: "h = be32 ?len" and len: "length (tcp_encode f) \<le> length (arrived s1)"
    using s1'(1) by (auto simp: prefix_def tcp_encode_def append_eq_append_conv split: if_splits)
  then have "?len \<noteq> 0" "\<exists>s2. asio_read A (unat ?len) s1 = (Blocked, s2)"
    using blocked s1 h by (auto simp: tcp_recv_def Let_def split: if_splits prod.splits await.splits)
  then have "length (arrived s1) < 4 + unat ?len" using no_block [of "unat ?len" s1] s1' by auto
  moreover have "unat ?len \<le> length f" by (simp add: c_uint32_def unat_of_nat take_bit_eq_mod)
  ultimately show False using len \<open>?len \<noteq> 0\<close> by (simp add: tcp_encode_def)
qed

text \<open>Where a process can be stuck: its client waits for the response, its server for the hello or for the message.\<close>

lemma send_stuck [simp]: "te_stuck (snd (tc_send (tcp_transport A) f e)) = te_stuck e"
  and fresh_stuck [simp]: "te_stuck (snd (tc_connect (tcp_transport A) host port e)) = te_stuck e"
    "te_stuck (snd (tc_listen_and_accept (tcp_transport A) port e)) = te_stuck e"
  and close_stuck [simp]: "te_stuck (tc_close (tcp_transport A) e) = te_stuck e"
  by (simp_all add: tcp_transport_def on_socket_def split: prod.split)

lemma send_fn_stuck: "te_stuck (snd (tcp_send_fn (tcp_transport A) f e)) = te_stuck e"
  by (simp add: tcp_send_fn_def tcp_transport_def on_socket_def split: prod.split)

lemma recv_stuck:
  assumes "tc_recv (tcp_transport A) e = (r, e')" and "\<not> te_stuck e" and "te_stuck e'"
  shows "r = None \<and> te_sock e' = te_sock e \<and> fst (tcp_recv A (te_sock e')) = Blocked"
  using assms by (auto simp: tcp_transport_def split: prod.splits await.splits option.splits)

lemma client_handshake_stuck:
  fixes A :: "('s, 'ep) asio" and L :: "(('s, 'o) tcp_env, 'h) libs"
  assumes S: "stream_contract A wrote taken" and Q: "libs_quiet wire L"
    and run: "runClientHandshake L (tcp_send_fn (tcp_transport A)) (tcp_recv_fn (tcp_transport A)) w = (r, w')"
    and start: "on_wire wrote taken (env w) [] []" "\<not> te_stuck (env w)" and stuck: "te_stuck (env w')"
  shows "isl r \<and> fst (tcp_recv A (te_sock (env w'))) = Blocked \<and> (\<exists>f. on_wire wrote taken (env w') [f] [])"
proof -
  let ?T = "tcp_transport A :: ('s, 'o) tcp_env tcp_obj"
  have same: "wire e = wire e' \<Longrightarrow> te_stuck e = te_stuck e'" for e e' :: "('s, 'o) tcp_env" by (simp add: wire_def)
  have "client_moves (tcp_send_fn ?T) (tcp_recv_fn ?T) wire (wire (env w)) (\<not> isl r) (wire (env w'))"
    by (rule client_run_moves [OF Q run])
  then obtain b e where b: "wire e = wire (env w)" "fst (tcp_send_fn ?T b e) = Inr True"
    "wire (env w') = wire (snd (tcp_recv_fn ?T (snd (tcp_send_fn ?T b e))))"
    unfolding client_moves_def using same send_fn_stuck start(2) stuck by metis
  obtain e1 where e1: "tc_send ?T b e = (True, e1)"
    using b(2) by (auto simp: tcp_send_fn_def split: prod.splits)
  have sent: "on_wire wrote taken e1 [b] []" "te_log e1 = te_log e @ [Sent b]" "\<not> te_stuck e1"
    using send_on_wire [OF S e1, of "[]" "[]"] start on_wire_cong [OF b(1)] same [OF b(1)] send_stuck [of A b e] e1 by simp_all
  obtain x e2 where e2: "tc_recv ?T e1 = (x, e2)" by fastforce
  have w': "wire (env w') = wire e2" using b(3) e1 e2 by (simp add: tcp_send_fn_def tcp_recv_fn_def)
  then have "te_stuck e2" using same [OF w'] stuck by simp
  note gone = recv_stuck [OF e2 sent(3) this]
  moreover have "isl r"
  proof (rule ccontr)
    assume "\<not> isl r"
    then obtain fp where "r = Inr fp" by (cases r) simp_all
    from tcp_transport_contract wire_quiet [OF Q] run [unfolded this] obtain hello response
      where "te_log (env w') = te_log (env w) @ [Sent hello, Received response]"
      by (rule client_handshake_Inr)
    moreover have "te_log e2 = te_log e1" using recv_nothing [of A e1 e2] e2 gone by simp
    ultimately show False using sent(2) w' b(1) by (simp add: wire_def)
  qed
  ultimately show ?thesis using sent(1) w' by (auto simp: on_wire_def wire_def)
qed

lemma server_handshake_stuck:
  fixes A :: "('s, 'ep) asio" and L :: "(('s, 'o) tcp_env, 'h) libs"
  assumes S: "stream_contract A wrote taken" and Q: "libs_quiet wire L"
    and run: "runServerHandshake L (tcp_send_fn (tcp_transport A)) (tcp_recv_fn (tcp_transport A)) w = (r, w')"
    and start: "on_wire wrote taken (env w) [] []" "\<not> te_stuck (env w)" and stuck: "te_stuck (env w')"
  shows "isl r \<and> fst (tcp_recv A (te_sock (env w'))) = Blocked \<and> on_wire wrote taken (env w') [] []"
proof -
  let ?T = "tcp_transport A :: ('s, 'o) tcp_env tcp_obj"
  have same: "wire e = wire e' \<Longrightarrow> te_stuck e = te_stuck e'" for e e' :: "('s, 'o) tcp_env" by (simp add: wire_def)
  have got: "\<not> te_stuck e \<Longrightarrow> fst (tcp_recv_fn ?T e) = Inr (Some f) \<Longrightarrow> \<not> te_stuck (snd (tcp_recv_fn ?T e))" for e f
    using recv_stuck [of A e] by (cases "tc_recv ?T e") (auto simp: tcp_recv_fn_def)
  have "server_moves (tcp_send_fn ?T) (tcp_recv_fn ?T) wire (wire (env w)) (\<not> isl r) (wire (env w'))"
    by (rule server_run_moves [OF Q run])
  then obtain e where e: "wire e = wire (env w)" "isl r" "wire (env w') = wire (snd (tcp_recv_fn ?T e))"
    unfolding server_moves_def using same send_fn_stuck got start(2) stuck by metis
  obtain x e1 where e1: "tc_recv ?T e = (x, e1)" by fastforce
  have w': "wire (env w') = wire e1" using e(3) e1 by (simp add: tcp_recv_fn_def)
  then have "te_stuck e1" "\<not> te_stuck e" using same [OF w'] same [OF e(1)] start(2) stuck by simp_all
  with recv_stuck [OF e1] w' e(1,2) start(1) show ?thesis by (auto simp: wire_def on_wire_def)
qed

lemma client_stuck:
  fixes A :: "('s, 'ep) asio" and L :: "(('s, 'o) tcp_env, 'h) libs"
  assumes S: "stream_contract A wrote taken" and Q: "libs_quiet wire L" and F: "files_quiet wire L"
    and run: "client_main L (tcp_transport A) stdin w = (x, w')" and start: "\<not> te_stuck (env w)" and stuck: "te_stuck (env w')"
  shows "fst (tcp_recv A (te_sock (env w'))) = Blocked \<and> (\<exists>f. on_wire wrote taken (env w') [f] [])"
proof -
  let ?T = "tcp_transport A :: ('s, 'o) tcp_env tcp_obj"
  have same: "wire e = wire e' \<Longrightarrow> te_stuck e = te_stuck e'" for e e' :: "('s, 'o) tcp_env" by (simp add: wire_def)
  obtain r1 v1 where v1: "loadOrCreateIdentity L ''client.id'' (getline stdin 0) w = (r1, v1)" by fastforce
  have ok1: "\<not> te_stuck (env v1)" using identity_quiet [OF Q F, of _ _ w] v1 same start by (metis snd_conv)
  then obtain u where u: "r1 = Inr u" using run stuck v1 by (cases r1) (auto simp: client_main_def)
  obtain ok e1 where e1: "tc_connect ?T ''127.0.0.1'' 5555 (env v1) = (ok, e1)" by fastforce
  have ok2: "\<not> te_stuck e1" using ok1 fresh_stuck(1) [of A "''127.0.0.1''" 5555 "env v1"] e1 by simp
  then have ok: ok using run stuck v1 u e1 by (cases ok) (auto simp: client_main_def)
  let ?v = "v1\<lparr>env := e1\<rparr>"
  obtain r2 v2 where v2: "runClientHandshake L (tcp_send_fn ?T) (tcp_recv_fn ?T) ?v = (r2, v2)" by fastforce
  have wired: "on_wire wrote taken (env ?v) [] []" using fresh_on_wire(1) [OF S] e1 ok by simp
  note hs = client_handshake_stuck [OF S Q v2 wired]
  show ?thesis
  proof (cases r2)
    case (Inl err)
    then have "w' = v2" using run v1 u e1 ok v2 by (simp add: client_main_def)
    then show ?thesis using hs ok2 stuck by simp
  next
    case (Inr fp)
    then have ok3: "\<not> te_stuck (env v2)" using hs ok2 by auto
    obtain r3 v3 where v3: "encryptAndSerializeMessage L (client_input stdin) ''alice'' ''bob'' v2 = (r3, v3)" by fastforce
    have ok4: "\<not> te_stuck (env v3)"
      using ok3 same encrypt_quiet [OF Q, of "client_input stdin" "''alice''" "''bob''" v2] v3 by (metis snd_conv)
    then obtain frame where frame: "r3 = Inr frame" using run stuck v1 u e1 ok v2 Inr v3 by (cases r3) (auto simp: client_main_def)
    obtain sent e2 where e2: "tc_send ?T frame (env v3) = (sent, e2)" by fastforce
    have "\<not> te_stuck e2" using ok4 send_stuck [of A frame "env v3"] e2 by simp
    moreover have "w' = v3\<lparr>env := e2\<rparr> \<or> w' = v3\<lparr>env := tc_close ?T e2\<rparr>"
      using run v1 u e1 ok v2 Inr v3 frame e2 by (cases sent) (simp_all add: client_main_def)
    ultimately show ?thesis using stuck close_stuck [of A e2] by auto
  qed
qed

lemma server_stuck:
  fixes A :: "('s, 'ep) asio" and L :: "(('s, 'o) tcp_env, 'h) libs"
  assumes S: "stream_contract A wrote taken" and Q: "libs_quiet wire L" and F: "files_quiet wire L"
    and P: "proto_contract (lb_proto L)"
    and run: "server_main L (tcp_transport A) stdin w = (x, w')" and start: "\<not> te_stuck (env w)" and stuck: "te_stuck (env w')"
  shows "fst (tcp_recv A (te_sock (env w'))) = Blocked \<and>
    (on_wire wrote taken (env w') [] [] \<or> (\<exists>f g. on_wire wrote taken (env w') [f] [g]))"
proof -
  let ?T = "tcp_transport A :: ('s, 'o) tcp_env tcp_obj"
  have same: "wire e = wire e' \<Longrightarrow> te_stuck e = te_stuck e'" for e e' :: "('s, 'o) tcp_env" by (simp add: wire_def)
  obtain r1 v1 where v1: "loadOrCreateIdentity L ''server.id'' (getline stdin 0) w = (r1, v1)" by fastforce
  have ok1: "\<not> te_stuck (env v1)" using identity_quiet [OF Q F, of _ _ w] v1 same start by (metis snd_conv)
  then obtain u where u: "r1 = Inr u" using run stuck v1 by (cases r1) (auto simp: server_main_def)
  obtain ok e1 where e1: "tc_listen_and_accept ?T 5555 (env v1) = (ok, e1)" by fastforce
  have ok2: "\<not> te_stuck e1" using ok1 fresh_stuck(2) [of A 5555 "env v1"] e1 by simp
  then have ok: ok using run stuck v1 u e1 by (cases ok) (auto simp: server_main_def)
  let ?v = "v1\<lparr>env := e1\<rparr>"
  obtain r2 v2 where v2: "runServerHandshake L (tcp_send_fn ?T) (tcp_recv_fn ?T) ?v = (r2, v2)" by fastforce
  have wired: "on_wire wrote taken (env ?v) [] []" using fresh_on_wire(2) [OF S] e1 ok by simp
  note hs = server_handshake_stuck [OF S Q v2 wired]
  show ?thesis
  proof (cases r2)
    case (Inl err)
    then have "w' = v2" using run v1 u e1 ok v2 by (simp add: server_main_def)
    then show ?thesis using hs ok2 stuck by simp
  next
    case (Inr fp)
    then have ok3: "\<not> te_stuck (env v2)" using hs ok2 by auto
    obtain f g where wired2: "on_wire wrote taken (env v2) [f] [g]"
      by (rule server_on_wire [OF S Q P v2 [unfolded Inr] wired])
    obtain y e2 where e2: "tc_recv ?T (env v2) = (y, e2)" by fastforce
    show ?thesis
    proof (cases y)
      case None
      then have "w' = v2\<lparr>env := e2\<rparr>" using run v1 u e1 ok v2 Inr e2 by (simp add: server_main_def)
      with recv_stuck [OF e2 ok3] stuck wired2 show ?thesis by (auto simp: on_wire_def)
    next
      case (Some frame)
      then have ok4: "\<not> te_stuck e2" using recv_stuck [OF e2 ok3] by auto
      obtain r3 v3 where v3: "parseAndDecryptMessage L frame (v2\<lparr>env := e2\<rparr>) = (r3, v3)" by fastforce
      have "wire (env v3) = wire e2" using parse_quiet [OF Q, of frame "v2\<lparr>env := e2\<rparr>"] v3 by simp
      then have "\<not> te_stuck (env v3)" using ok4 same by blast
      moreover have "w' = v3 \<or> w' = v3\<lparr>env := tc_close ?T (env v3)\<rparr>"
        using run v1 u e1 ok v2 Inr e2 Some v3 by (cases r3) (simp_all add: server_main_def)
      ultimately show ?thesis using stuck close_stuck [of A "env v3"] by auto
    qed
  qed
qed

text \<open>C16: the two programs never wait for each other: once every byte that one of them wrote has arrived at the other, not both
  are waiting in \<open>recv\<close>, whatever failed before on either side and whatever the users typed.\<close>

theorem demo_no_deadlock:
  assumes "libs_quiet wire L" and "files_quiet wire L" and "proto_contract (lb_proto L)"
    and "stream_contract A wrote taken" and "arrival_contract A taken arrived"
    and "stream_contract A' wrote' taken'" and "arrival_contract A' taken' arrived'"
    and "\<not> te_stuck (env w)" and "\<not> te_stuck (env v)"
    and "client_main L (tcp_transport A) stdin w = (x, w')" and "server_main L (tcp_transport A') stdin' v = (x', v')"
    and "arrived (te_sock (env w')) = wrote' (te_sock (env v'))" and "arrived' (te_sock (env v')) = wrote (te_sock (env w'))"
  shows "\<not> (te_stuck (env w') \<and> te_stuck (env v'))"
proof
  assume stuck: "te_stuck (env w') \<and> te_stuck (env v')"
  obtain f where c: "fst (tcp_recv A (te_sock (env w'))) = Blocked" "on_wire wrote taken (env w') [f] []"
    using client_stuck [OF assms(4,1,2,10,8)] stuck by blast
  from server_stuck [OF assms(6,1,2,3,11,9)] stuck
  consider "fst (tcp_recv A' (te_sock (env v'))) = Blocked" "on_wire wrote' taken' (env v') [] []"
    | g h where "on_wire wrote' taken' (env v') [g] [h]" by blast
  then show False
  proof cases
    case 1
    with recv_returns [OF assms(6,7), of "te_sock (env v')" f] c(2) assms(13) show False by (simp add: on_wire_def)
  next
    case 2
    with recv_returns [OF assms(4,5), of "te_sock (env w')" g] c assms(12) show False by (simp add: on_wire_def)
  qed
qed

text \<open>C15: the two programs over TCP, down to the bytes. Nothing is assumed of the connection but that what either process reads
  is a beginning of what the other one wrote. When both return 0, the server has printed the line that was typed
  into the client, or its greeting when that was empty, and no byte was left unread in either direction.\<close>

theorem demo_over_tcp:
  assumes "kem_contract (lb_kem L)" and "hkdf_contract (lb_hkdf L) vh H" and "gcm_contract (lb_cipher L) view G"
    and "proto_contract (lb_proto L)" and "libs_quiet wire L"
    and "stream_contract A wrote taken" and "stream_contract A' wrote' taken'"
    and "client_main L (tcp_transport A) stdin w = (Exit 0 m, w')"
    and "server_main L (tcp_transport A') stdin' v = (Exit 0 m', v')"
    and "prefix (taken' (te_sock (env v'))) (wrote (te_sock (env w')))"
    and "prefix (taken (te_sock (env w'))) (wrote' (te_sock (env v')))"
    and "length (getline stdin 1) < 2 ^ 31"
  shows "m' = ''[server] Decrypted: '' @ client_input stdin \<and>
    taken' (te_sock (env v')) = wrote (te_sock (env w')) \<and> taken (te_sock (env w')) = wrote' (te_sock (env v'))"
proof -
  obtain before hello response frame where
    c: "te_log (env w') = before @ [Sent hello, Received response, Sent frame]"
      "on_wire wrote taken (env w') [hello, frame] [response]" "list_all (\<lambda>f. length f < 2 ^ 32) [hello, frame]"
    by (rule client_main_on_wire [OF assms(6,5,4,3,12,8)])
  obtain before' hello' response' frame' where
    s: "te_log (env v') = before' @ [Received hello', Sent response', Received frame']"
      "on_wire wrote' taken' (env v') [response'] [hello', frame']" "list_all (\<lambda>f. length f < 2 ^ 32) [response']"
    by (rule server_main_on_wire [OF assms(7,5,4,9)])
  have "prefix (concat (map tcp_encode [hello', frame'])) (concat (map tcp_encode [hello, frame]))"
    "prefix (concat (map tcp_encode [response])) (concat (map tcp_encode [response']))"
    using assms(10,11) c(2) s(2) unfolding on_wire_def by simp_all
  then have "prefix [hello', frame'] [hello, frame]" "prefix [response] [response']"
    using c(2,3) s(2,3) unfolding on_wire_def by (blast intro: stream_prefix)+
  then have eq: "hello' = hello" "frame' = frame" "response' = response" by simp_all
  have "m' = ''[server] Decrypted: '' @ client_input stdin"
    by (rule demo_delivers_input [OF assms(1-4) wire_quiet [OF assms(5)] wire_quiet [OF assms(5)] tcp_transport_contract
          tcp_transport_close tcp_transport_contract tcp_transport_close assms(8,9) c(1) s(1) [unfolded eq] assms(12)])
  with c(2) s(2) eq show ?thesis by (simp add: on_wire_def)
qed

end
