(* ===== verification/Demo_Witnesses.thy ===== *)
theory Demo_Witnesses
  imports Loop_Witnesses Tcp_Demo
begin

text \<open>\<^verbatim>\<open>client.cpp\<close> and \<^verbatim>\<open>server.cpp\<close> on the concrete libraries of Reference-Lib, over a socket with prepared input.\<close>

record sock =
  sk_in :: bytes
  sk_wrote :: bytes
  sk_taken :: bytes

definition d_asio :: "(sock, unit) asio" where
  "d_asio = \<lparr>asio_resolve = (\<lambda>_ _ s. (Some (), s)),
     asio_connect = (\<lambda>_ s. (True, s\<lparr>sk_wrote := [], sk_taken := []\<rparr>)), asio_listen = (\<lambda>_ s. (True, s)),
     asio_accept = (\<lambda>s. (True, s\<lparr>sk_wrote := [], sk_taken := []\<rparr>)),
     asio_write = (\<lambda>b s. (True, s\<lparr>sk_wrote := sk_wrote s @ b\<rparr>)),
     asio_read = (\<lambda>n s. if length (sk_in s) < n then (Blocked, s)
       else (Ret (Some (take n (sk_in s))), s\<lparr>sk_in := drop n (sk_in s), sk_taken := sk_taken s @ take n (sk_in s)\<rparr>)),
     asio_shutdown = id, asio_close = id\<rparr>"

lemma d_stream: "stream_contract d_asio sk_wrote sk_taken"
  by (auto simp: stream_contract_def d_asio_def split: if_splits)

lemma d_arrival: "arrival_contract d_asio sk_taken (\<lambda>s. sk_taken s @ sk_in s)"
  by (auto simp: arrival_contract_def d_asio_def split: if_splits)

lemma d_send: "tcp_send d_asio f s = (True, s\<lparr>sk_wrote := sk_wrote s @ tcp_encode f\<rparr>)"
  by (cases s) (simp add: tcp_send_def d_asio_def tcp_encode_def Let_def)

lemma d_recv:
  assumes "sk_in s = tcp_encode f @ r" and "length f < 2 ^ 32"
  shows "tcp_recv d_asio s = (Ret (Some f), s\<lparr>sk_in := r, sk_taken := sk_taken s @ tcp_encode f\<rparr>)"
proof (cases "f = []")
  case True
  then show ?thesis using assms by (cases s) (simp add: tcp_recv_def d_asio_def tcp_encode_def Let_def c_uint32_def)
next
  case False
  then have "c_uint32 (length f) \<noteq> 0" "unat (c_uint32 (length f)) = length f"
    using assms(2) by (auto simp: word_unat_eq_iff)
  then show ?thesis using assms(1) by (cases s) (simp add: tcp_recv_def d_asio_def tcp_encode_def Let_def)
qed

definition d_tcp :: "(sock, unit) tcp_env tcp_obj" where "d_tcp = tcp_transport d_asio"

definition d_env :: "bytes \<Rightarrow> bytes \<Rightarrow> bytes \<Rightarrow> event list \<Rightarrow> (sock, unit) tcp_env" where
  "d_env inp wr tk log = \<lparr>te_sock = \<lparr>sk_in = inp, sk_wrote = wr, sk_taken = tk\<rparr>, te_stuck = False, te_log = log, te_outside = ()\<rparr>"

lemma d_calls:
  "tc_connect d_tcp host port (d_env inp [] [] log) = (True, d_env inp [] [] log)"
  "tc_listen_and_accept d_tcp port (d_env inp [] [] log) = (True, d_env inp [] [] log)"
  "tc_send d_tcp f (d_env inp wr tk log) = (True, d_env inp (wr @ tcp_encode f) tk (log @ [Sent f]))"
  "length f < 2 ^ 32 \<Longrightarrow> tc_recv d_tcp (d_env (tcp_encode f @ inp) wr tk log) =
     (Some f, d_env inp wr (tk @ tcp_encode f) (log @ [Received f]))"
  "tc_recv d_tcp (d_env [] wr tk log) = (None, (d_env [] wr tk log)\<lparr>te_stuck := True\<rparr>)"
  "tc_close d_tcp e = e"
  by (simp_all add: d_tcp_def tcp_transport_def on_socket_def d_env_def d_send d_recv)
     (simp_all add: d_asio_def tcp_connect_def tcp_listen_and_accept_def tcp_close_def tcp_recv_def)

lemma d_callbacks:
  "env w = d_env inp wr tk log \<Longrightarrow> callback_io (tcp_send_fn d_tcp f) w =
     (Inr True, w\<lparr>env := d_env inp (wr @ tcp_encode f) tk (log @ [Sent f])\<rparr>)"
  "env w = d_env (tcp_encode f @ inp) wr tk log \<Longrightarrow> length f < 2 ^ 32 \<Longrightarrow> callback_io (tcp_recv_fn d_tcp) w =
     (Inr (Some f), w\<lparr>env := d_env inp wr (tk @ tcp_encode f) (log @ [Received f])\<rparr>)"
  by (simp_all add: callback_io_def io_run tcp_send_fn_def tcp_recv_fn_def d_calls)

lemma b_lengths: "length b_hello < 2 ^ 32" "length b_response < 2 ^ 32"
  using t_proto_contract b_ser unfolding proto_contract_def by fastforce+

lemmas d_got = d_callbacks(2) [where inp = "[]" and f = b_response, OF _ b_lengths(2), simplified]
  d_callbacks(2) [where f = b_hello, OF _ b_lengths(1)]

definition d_session :: "'e \<Rightarrow> 'e engine_world" where
  "d_session e = (l_engine e)\<lparr>session_key := t_key, session_ready := True\<rparr>"

lemma d_client_run:
  "runClientHandshake b_libs (tcp_send_fn d_tcp) (tcp_recv_fn d_tcp) (l_engine (d_env (tcp_encode b_response) [] [] [])) =
     (Inr (t_fp (t_id 43)), d_session (d_env [] (tcp_encode b_hello) (tcp_encode b_response) [Sent b_hello, Received b_response]))"
  using b_parse(2) b_ser(1) t_sig_valid [of 42]
  by (simp add: runClientHandshake_def clientHandshakeInternal_def with_kyber_def l_engine_def d_session_def d_callbacks(1) d_got
      io_run report_def require_io_def is_loaded_def kyber_destroy_def t_key_def b_response_msg_def b_hello_msg_def)

lemma d_server_run:
  "runServerHandshake b_libs (tcp_send_fn d_tcp) (tcp_recv_fn d_tcp) (l_engine (d_env (tcp_encode b_hello @ r) [] [] [])) =
     (Inr (t_fp (t_id 43)), d_session (d_env r (tcp_encode b_response) (tcp_encode b_hello) [Received b_hello, Sent b_response]))"
  using b_parse(1) b_ser(2) t_sig_valid [of 42]
  by (simp add: runServerHandshake_def serverHandshakeInternal_def server_reply_def with_kyber_def l_engine_def d_session_def
      d_callbacks(1) d_got io_run report_def require_io_def is_loaded_def kyber_destroy_def t_key_def b_response_msg_def
      b_hello_msg_def)

lemma d_identity: "loadOrCreateIdentity b_libs path ''pw'' (l_blank e) = (Inr (t_fp (t_id 43), True), l_engine e)"
  by (simp add: b_identity l_blank_def l_engine_def)

lemma d_env_of: "env (l_engine e) = e" "(l_engine e)\<lparr>env := e'\<rparr> = l_engine e'" "env (d_session e) = e"
  "(d_session e)\<lparr>env := e'\<rparr> = d_session e'" "session_ready (d_session e)" "session_key (d_session e) = t_key"
  by (simp_all add: l_engine_def d_session_def)

text \<open>The message, over any socket.\<close>

lemma d_frame:
  fixes e :: 'e
  obtains frame where "encryptAndSerializeMessage b_libs ''hello'' ''alice'' ''bob'' (d_session e) = (Inr frame, d_session e)"
    and "length frame < 2 ^ 32"
proof -
  obtain frame where f: "encryptAndSerializeMessage b_libs ''hello'' ''alice'' ''bob'' (d_session e) = (Inr frame, d_session e)"
    by (rule b_encrypt [where w = "d_session e" and body = "''hello''" and sid = "''alice''" and uid = "''bob''"])
       (simp_all add: d_env_of)
  have "gcm_contract (lb_cipher (b_libs :: ('e, tobj) libs)) t_gview t_gcm" "length ''hello'' < 2 ^ 31"
    by (simp_all add: t_gcm_contract)
  from this f obtain nonce c inner now now' where "ser_envelope (lb_proto (b_libs :: ('e, tobj) libs)) \<lparr>ev_version = kVersion, ev_to_username = ''bob'',
      ev_sender_pubkey = [], ev_payload_e2e = inner, ev_client_timestamp = now'\<rparr> = Some frame"
    by (rule encrypt_Inr)
  then have "length frame < 2 ^ 32" using t_proto_contract unfolding proto_contract_def by (fastforce simp: ascii_def)
  with f that show ?thesis by blast
qed

lemma d_client:
  assumes "encryptAndSerializeMessage b_libs ''hello'' ''alice'' ''bob''
      (d_session (d_env [] (tcp_encode b_hello) (tcp_encode b_response) [Sent b_hello, Received b_response])) =
    (Inr frame, d_session (d_env [] (tcp_encode b_hello) (tcp_encode b_response) [Sent b_hello, Received b_response]))"
  shows "client_main b_libs d_tcp [''pw'', ''hello''] (l_blank (d_env (tcp_encode b_response) [] [] [])) =
    (Exit 0 '''', d_session (d_env [] (tcp_encode b_hello @ tcp_encode frame) (tcp_encode b_response)
      [Sent b_hello, Received b_response, Sent frame]))"
  using assms by (simp add: client_main_def getline_def client_input_def d_identity d_calls d_env_of d_client_run)

lemma d_server:
  fixes e0 :: "(sock, unit) tcp_env"
  assumes "encryptAndSerializeMessage b_libs ''hello'' ''alice'' ''bob'' (d_session e0) = (Inr frame, d_session e0)"
    and "length frame < 2 ^ 32"
  shows "\<exists>e. server_main b_libs d_tcp [''pw''] (l_blank (d_env (tcp_encode b_hello @ tcp_encode frame) [] [] [])) =
      (Exit 0 (''[server] Decrypted: '' @ ''hello''), d_session e) \<and>
    te_sock e = \<lparr>sk_in = [], sk_wrote = tcp_encode b_response, sk_taken = tcp_encode b_hello @ tcp_encode frame\<rparr>"
proof -
  let ?e = "d_env [] (tcp_encode b_response) (tcp_encode b_hello @ tcp_encode frame)
    [Received b_hello, Sent b_response, Received frame]"
  obtain e where e: "parseAndDecryptMessage b_libs frame (d_session ?e) = (Inr ''hello'', (d_session ?e)\<lparr>env := e\<rparr>)"
    using b_decrypt [OF assms(1), of "d_session ?e"] by (auto simp: d_env_of ascii_def)
  have "wire e = wire ?e" using parse_quiet [OF b_libs_still, of wire frame "d_session ?e"] e by (simp add: d_env_of)
  moreover have "server_main b_libs d_tcp [''pw''] (l_blank (d_env (tcp_encode b_hello @ tcp_encode frame) [] [] [])) =
      (Exit 0 (''[server] Decrypted: '' @ ''hello''), d_session e)"
    using e d_calls(4) [OF assms(2), of "[]"]
    by (simp add: server_main_def getline_def d_identity d_calls d_env_of d_server_run)
  ultimately show ?thesis by (intro exI [of _ e]) (simp add: wire_def d_env_def)
qed

lemma demo_over_tcp_witness:
  "\<exists>frame. fst (server_main b_libs (tcp_transport d_asio) [''pw'']
      (l_blank (d_env (tcp_encode b_hello @ tcp_encode frame) [] [] []))) =
    Exit 0 (''[server] Decrypted: '' @ client_input [''pw'', ''hello''])"
proof -
  obtain frame where f: "encryptAndSerializeMessage b_libs ''hello'' ''alice'' ''bob''
      (d_session (d_env [] (tcp_encode b_hello) (tcp_encode b_response) [Sent b_hello, Received b_response])) =
    (Inr frame, d_session (d_env [] (tcp_encode b_hello) (tcp_encode b_response) [Sent b_hello, Received b_response]))"
    "length frame < 2 ^ 32"
    by (rule d_frame)
  obtain e where s: "server_main b_libs d_tcp [''pw''] (l_blank (d_env (tcp_encode b_hello @ tcp_encode frame) [] [] [])) =
      (Exit 0 (''[server] Decrypted: '' @ ''hello''), d_session e)"
    "te_sock e = \<lparr>sk_in = [], sk_wrote = tcp_encode b_response, sk_taken = tcp_encode b_hello @ tcp_encode frame\<rparr>"
    using d_server [OF f] by blast
  have "''[server] Decrypted: '' @ ''hello'' = ''[server] Decrypted: '' @ client_input [''pw'', ''hello'']"
    by (rule demo_over_tcp [where vh = t_hview and H = t_H and view = t_gview and G = t_gcm, OF _ _ _ _ b_libs_still d_stream d_stream d_client [OF f(1), unfolded d_tcp_def]
          s(1) [unfolded d_tcp_def], THEN conjunct1])
       (simp_all add: t_contracts t_gcm_contract s(2) d_env_of d_env_def getline_def)
  with s(1) show ?thesis by (intro exI [of _ frame]) (simp add: d_tcp_def)
qed

text \<open>A client that cannot connect, and a server that waits for it.\<close>

definition d_offline :: "(sock, unit) asio" where "d_offline = d_asio\<lparr>asio_connect := (\<lambda>_ s. (False, s))\<rparr>"

lemma demo_no_deadlock_witness:
  "\<not> te_stuck (env (snd (client_main b_libs (tcp_transport d_offline) [''pw''] (l_blank (d_env [] [] [] []))))) \<and>
   te_stuck (env (snd (server_main b_libs (tcp_transport d_asio) [''pw''] (l_blank (d_env [] [] [] [])))))"
proof -
  let ?w = "l_blank (d_env [] [] [] [])"
  have contracts: "stream_contract d_offline sk_wrote sk_taken" "arrival_contract d_offline sk_taken (\<lambda>s. sk_taken s @ sk_in s)"
    using d_stream d_arrival by (simp_all add: d_offline_def stream_contract_def arrival_contract_def)
  have c: "client_main b_libs (tcp_transport d_offline) [''pw''] ?w = (Exit 1 ''[client] Connect failed'', l_engine (d_env [] [] [] []))"
    by (simp add: client_main_def getline_def d_identity d_env_of)
       (simp add: tcp_transport_def on_socket_def tcp_connect_def d_offline_def d_asio_def d_env_of)
  have hs: "runServerHandshake b_libs (tcp_send_fn d_tcp) (tcp_recv_fn d_tcp) (l_engine (d_env [] [] [] [])) =
      (Inl ''Failed to receive HandshakeHello'', l_engine ((d_env [] [] [] [])\<lparr>te_stuck := True\<rparr>))"
    by (simp add: runServerHandshake_def serverHandshakeInternal_def l_engine_def callback_io_def io_run report_def
        require_io_def is_loaded_def tcp_recv_fn_def d_calls)
  have s: "server_main b_libs (tcp_transport d_asio) [''pw''] ?w =
      (Exit 1 (''[server] Handshake failed: '' @ ''Failed to receive HandshakeHello''), l_engine ((d_env [] [] [] [])\<lparr>te_stuck := True\<rparr>))"
    unfolding d_tcp_def [symmetric] by (simp add: server_main_def getline_def d_identity d_env_of d_calls hs)
  have "files_quiet wire b_libs"
    by (simp add: files_quiet_def b_libs_def blank_fs_def t_pkey_def)
  from demo_no_deadlock [OF b_libs_still this _ contracts d_stream d_arrival _ _ c s]
  show ?thesis using c s by (simp add: t_proto_contract d_env_of d_env_def l_blank_def)
qed

end
