(* ===== verification/Gui.thy ===== *)
theory Gui
  imports Window_Props
begin

text \<open>
  The GUI as a whole, as \<^verbatim>\<open>gui/main.cpp\<close> starts it: the window in the thread of the event loop, the worker in its own
  thread with the slots that are posted to it, and what happens when the window is closed and both are destroyed.
\<close>

section \<open>The program\<close>

text \<open>
  \<open>Open\<close>: \<open>app.exec()\<close>. \<open>Closing\<close>: the destructor of the window is in \<open>workerThread_->wait()\<close>. \<open>Deleting\<close>: the event
  loop of the worker thread has returned and its deferred delete runs \<open>~EngineWorker\<close>, which is in the join of
  \<open>disconnectFromPeer\<close>. \<open>Gone\<close>: the thread has finished and \<open>wait()\<close> returned.
\<close>

datatype gui_at = Open | Closing | Deleting | Gone

text \<open>\<open>gu_posted\<close> are the calls posted to the worker's thread, \<open>gu_shown\<close> the number of signals that the window has
  handled.\<close>

record 'e gui =
  gu_window :: window
  gu_worker :: "'e worker"
  gu_posted :: "slot list"
  gu_shown :: nat
  gu_at :: gui_at

definition gui_init :: "(string \<Rightarrow> string) \<Rightarrow> string \<Rightarrow> 'e engine_world \<Rightarrow> 'e gui" where
  "gui_init H ts g = \<lparr>gu_window = window_new H ts, gu_worker = worker_init g, gu_posted = [], gu_shown = 0, gu_at = Open\<rparr>"

text \<open>\<open>~EngineWorker\<close>: the call of \<open>disconnectFromPeer\<close> up to its join; then the rest of it and the members, of
  which \<open>ws_\<close> closes its socket.\<close>

definition worker_delete :: "'e tcp_obj \<Rightarrow> 'e ws_obj \<Rightarrow> 'e worker \<Rightarrow> 'e worker" where
  "worker_delete T W w = (disconnect_begin T W w)\<lparr>wk_at := Joining None\<rparr>"

definition worker_free :: "'e ws_obj \<Rightarrow> 'e worker \<Rightarrow> 'e worker" where
  "worker_free W w =
     (let w = (disconnect_end w)\<lparr>wk_at := Ready\<rparr> in
      if wk_rx w \<noteq> NoThread then w\<lparr>wk_aborted := True\<rparr>
      else if wk_ws w then reset_ws W w else w)"

fun user_event :: "win_event \<Rightarrow> bool" where
  "user_event (FromWorker s) = False"
| "user_event _ = True"

datatype gui_act = User string win_event | Show string | Take slot | Thread worker_act | CloseWindow | LeaveLoop | Deleted

text \<open>
  A request signal posts the slot it is connected to; the worker's thread takes the posted slots one by one while it is in
  its event loop. After \<open>quit()\<close> that loop may return before all of them were taken, but not in the middle of one.
\<close>

inductive gui_step ::
  "('e, 'h) libs \<Rightarrow> 'u qt \<Rightarrow> 'e tcp_obj \<Rightarrow> 'e ws_obj \<Rightarrow> (string \<Rightarrow> string) \<Rightarrow> 'e gui \<Rightarrow> gui_act \<Rightarrow> 'e gui \<Rightarrow> bool"
  for L :: "('e, 'h) libs" and Q :: "'u qt" and T :: "'e tcp_obj" and W :: "'e ws_obj" and H :: "string \<Rightarrow> string" where
  user: "\<not> wk_aborted (gu_worker g) \<Longrightarrow> gu_at g = Open \<Longrightarrow> user_event e \<Longrightarrow> v = on_event H Q (ts, e) (gu_window g) \<Longrightarrow>
    gui_step L Q T W H g (User ts e) (g\<lparr>gu_window := v,
      gu_posted := gu_posted g @ drop (length (wi_requests (gu_window g))) (wi_requests v)\<rparr>)"
| display: "\<not> wk_aborted (gu_worker g) \<Longrightarrow> gu_at g = Open \<Longrightarrow> gu_shown g < length (wk_signals (gu_worker g)) \<Longrightarrow>
    gui_step L Q T W H g (Show ts) (g\<lparr>gu_window := on_signal H ts (wk_signals (gu_worker g) ! gu_shown g) (gu_window g),
      gu_shown := gu_shown g + 1\<rparr>)"
| take_slot: "gu_at g \<in> {Open, Closing} \<Longrightarrow> gu_posted g = s # ss \<Longrightarrow> worker_step L Q T W (gu_worker g) (RunSlot s) v \<Longrightarrow>
    gui_step L Q T W H g (Take s) (g\<lparr>gu_worker := v, gu_posted := ss\<rparr>)"
| thread: "a \<in> {RxIteration, RxLeave} \<and> gu_at g \<noteq> Gone \<or> a = JoinDone \<and> gu_at g \<in> {Open, Closing} \<Longrightarrow>
    worker_step L Q T W (gu_worker g) a v \<Longrightarrow> gui_step L Q T W H g (Thread a) (g\<lparr>gu_worker := v\<rparr>)"
| close_window: "\<not> wk_aborted (gu_worker g) \<Longrightarrow> gu_at g = Open \<Longrightarrow>
    gui_step L Q T W H g CloseWindow (g\<lparr>gu_window := onDisconnect (gu_window g),
      gu_posted := gu_posted g @ [DisconnectFromPeer], gu_at := Closing\<rparr>)"
| leave_loop: "\<not> wk_aborted (gu_worker g) \<Longrightarrow> gu_at g = Closing \<Longrightarrow> wk_at (gu_worker g) = Ready \<Longrightarrow>
    gui_step L Q T W H g LeaveLoop (g\<lparr>gu_worker := worker_delete T W (gu_worker g), gu_posted := [], gu_at := Deleting\<rparr>)"
| deleted: "\<not> wk_aborted (gu_worker g) \<Longrightarrow> gu_at g = Deleting \<Longrightarrow> wk_rx (gu_worker g) \<in> {NoThread, RxFinished} \<Longrightarrow>
    gui_step L Q T W H g Deleted (g\<lparr>gu_worker := worker_free W (gu_worker g), gu_at := Gone\<rparr>)"

inductive_cases gui_stepE: "gui_step L Q T W H g a g'"

section \<open>What the worker's steps add to its signals\<close>

lemma quiet_extends: "quiet_part w w' \<Longrightarrow> \<exists>s. wk_signals w' = wk_signals w @ s"
  by (auto simp: quiet_part_def)

lemma established_extends: "\<exists>s. wk_signals (established m msg peer w) = wk_signals w @ s"
  by (auto simp: established_def emit_def Let_def)


lemma start_extends: "\<exists>s'. wk_signals (start_body L Q T W s w) = wk_signals w @ s'"
  using start_body_outcome [of w L Q T W s] unfolding start_outcome_def
  using quiet_extends established_extends by (metis append_assoc)

lemma disconnect_end_extends: "\<exists>s. wk_signals (disconnect_end w) = wk_signals w @ s"
  by (simp add: disconnect_end_def emit_def Let_def)

lemma worker_free_extends: "\<exists>s. wk_signals (worker_free W w) = wk_signals w @ s"
  using disconnect_end_extends [of w] by (simp add: worker_free_def reset_ws_def set_net_def Let_def)

lemma send_message_extends: "\<exists>s. wk_signals (send_message L T W body w) = wk_signals w @ s"
  using send_message_parts [of L T W body w] by auto

lemma run_slot_extends: "\<exists>s'. wk_signals (run_slot L Q T W s w) = wk_signals w @ s'"
proof (cases "(\<exists>x. s = SendMessage x) \<or> s = DisconnectFromPeer")
  case True
  then show ?thesis by (auto simp: disconnect_begin_parts send_message_extends)
next
  case False
  then show ?thesis
    using run_slot_start [of s L Q T W w] start_extends [of L Q T W s w]
    by (auto simp: disconnect_begin_parts emit_def)
qed

lemma recv_iteration_extends: "\<exists>s. wk_signals (recv_iteration L T W w) = wk_signals w @ s"
  by (auto simp: recv_iteration_def emit_def set_net_def set_engine_def Let_def split: prod.splits option.splits sum.splits)

lemma worker_step_extends:
  assumes "worker_step L Q T W w a w'"
  shows "\<exists>s. wk_signals w' = wk_signals w @ s"
  using assms
proof (rule worker_stepE)
  fix s assume "w' = start_body L Q T W s ((disconnect_end w)\<lparr>wk_at := Ready\<rparr>)"
  moreover obtain s' where "wk_signals ((disconnect_end w)\<lparr>wk_at := Ready\<rparr>) = wk_signals w @ s'"
    using disconnect_end_extends [of w] by auto
  ultimately show ?thesis using start_extends [of L Q T W s "(disconnect_end w)\<lparr>wk_at := Ready\<rparr>"] by auto
qed (auto simp: run_slot_extends disconnect_end_extends recv_iteration_extends recv_leave_def emit_def)

section \<open>The parts of a run\<close>

text \<open>The steps of the worker in a run of the program.\<close>

fun worker_acts :: "gui_act list \<Rightarrow> worker_act list" where
  "worker_acts [] = []"
| "worker_acts (Take s # acts) = RunSlot s # worker_acts acts"
| "worker_acts (Thread a # acts) = a # worker_acts acts"
| "worker_acts (LeaveLoop # acts) = RunSlot DisconnectFromPeer # worker_acts acts"
| "worker_acts (_ # acts) = worker_acts acts"

lemma worker_acts_append [simp]: "worker_acts (as @ bs) = worker_acts as @ worker_acts bs"
  by (induction as rule: worker_acts.induct) simp_all

text \<open>The window and the worker of a run, and the slots that the worker has taken.\<close>

fun slots_taken :: "gui_act list \<Rightarrow> slot list" where
  "slots_taken [] = []"
| "slots_taken (Take s # acts) = s # slots_taken acts"
| "slots_taken (_ # acts) = slots_taken acts"

lemma slots_taken_append [simp]: "slots_taken (as @ bs) = slots_taken as @ slots_taken bs"
  by (induction as rule: slots_taken.induct) simp_all

definition gui_parts ::
  "('e, 'h) libs \<Rightarrow> 'u qt \<Rightarrow> 'e tcp_obj \<Rightarrow> 'e ws_obj \<Rightarrow> (string \<Rightarrow> string) \<Rightarrow> string \<Rightarrow> 'e engine_world \<Rightarrow> gui_act list \<Rightarrow> 'e gui
    \<Rightarrow> bool" where
  "gui_parts L Q T W H ts e acts g \<longleftrightarrow>
     (gu_at g \<noteq> Gone \<longrightarrow> run (worker_step L Q T W) (worker_init e) (worker_acts acts) (gu_worker g)) \<and>
     (\<exists>evs. gu_window g = window_after H Q ts evs \<and> signals_of evs = take (gu_shown g) (wk_signals (gu_worker g))) \<and>
     gu_shown g \<le> length (wk_signals (gu_worker g)) \<and>
     (gu_at g \<in> {Open, Closing} \<longrightarrow> wi_requests (gu_window g) = slots_taken acts @ gu_posted g) \<and>
     (gu_at g = Deleting \<longrightarrow> wk_at (gu_worker g) = Joining None)"

lemma signals_of_append [simp]: "signals_of (as @ bs) = signals_of as @ signals_of bs"
  by (induction as rule: signals_of.induct) simp_all

lemma signals_of_user: "user_event e \<Longrightarrow> signals_of [(ts, e)] = []"
  by (cases e) simp_all

lemma window_after_snoc: "window_after H Q ts (evs @ [ev]) = on_event H Q ev (window_after H Q ts evs)"
  by (simp add: window_after_def)

lemma user_requests:
  "user_event e \<Longrightarrow> \<exists>r. wi_requests (on_event H Q (ts, e) w) = wi_requests w @ r"
  by (cases e) (auto simp: onConnect_def onHost_def onRelayHost_def onRelayConnect_def relay_dialog_def onDisconnect_def
      onSend_def window_simps Let_def split: option.split)

lemma signal_requests: "wi_requests (on_signal H ts s w) = wi_requests w"
  by (cases s) (simp_all add: onWorkerConnected_def onWorkerDisconnected_def onWorkerMessage_def onWorkerError_def
      onIdentityReady_def window_simps)

lemma gui_parts_init: "gui_parts L Q T W H ts e [] (gui_init H ts e)"
  unfolding gui_parts_def gui_init_def
  by (auto simp: window_after_def window_new_def window_simps intro!: exI [of _ "[]"])

lemma gui_parts_worker:
  assumes P: "gui_parts L Q T W H ts e acts g" and a: "worker_acts [a] = [b]" and "gu_at g \<noteq> Gone"
    and step: "worker_step L Q T W (gu_worker g) b (gu_worker g')" and "gu_window g' = gu_window g" and "gu_shown g' = gu_shown g"
    and "gu_at g' \<in> {Open, Closing} \<longrightarrow> gu_at g \<in> {Open, Closing} \<and> gu_posted g = slots_taken [a] @ gu_posted g'"
    and "gu_at g' = Deleting \<longrightarrow> wk_at (gu_worker g') = Joining None"
  shows "gui_parts L Q T W H ts e (acts @ [a]) g'"
proof -
  obtain s where s: "wk_signals (gu_worker g') = wk_signals (gu_worker g) @ s" using worker_step_extends [OF step] by blast
  have "run (worker_step L Q T W) (worker_init e) (worker_acts (acts @ [a])) (gu_worker g')"
    using P assms(3) step unfolding gui_parts_def worker_acts_append a by (blast intro: run_append)
  with P assms(5-8) s show ?thesis unfolding gui_parts_def by (auto simp del: worker_acts_append)
qed

lemma gui_parts_window:
  assumes P: "gui_parts L Q T W H ts e acts g" and "worker_acts [a] = []" and "slots_taken [a] = []" and "gu_at g = Open"
    and "gu_at g' \<in> {Open, Closing}" and "gu_worker g' = gu_worker g" and ev: "gu_window g' = on_event H Q ev (gu_window g)"
    and "take (gu_shown g') (wk_signals (gu_worker g)) = take (gu_shown g) (wk_signals (gu_worker g)) @ signals_of [ev]"
    and "gu_shown g' \<le> length (wk_signals (gu_worker g))"
    and "wi_requests (gu_window g') = slots_taken acts @ gu_posted g'"
  shows "gui_parts L Q T W H ts e (acts @ [a]) g'"
proof -
  obtain evs where "gu_window g = window_after H Q ts evs" "signals_of evs = take (gu_shown g) (wk_signals (gu_worker g))"
    using P unfolding gui_parts_def by blast
  then have "gu_window g' = window_after H Q ts (evs @ [ev]) \<and>
      signals_of (evs @ [ev]) = take (gu_shown g') (wk_signals (gu_worker g'))"
    using ev assms(6,8) by (simp only: window_after_snoc signals_of_append)
  with P assms(2-6,9,10) show ?thesis unfolding gui_parts_def by auto
qed

lemma gui_parts_step:
  assumes P: "gui_parts L Q T W H ts e acts g" and step: "gui_step L Q T W H g a g'"
  shows "gui_parts L Q T W H ts e (acts @ [a]) g'"
  using step
proof (cases rule: gui_step.cases)
  case (user ev v ts')
  obtain r where "wi_requests v = wi_requests (gu_window g) @ r" using user_requests [OF user(5)] user(6) by blast
  with P user(4) have "wi_requests v = slots_taken acts @ gu_posted g'" by (simp add: gui_parts_def user(2))
  with P user show ?thesis
    by (intro gui_parts_window [OF P, where ev = "(ts', ev)"]) (simp_all add: signals_of_user gui_parts_def)
next
  case (display ts')
  with P show ?thesis
    by (intro gui_parts_window [OF P, where ev = "(ts', FromWorker (wk_signals (gu_worker g) ! gu_shown g))"])
       (simp_all add: take_Suc_conv_app_nth gui_parts_def signal_requests)
next
  case close_window
  with P show ?thesis
    by (intro gui_parts_window [OF P, where ev = "([], ClickDisconnect)"])
       (simp_all add: gui_parts_def onDisconnect_def request_def)
next
  case (take_slot s ss v)
  then show ?thesis by (intro gui_parts_worker [OF P, where b = "RunSlot s"]) auto
next
  case (thread b v)
  have "wk_at v = wk_at (gu_worker g)" if "b \<noteq> JoinDone" "gu_at g = Deleting"
    using thread(4) that thread(3)
    by (auto elim!: worker_stepE simp: recv_iteration_def recv_leave_def emit_def set_net_def set_engine_def Let_def
        split: prod.splits option.splits sum.splits)
  with thread P show ?thesis by (intro gui_parts_worker [OF P, where b = b]) (auto simp: gui_parts_def)
next
  case leave_loop
  have "worker_step L Q T W (gu_worker g) (RunSlot DisconnectFromPeer) (worker_delete T W (gu_worker g))"
    using worker_step.slot [OF leave_loop(3,5), of L Q T W DisconnectFromPeer] by (simp add: worker_delete_def)
  with leave_loop show ?thesis
    by (intro gui_parts_worker [OF P, where b = "RunSlot DisconnectFromPeer"]) (auto simp: worker_delete_def)
next
  case deleted
  obtain s where "wk_signals (worker_free W (gu_worker g)) = wk_signals (gu_worker g) @ s"
    using worker_free_extends by blast
  with P deleted show ?thesis by (auto simp: gui_parts_def)
qed

lemma gui_run_parts:
  assumes "run (gui_step L Q T W H) (gui_init H ts e) acts g"
  shows "gui_parts L Q T W H ts e acts g"
proof -
  have "gui_parts L Q T W H ts e (as @ acts) g'" if "run (gui_step L Q T W H) g0 acts g'" "gui_parts L Q T W H ts e as g0" for as g0 g'
    using that
  proof (induction arbitrary: as rule: run.induct)
    case (run_Cons s a s1 acts s')
    from run_Cons.IH [OF gui_parts_step [OF run_Cons.prems run_Cons.hyps(1)]] show ?case by simp
  qed simp
  from this [OF assms gui_parts_init] show ?thesis by simp
qed

section \<open>What the user sees of it\<close>

text \<open>The worker takes the slots in the order in which the user asked for them, each once: what the window has requested
  is what the worker has taken and what is still posted to it.\<close>

theorem gui_requests_in_order:
  assumes "run (gui_step L Q T W H) (gui_init H ts e) acts g" and "gu_at g \<in> {Open, Closing}"
  shows "wi_requests (gu_window g) = slots_taken acts @ gu_posted g"
  using gui_run_parts [OF assms(1)] assms(2) by (auto simp: gui_parts_def)

text \<open>C33: as long as the window is open and the process lives, once the window has handled every signal its label says
  connected exactly while the receiving thread runs or still has to report that the session ended.\<close>

theorem gui_label_true:
  assumes "run (gui_step L Q T W H) (gui_init H ts e) acts g" and "gu_at g = Open" and "\<not> wk_aborted (gu_worker g)"
    and "gu_shown g = length (wk_signals (gu_worker g))"
  shows "wi_status (gu_window g) = label (wk_rx (gu_worker g) \<in> {RxRunning, RxEnding})"
proof -
  have P: "gui_parts L Q T W H ts e acts g" by (rule gui_run_parts [OF assms(1)])
  then obtain evs where evs: "gu_window g = window_after H Q ts evs" "signals_of evs = wk_signals (gu_worker g)"
    unfolding gui_parts_def using assms(4) by auto
  have run: "run (worker_step L Q T W) (worker_init e) (worker_acts acts) (gu_worker g)"
    using P assms(2) by (simp add: gui_parts_def)
  have "wk_connected (gu_worker g) = (wk_rx (gu_worker g) = RxRunning)"
    using gui_worker.reach_inv [OF run] assms(3) by (simp add: worker_inv_def)
  with window_label [OF run assms(3), where evs = evs and queued = "[]" and H = H and ts = ts] evs show ?thesis by auto
qed

text \<open>The window can always catch up with the worker.\<close>

lemma gui_show_all:
  assumes "gu_at g = Open" and "\<not> wk_aborted (gu_worker g)" and "gu_shown g + n = length (wk_signals (gu_worker g))"
  shows "run (gui_step L Q T W H) g (replicate n (Show ts)) (g\<lparr>gu_window := fold (on_signal H ts)
    (drop (gu_shown g) (wk_signals (gu_worker g))) (gu_window g), gu_shown := gu_shown g + n\<rparr>)"
  using assms
proof (induction n arbitrary: g)
  case (Suc n)
  let ?s = "wk_signals (gu_worker g) ! gu_shown g"
  let ?g = "g\<lparr>gu_window := on_signal H ts ?s (gu_window g), gu_shown := gu_shown g + 1\<rparr>"
  have "drop (gu_shown g) (wk_signals (gu_worker g)) = ?s # drop (gu_shown g + 1) (wk_signals (gu_worker g))"
    using Suc.prems(3) by (simp add: Cons_nth_drop_Suc)
  moreover have "gui_step L Q T W H g (Show ts) ?g" using Suc.prems by (intro gui_step.display) simp_all
  ultimately show ?case using Suc.IH [of ?g] Suc.prems by auto
qed simp

section \<open>Where the peer's lines come from\<close>

text \<open>The call that the receiving thread is in.\<close>

definition worker_recv :: "'e tcp_obj \<Rightarrow> 'e ws_obj \<Rightarrow> 'e worker \<Rightarrow> bytes option \<times> 'e" where
  "worker_recv T W w = (if wk_mode w = TCP then tc_recv T (net w)
     else if wk_mode w = WS \<and> wk_ws w then wo_recv W (net w) else (None, net w))"

text \<open>\<open>p\<close> is the text that this very frame carries under a valid tag of \<open>key\<close>.\<close>

definition authentic_frame :: "('e, 'h) libs \<Rightarrow> gcm_cipher \<Rightarrow> bytes \<Rightarrow> bytes \<Rightarrow> string \<Rightarrow> bool" where
  "authentic_frame L G key frame p \<longleftrightarrow>
     (\<exists>en m c. parse_envelope (lb_proto L) frame (c_int (length frame)) = Some en \<and>
        parse_chat (lb_proto L) (ev_payload_e2e en) (c_int (length (ev_payload_e2e en))) = Some m \<and>
        length (cm_nonce m) = NONCE_SIZE \<and>
        cm_encrypted_content m = c @ gcm_T G key (cm_nonce m) c \<and>
        p = string_of (gcm_D G key (cm_nonce m) c))"

definition reports :: "('e, 'h) libs \<Rightarrow> 'e tcp_obj \<Rightarrow> 'e ws_obj \<Rightarrow> 'e worker \<Rightarrow> bytes \<Rightarrow> string \<Rightarrow> bool" where
  "reports L T W w f p \<longleftrightarrow>
     (\<exists>e g. worker_recv T W w = (Some f, e) \<and> parseAndDecryptMessage L f ((wk_engine w)\<lparr>env := e\<rparr>) = (Inr p, g))"

lemma plain_no_message: "list_all plain_signal s \<Longrightarrow> MessageReceived p \<notin> set s"
  by (auto simp: list_all_iff)

lemma quiet_messages: "quiet_part w w' \<Longrightarrow> MessageReceived p \<in> set (wk_signals w') \<Longrightarrow> MessageReceived p \<in> set (wk_signals w)"
  by (auto simp: quiet_part_def plain_no_message)

lemma start_messages:
  assumes "MessageReceived p \<in> set (wk_signals (start_body L Q T W s w))"
  shows "MessageReceived p \<in> set (wk_signals w)"
proof -
  have "MessageReceived p \<in> set (wk_signals w1)"
    if "MessageReceived p \<in> set (wk_signals (established m msg peer w1))" for m msg peer w1
    using that by (auto simp: established_def emit_def Let_def split: if_splits)
  then show ?thesis
    using start_body_outcome [of w L Q T W s] assms quiet_messages unfolding start_outcome_def by metis
qed

lemma disconnect_messages:
  "MessageReceived p \<in> set (wk_signals (disconnect_end w)) \<Longrightarrow> MessageReceived p \<in> set (wk_signals w)"
  by (auto simp: disconnect_end_def emit_def Let_def split: if_splits)

lemma run_slot_messages:
  assumes "MessageReceived p \<in> set (wk_signals (run_slot L Q T W s w))"
  shows "MessageReceived p \<in> set (wk_signals w)"
proof (cases "(\<exists>x. s = SendMessage x) \<or> s = DisconnectFromPeer")
  case True
  moreover have "MessageReceived p \<in> set (wk_signals (send_message L T W x w)) \<Longrightarrow> ?thesis" for x
    using send_message_parts [of L T W x w] plain_no_message by auto
  ultimately show ?thesis using assms by (auto simp: disconnect_begin_parts)
next
  case False
  then show ?thesis
    using assms run_slot_start [of s L Q T W w] start_messages
    by (auto simp: disconnect_begin_parts emit_def split: if_splits)
qed

lemma recv_iteration_messages:
  assumes "MessageReceived p \<in> set (wk_signals (recv_iteration L T W w))"
  shows "MessageReceived p \<in> set (wk_signals w) \<or> (\<exists>f. reports L T W w f p)"
proof -
  obtain r e where re: "worker_recv T W w = (r, e)" by fastforce
  show ?thesis
  proof (cases r)
    case None
    with assms re show ?thesis by (simp add: recv_iteration_def worker_recv_def set_net_def)
  next
    case (Some f)
    obtain r2 g where dec: "parseAndDecryptMessage L f ((wk_engine w)\<lparr>env := e\<rparr>) = (r2, g)" by fastforce
    with assms re Some show ?thesis
      by (cases r2) (auto simp: recv_iteration_def worker_recv_def [symmetric] reports_def set_net_def set_engine_def emit_def)
  qed
qed

lemma worker_step_messages:
  assumes "worker_step L Q T W w a w'" and "MessageReceived p \<in> set (wk_signals w')"
  shows "MessageReceived p \<in> set (wk_signals w) \<or>
    a = RxIteration \<and> \<not> wk_aborted w \<and> wk_rx w = RxRunning \<and> (\<exists>f. reports L T W w f p)"
  using assms(1)
proof (cases rule: worker_step.cases)
  case (slot s)
  then show ?thesis using assms(2) run_slot_messages by blast
next
  case (join_some s)
  then show ?thesis
    using assms(2) start_messages [of p L Q T W s "(disconnect_end w)\<lparr>wk_at := Ready\<rparr>"] disconnect_messages [of p w] by simp
next
  case receive
  then show ?thesis using assms(2) recv_iteration_messages by blast
qed (use assms(2) disconnect_messages in \<open>auto simp: recv_leave_def emit_def\<close>)

lemma worker_run_messages:
  assumes "run (worker_step L Q T W) w0 acts w" and "MessageReceived p \<in> set (wk_signals w)"
    and "MessageReceived p \<notin> set (wk_signals w0)"
  shows "\<exists>as bs v f. acts = as @ RxIteration # bs \<and> run (worker_step L Q T W) w0 as v \<and> \<not> wk_aborted v \<and>
    wk_rx v = RxRunning \<and> reports L T W v f p"
  using assms
proof (induction rule: run.induct)
  case (run_Cons w0 a w1 acts w)
  show ?case
  proof (cases "MessageReceived p \<in> set (wk_signals w1)")
    case True
    with worker_step_messages [OF run_Cons.hyps(1), of p] run_Cons.prems(2) obtain f where
      "a = RxIteration" "\<not> wk_aborted w0" "wk_rx w0 = RxRunning" "reports L T W w0 f p" by blast
    then show ?thesis by (intro exI [of _ "[]"] exI [of _ acts] exI [of _ w0] exI [of _ f]) auto
  next
    case False
    with run_Cons obtain as bs v f where "acts = as @ RxIteration # bs" "run (worker_step L Q T W) w1 as v" "\<not> wk_aborted v"
      "wk_rx v = RxRunning" "reports L T W v f p" by blast
    with run_Cons.hyps(1) show ?thesis by (intro exI [of _ "a # as"] exI [of _ bs] exI [of _ v] exI [of _ f]) auto
  qed
qed simp

text \<open>C32: a line that the open window shows as the peer's is the text of a frame that the receiving thread took
  from the network while a session was up, and that frame carries a valid tag under the key of that session.\<close>

theorem gui_peer_lines_authentic:
  assumes "gcm_contract (lb_cipher L) view G" and "proto_contract (lb_proto L)" and "escapes H"
    and "run (gui_step L Q T W H) (gui_init H ts e) acts g" and "gu_at g = Open"
    and "peer_line t x \<in> set (wi_chat (gu_window g))"
  shows "\<exists>as bs v f e' body. worker_acts acts = as @ RxIteration # bs \<and> run (worker_step L Q T W) (worker_init e) as v \<and>
    wk_connected v \<and> session_ready (wk_engine v) \<and> worker_recv T W v = (Some f, e') \<and>
    authentic_frame L G (session_key (wk_engine v)) f body \<and> (\<exists>t'. peer_line t x = peer_line t' (H body))"
proof -
  have P: "gui_parts L Q T W H ts e acts g" by (rule gui_run_parts [OF assms(4)])
  then obtain evs where evs: "gu_window g = window_after H Q ts evs"
    "signals_of evs = take (gu_shown g) (wk_signals (gu_worker g))"
    unfolding gui_parts_def by blast
  have run: "run (worker_step L Q T W) (worker_init e) (worker_acts acts) (gu_worker g)"
    using P assms(5) by (simp add: gui_parts_def)
  have "genuine H evs (gu_window g) (peer_line t x)"
    using window_inv_after [of H evs Q ts] assms(6) evs(1) by (simp add: window_inv_def)
  then obtain t' body where line: "peer_line t x = peer_line t' (H body)" "(t', FromWorker (MessageReceived body)) \<in> set evs"
    unfolding genuine_def using lines_differ by metis
  have "s \<in> set (signals_of evs)" if "(u, FromWorker s) \<in> set evs" for u s evs
    using that by (induction evs rule: signals_of.induct) auto
  then have "MessageReceived body \<in> set (wk_signals (gu_worker g))"
    using line(2) evs(2) by (metis in_set_takeD)
  then obtain as bs v f where v: "worker_acts acts = as @ RxIteration # bs" "run (worker_step L Q T W) (worker_init e) as v"
    "\<not> wk_aborted v" "wk_rx v = RxRunning" "reports L T W v f body"
    using worker_run_messages [OF run, of body] by (auto simp: worker_init_def)
  then obtain e' w where rcv: "worker_recv T W v = (Some f, e')"
    "parseAndDecryptMessage L f ((wk_engine v)\<lparr>env := e'\<rparr>) = (Inr body, w)"
    unfolding reports_def by blast
  have "authentic_frame L G (session_key (wk_engine v)) f body"
    using accepted_message_tag [OF assms(1,2) rcv(2)] by (simp add: authentic_frame_def)
  moreover have "wk_connected v" "session_ready (wk_engine v)"
    using gui_worker.reach_inv [OF v(2)] v(3,4) by (auto simp: worker_inv_def)
  ultimately show ?thesis using v(1,2) rcv(1) line(1) by blast
qed

section \<open>Closing the window\<close>

text \<open>A connection after its \<open>close\<close>: what can still be received is bounded, and decrypting does not touch it.\<close>

definition drains :: "('e, 'h) libs \<Rightarrow> ('e \<Rightarrow> 'e) \<Rightarrow> ('e \<Rightarrow> bytes option \<times> 'e) \<Rightarrow> ('e \<Rightarrow> bool) \<Rightarrow> ('e \<Rightarrow> nat) \<Rightarrow> bool" where
  "drains L close recv closed pending \<longleftrightarrow>
     (\<forall>e. closed (close e)) \<and>
     (\<forall>e. closed e \<longrightarrow> closed (snd (recv e)) \<and> (fst (recv e) \<noteq> None \<longrightarrow> pending (snd (recv e)) < pending e)) \<and>
     libs_quiet (\<lambda>e. (closed e, pending e)) L"

text \<open>What is observed of the connection that the worker uses.\<close>

definition by_mode :: "('e \<Rightarrow> 'b) \<Rightarrow> ('e \<Rightarrow> 'b) \<Rightarrow> 'b \<Rightarrow> 'e worker \<Rightarrow> 'b" where
  "by_mode t s none w = (if wk_mode w = TCP then t (net w) else if wk_mode w = WS \<and> wk_ws w then s (net w) else none)"

text \<open>How many steps \<open>rxThread_\<close> can make before the join returns.\<close>

fun rx_left :: "rx_thread \<Rightarrow> nat \<Rightarrow> nat" where
  "rx_left RxRunning n = n + 2"
| "rx_left RxEnding n = 1"
| "rx_left _ n = 0"

definition deleting :: "('e worker \<Rightarrow> bool) \<Rightarrow> 'e gui \<Rightarrow> bool" where
  "deleting closed g \<longleftrightarrow> (gu_at g = Deleting \<or> gu_at g = Gone \<and> wk_rx (gu_worker g) = NoThread \<and> \<not> wk_connected (gu_worker g)) \<and>
     \<not> wk_aborted (gu_worker g) \<and> (gu_at g = Deleting \<and> wk_rx (gu_worker g) = RxRunning \<longrightarrow> closed (gu_worker g))"

definition steps_left :: "('e worker \<Rightarrow> nat) \<Rightarrow> 'e gui \<Rightarrow> nat" where
  "steps_left pending g = (if gu_at g = Gone then 0 else rx_left (wk_rx (gu_worker g)) (pending (gu_worker g)) + 1)"

lemma drains_frame:
  assumes D: "drains L close recv closed pending" and "closed e0" and "recv e0 = (Some f, e)"
    and dec: "parseAndDecryptMessage L f (v\<lparr>env := e\<rparr>) = (r, g)"
  shows "closed (env g) \<and> pending (env g) < pending e0"
proof -
  have "closed (snd (recv e0)) \<and> (fst (recv e0) \<noteq> None \<longrightarrow> pending (snd (recv e0)) < pending e0)"
    using D assms(2) unfolding drains_def by blast
  then have "closed e" "pending e < pending e0" using assms(3) by simp_all
  with parse_quiet [of "\<lambda>e. (closed e, pending e)" L f "v\<lparr>env := e\<rparr>"] D dec show ?thesis by (simp add: drains_def)
qed

lemma deleting_receive:
  assumes D: "drains L (tc_close T) (tc_recv T) ct pt" "drains L (wo_close W) (wo_recv W) cw pw"
    and "by_mode ct cw True w" and "wk_rx w = RxRunning"
  shows "wk_rx (recv_iteration L T W w) = RxEnding \<or> wk_rx (recv_iteration L T W w) = RxRunning \<and>
    by_mode ct cw True (recv_iteration L T W w) \<and> by_mode pt pw 0 (recv_iteration L T W w) < by_mode pt pw 0 w"
    and "wk_aborted (recv_iteration L T W w) = wk_aborted w"
proof -
  obtain r e where re: "worker_recv T W w = (r, e)" by fastforce
  show "wk_aborted (recv_iteration L T W w) = wk_aborted w"
    by (auto simp: recv_iteration_def emit_def set_net_def set_engine_def Let_def split: prod.splits option.splits sum.splits)
  show "wk_rx (recv_iteration L T W w) = RxEnding \<or> wk_rx (recv_iteration L T W w) = RxRunning \<and>
    by_mode ct cw True (recv_iteration L T W w) \<and> by_mode pt pw 0 (recv_iteration L T W w) < by_mode pt pw 0 w"
  proof (cases r)
    case None
    with re show ?thesis by (simp add: recv_iteration_def worker_recv_def set_net_def)
  next
    case (Some f)
    obtain r2 g where dec: "parseAndDecryptMessage L f ((wk_engine w)\<lparr>env := e\<rparr>) = (r2, g)" by fastforce
    let ?w = "w\<lparr>wk_engine := g\<rparr>"
    have "by_mode ct cw True ?w \<and> by_mode pt pw 0 ?w < by_mode pt pw 0 w"
      using drains_frame [OF D(1) _ _ dec, of "net w"] drains_frame [OF D(2) _ _ dec, of "net w"] assms(3) re Some
      by (simp add: by_mode_def worker_recv_def split: if_splits)
    then show ?thesis
      using re Some dec assms(4)
      by (cases r2) (simp_all add: recv_iteration_def worker_recv_def [symmetric] set_net_def set_engine_def emit_def by_mode_def
          split: if_splits)
  qed
qed

lemma deleting_step:
  assumes D: "drains L (tc_close T) (tc_recv T) ct pt" "drains L (wo_close W) (wo_recv W) cw pw"
    and I: "deleting (by_mode ct cw True) g" and step: "gui_step L Q T W H g a g'"
  shows "deleting (by_mode ct cw True) g' \<and> steps_left (by_mode pt pw 0) g' < steps_left (by_mode pt pw 0) g"
  using step
proof (cases rule: gui_step.cases)
  case (thread b v)
  show ?thesis
    using thread(4)
  proof (cases rule: worker_step.cases)
    case receive
    with thread I deleting_receive [OF D, of "gu_worker g"] show ?thesis
      by (auto simp: deleting_def steps_left_def)
  next
    case leave
    with thread I show ?thesis by (auto simp: deleting_def steps_left_def recv_leave_def emit_def by_mode_def)
  qed (use thread I in \<open>auto simp: deleting_def\<close>)
next
  case deleted
  with I show ?thesis
    by (auto simp: deleting_def steps_left_def worker_free_def disconnect_end_def reset_ws_def set_net_def emit_def Let_def)
qed (use I in \<open>auto simp: deleting_def\<close>)

lemma deleting_run:
  assumes D: "drains L (tc_close T) (tc_recv T) ct pt" "drains L (wo_close W) (wo_recv W) cw pw"
  shows "run (gui_step L Q T W H) g acts g' \<Longrightarrow> deleting (by_mode ct cw True) g \<Longrightarrow>
    deleting (by_mode ct cw True) g' \<and> length acts + steps_left (by_mode pt pw 0) g' \<le> steps_left (by_mode pt pw 0) g"
proof (induction rule: run.induct)
  case (run_Cons g a g1 acts g')
  from deleting_step [OF D run_Cons.prems run_Cons.hyps(1)] run_Cons.IH show ?case by fastforce
qed simp

lemma deleting_progress:
  assumes "deleting closed g" and "gu_at g = Deleting" and "\<not> (wk_rx (gu_worker g) = RxRunning \<and> recv_waits T W (gu_worker g))"
  shows "\<exists>a g'. gui_step L Q T W H g a g'"
proof -
  have alive: "\<not> wk_aborted (gu_worker g)" using assms(1) by (simp add: deleting_def)
  show ?thesis
  proof (cases "wk_rx (gu_worker g)")
    case RxRunning
    then have "\<not> recv_waits T W (gu_worker g)" using assms(3) by simp
    from gui_step.thread [OF _ worker_step.receive [OF alive RxRunning this]] show ?thesis using assms(2) by fastforce
  next
    case RxEnding
    from gui_step.thread [OF _ worker_step.leave [OF alive RxEnding]] show ?thesis using assms(2) by fastforce
  qed (use gui_step.deleted [OF alive assms(2)] in blast)+
qed

lemma waiting_stuck:
  assumes "gu_at g = Deleting" and "wk_at (gu_worker g) \<noteq> Ready" and "wk_rx (gu_worker g) = RxRunning" and "recv_waits T W (gu_worker g)"
  shows "\<not> gui_step L Q T W H g a g'"
  using assms by (auto elim!: gui_stepE worker_stepE)

text \<open>The destruction of a worker whose connection drains.\<close>

lemma shutdown_steps:
  assumes "drains L (tc_close T) (tc_recv T) ct pt" and "drains L (wo_close W) (wo_recv W) cw pw"
    and "run (gui_step L Q T W H) (gui_init H ts e) acts0 g0" and "gui_step L Q T W H g0 LeaveLoop g" and "run (gui_step L Q T W H) g acts g'"
  shows "length acts \<le> by_mode pt pw 0 (gu_worker g) + 3" and "\<not> wk_aborted (gu_worker g')"
    and "(\<nexists>a g2. gui_step L Q T W H g' a g2) = (gu_at g' = Gone \<or> wk_rx (gu_worker g') = RxRunning \<and> recv_waits T W (gu_worker g'))"
    and "deleting (by_mode ct cw True) g'" and "gu_at g = Deleting"
    and "gu_worker g = worker_delete T W (gu_worker g0)"
proof -
  let ?c = "by_mode ct cw True" and ?p = "by_mode pt pw 0"
  have w: "\<not> wk_aborted (gu_worker g0)" "gu_at g0 = Closing"
    "g = g0\<lparr>gu_worker := worker_delete T W (gu_worker g0), gu_posted := [], gu_at := Deleting\<rparr>"
    using assms(4) by (auto elim: gui_stepE)
  then show "gu_at g = Deleting" "gu_worker g = worker_delete T W (gu_worker g0)" by simp_all
  have "run (worker_step L Q T W) (worker_init e) (worker_acts acts0) (gu_worker g0)"
    using gui_run_parts [OF assms(3)] w(2) by (simp add: gui_parts_def)
  from gui_worker.reach_inv [OF this] have "worker_inv (gu_worker g0)" .
  with w assms(1,2) have g: "deleting ?c g"
    by (auto simp: deleting_def worker_delete_def disconnect_begin_parts worker_inv_def)
       (auto simp: disconnect_begin_def drains_def by_mode_def set_net_def Let_def)
  have g': "deleting ?c g'" "length acts + steps_left ?p g' \<le> steps_left ?p g"
    using deleting_run [OF assms(1,2,5) g] by auto
  then show "deleting ?c g'" by simp
  have "rx_left r n \<le> n + 2" for r n by (cases r) simp_all
  moreover have "steps_left ?p g = rx_left (wk_rx (gu_worker g)) (?p (gu_worker g)) + 1"
    using w(3) by (simp add: steps_left_def)
  ultimately have "steps_left ?p g \<le> ?p (gu_worker g) + 2 + 1" by (metis add_le_mono1)
  then show "length acts \<le> ?p (gu_worker g) + 3" using g'(2) by linarith
  show "\<not> wk_aborted (gu_worker g')" using g'(1) by (simp add: deleting_def)
  have joining: "gu_at g' = Deleting \<longrightarrow> wk_at (gu_worker g') = Joining None"
    using gui_run_parts [OF run_append [OF assms(3) run_Cons [OF assms(4,5)]]] by (simp add: gui_parts_def)
  show "(\<nexists>a g2. gui_step L Q T W H g' a g2) = (gu_at g' = Gone \<or> wk_rx (gu_worker g') = RxRunning \<and> recv_waits T W (gu_worker g'))"
  proof (cases "gu_at g' = Gone")
    case True
    then have "steps_left ?p g' = 0" by (simp add: steps_left_def)
    with True deleting_step [OF assms(1,2) g'(1)] show ?thesis by fastforce
  next
    case False
    with g'(1) have at: "gu_at g' = Deleting" by (auto simp: deleting_def)
    show ?thesis
    proof (cases "wk_rx (gu_worker g') = RxRunning \<and> recv_waits T W (gu_worker g')")
      case True
      with at joining waiting_stuck [of g' T W L Q H] show ?thesis by simp
    next
      case wait: False
      show ?thesis using deleting_progress [OF g'(1) at wait, of L Q H] False wait by blast
    qed
  qed
qed

end
