(* ===== verification/Gui_Witnesses.thy ===== *)
theory Gui_Witnesses
  imports App_Witnesses Gui
begin

text \<open>The GUI on the concrete libraries of Reference-Lib: the user connects, a message arrives, the user closes the window.\<close>

definition c_step :: "bytes list \<Rightarrow> tenv gui \<Rightarrow> gui_act \<Rightarrow> tenv gui \<Rightarrow> bool" where
  "c_step fs = gui_step b_libs b_qt (b_tcp (b_response # fs)) b_wo html"

lemma c_connect:
  "\<exists>w. run_slot b_libs b_qt (b_tcp (b_response # fs)) b_wo (StartConnect ''h:5555'' ''pw'') (worker_init (b_start [])) = w \<and>
    wk_connected w \<and> wk_mode w = TCP \<and> wk_at w = Ready \<and> t_inbox (net w) = fs \<and> wk_rx w = RxRunning \<and> \<not> wk_aborted w \<and>
    session_ready (wk_engine w) \<and> session_key (wk_engine w) = t_key"
  by (simp add: connect_body_def b_endpoint unlock_def b_identity set_engine_def set_net_def emit_def worker_init_def
      b_client_run [where fs = fs] established_def Let_def b_start_def)

text \<open>The program up to the connection.\<close>

definition c_gui0 :: "tenv gui" where "c_gui0 = gui_init html ''t'' (b_start [])"

definition c_gui1 :: "bytes list \<Rightarrow> tenv gui" where
  "c_gui1 fs = c_gui0\<lparr>gu_window := on_event html b_qt (''t'', ClickConnect (Some ''h:5555'') (Some ''pw'')) (gu_window c_gui0),
     gu_worker := run_slot b_libs b_qt (b_tcp (b_response # fs)) b_wo (StartConnect ''h:5555'' ''pw'') (worker_init (b_start []))\<rparr>"

lemma c_run1:
  "run (c_step fs) c_gui0 [User ''t'' (ClickConnect (Some ''h:5555'') (Some ''pw'')), Take (StartConnect ''h:5555'' ''pw'')] (c_gui1 fs)"
proof -
  let ?v = "on_event html b_qt (''t'', ClickConnect (Some ''h:5555'') (Some ''pw'')) (gu_window c_gui0)"
  let ?g = "c_gui0\<lparr>gu_window := ?v, gu_posted := gu_posted c_gui0 @ drop (length (wi_requests (gu_window c_gui0))) (wi_requests ?v)\<rparr>"
  have init: "gu_at c_gui0 = Open" "gu_worker c_gui0 = worker_init (b_start [])" "gu_posted c_gui0 = []"
    by (simp_all add: c_gui0_def gui_init_def)
  have "c_step fs c_gui0 (User ''t'' (ClickConnect (Some ''h:5555'') (Some ''pw''))) ?g"
    unfolding c_step_def by (rule gui_step.user) (simp_all add: init worker_init_def)
  moreover have posted: "gu_posted ?g = [StartConnect ''h:5555'' ''pw'']"
    by (simp add: c_gui0_def gui_init_def window_new_def onConnect_def window_simps)
  have "worker_step b_libs b_qt (b_tcp (b_response # fs)) b_wo (worker_init (b_start [])) (RunSlot (StartConnect ''h:5555'' ''pw''))
      (gu_worker (c_gui1 fs))"
    using worker_step.slot [of "worker_init (b_start [])" b_libs b_qt "b_tcp (b_response # fs)" b_wo "StartConnect ''h:5555'' ''pw''"]
    by (simp add: c_gui1_def worker_init_def del: run_slot.simps)
  then have "c_step fs ?g (Take (StartConnect ''h:5555'' ''pw'')) (?g\<lparr>gu_worker := gu_worker (c_gui1 fs), gu_posted := []\<rparr>)"
    unfolding c_step_def by (intro gui_step.take_slot) (use posted init in simp_all)
  moreover have "?g\<lparr>gu_worker := gu_worker (c_gui1 fs), gu_posted := []\<rparr> = c_gui1 fs"
    using init by (simp add: c_gui1_def)
  ultimately show ?thesis by auto
qed

lemma c_gui1_facts:
  "gu_at (c_gui1 fs) = Open" "gu_shown (c_gui1 fs) = 0" "\<not> wk_aborted (gu_worker (c_gui1 fs))"
  "wk_rx (gu_worker (c_gui1 fs)) = RxRunning" "wk_mode (gu_worker (c_gui1 fs)) = TCP" "t_inbox (net (gu_worker (c_gui1 fs))) = fs"
  "wk_at (gu_worker (c_gui1 fs)) = Ready" "session_ready (wk_engine (gu_worker (c_gui1 fs)))"
  "session_key (wk_engine (gu_worker (c_gui1 fs))) = t_key"
  using c_connect [of fs] by (auto simp: c_gui1_def c_gui0_def gui_init_def simp del: run_slot.simps)

lemma gui_requests_in_order_witness: "wi_requests (gu_window (c_gui1 [])) = [StartConnect ''h:5555'' ''pw'']"
  using gui_requests_in_order [OF c_run1 [of "[]", unfolded c_step_def c_gui0_def]] c_gui1_facts(1)
  by (simp add: c_gui1_def c_gui0_def gui_init_def)

text \<open>The window handles what the worker reported.\<close>

definition c_shown :: "tenv gui \<Rightarrow> tenv gui" where
  "c_shown g = g\<lparr>gu_window := fold (on_signal html ''t'') (drop (gu_shown g) (wk_signals (gu_worker g))) (gu_window g),
     gu_shown := length (wk_signals (gu_worker g))\<rparr>"

lemma c_show:
  assumes "run (c_step fs) c_gui0 acts g" and "gu_at g = Open" and "\<not> wk_aborted (gu_worker g)" and "gu_shown g = 0"
  shows "run (c_step fs) c_gui0 (acts @ replicate (length (wk_signals (gu_worker g))) (Show ''t'')) (c_shown g)"
proof -
  have "run (c_step fs) g (replicate (length (wk_signals (gu_worker g))) (Show ''t'')) (c_shown g)"
    using gui_show_all [OF assms(2,3), of "length (wk_signals (gu_worker g))"] assms(4) by (simp add: c_step_def c_shown_def)
  then show ?thesis by (rule run_append [OF assms(1)])
qed

lemma gui_label_true_witness: "wi_status (gu_window (c_shown (c_gui1 []))) = ''Connected''"
  using gui_label_true [OF c_show [OF c_run1 [of "[]"] c_gui1_facts(1,3,2), unfolded c_step_def c_gui0_def]] c_gui1_facts(1,3,4)
  by (simp add: c_shown_def label_def)

lemma chat_grows: "set (wi_chat w) \<subseteq> set (wi_chat (on_signal H ts s w))"
  by (cases s) (auto simp: onWorkerConnected_def onWorkerDisconnected_def onWorkerMessage_def onWorkerError_def
      onIdentityReady_def window_simps)

lemma chat_shows:
  "MessageReceived p \<in> set ss \<or> peer_line ts (H p) \<in> set (wi_chat w) \<Longrightarrow>
     peer_line ts (H p) \<in> set (wi_chat (fold (on_signal H ts) ss w))"
proof (induction ss arbitrary: w)
  case (Cons s ss)
  have "peer_line ts (H p) \<in> set (wi_chat (on_signal H ts (MessageReceived p) w))"
    by (simp add: onWorkerMessage_def append_line_def)
  with Cons chat_grows [of w H ts s] show ?case by (simp del: on_signal.simps) blast
qed simp

lemma gui_peer_lines_authentic_witness:
  "\<exists>fr acts g. run (c_step [fr]) c_gui0 acts g \<and> peer_line ''t'' (html ''hello'') \<in> set (wi_chat (gu_window g)) \<and>
     (\<exists>as bs v f e' body. worker_acts acts = as @ RxIteration # bs \<and>
        run (worker_step b_libs b_qt (b_tcp [b_response, fr]) b_wo) (worker_init (b_start [])) as v \<and>
        wk_connected v \<and> session_ready (wk_engine v) \<and> worker_recv (b_tcp [b_response, fr]) b_wo v = (Some f, e') \<and>
        authentic_frame (b_libs :: (tenv, tobj) libs) t_gcm (session_key (wk_engine v)) f body \<and>
        (\<exists>t'. peer_line ''t'' (html ''hello'') = peer_line t' (html body)))"
proof -
  let ?e = "wk_engine (gu_worker (c_gui1 []))"
  obtain fr where fr: "encryptAndSerializeMessage b_libs ''hello'' ''gui'' ''peer'' ?e = (Inr fr, ?e)"
    by (rule b_encrypt [where w = ?e and body = "''hello''" and sid = "''gui''" and uid = "''peer''"]) (simp_all add: c_gui1_facts)
  let ?w = "gu_worker (c_gui1 [fr])"
  let ?v = "(wk_engine ?w)\<lparr>env := (net ?w)\<lparr>t_inbox := [], t_log := t_log (net ?w) @ [Received fr]\<rparr>\<rparr>"
  obtain e where dec: "parseAndDecryptMessage b_libs fr ?v = (Inr ''hello'', ?v\<lparr>env := e\<rparr>)"
    using b_decrypt [OF fr, of ?v] by (auto simp: ascii_def c_gui1_facts)
  let ?w2 = "recv_iteration b_libs (b_tcp [b_response, fr]) b_wo ?w"
  have w2: "MessageReceived ''hello'' \<in> set (wk_signals ?w2)" "\<not> wk_aborted ?w2"
    using dec by (simp_all add: recv_iteration_def c_gui1_facts net_recv_def set_net_def set_engine_def emit_def)
  let ?g = "(c_gui1 [fr])\<lparr>gu_worker := ?w2\<rparr>"
  have "worker_step b_libs b_qt (b_tcp [b_response, fr]) b_wo ?w RxIteration ?w2"
    by (rule worker_step.receive) (simp_all add: c_gui1_facts recv_waits_def)
  then have "c_step [fr] (c_gui1 [fr]) (Thread RxIteration) ?g"
    unfolding c_step_def by (intro gui_step.thread) (simp_all add: c_gui1_facts)
  then have "run (c_step [fr]) (c_gui1 [fr]) [Thread RxIteration] ?g" by blast
  from c_show [OF run_append [OF c_run1 this]] obtain acts where acts: "run (c_step [fr]) c_gui0 acts (c_shown ?g)"
    using w2(2) c_gui1_facts(1,2) by auto
  have line: "peer_line ''t'' (html ''hello'') \<in> set (wi_chat (gu_window (c_shown ?g)))"
    using w2(1) c_gui1_facts(2) by (simp add: c_shown_def chat_shows)
  have "\<exists>as bs v f e' body. worker_acts acts = as @ RxIteration # bs \<and>
        run (worker_step b_libs b_qt (b_tcp [b_response, fr]) b_wo) (worker_init (b_start [])) as v \<and>
        wk_connected v \<and> session_ready (wk_engine v) \<and> worker_recv (b_tcp [b_response, fr]) b_wo v = (Some f, e') \<and>
        authentic_frame (b_libs :: (tenv, tobj) libs) t_gcm (session_key (wk_engine v)) f body \<and>
        (\<exists>t'. peer_line ''t'' (html ''hello'') = peer_line t' (html body))"
    by (rule gui_peer_lines_authentic [OF _ _ html acts [unfolded c_step_def c_gui0_def] _ line, where view = t_gview])
       (simp_all add: t_gcm_contract t_proto_contract c_shown_def c_gui1_facts)
  with acts line show ?thesis by blast
qed

end
