(* ===== verification/Nonces.thy ===== *)
theory Nonces
  imports Talk
begin

text \<open>
  The nonces of AES-GCM: \<open>encryptAndSerializeMessage\<close> in \<^verbatim>\<open>connection_engine.cpp\<close> draws one for every message and keeps no
  counter, and both ends of a session encrypt under the same key.
\<close>

section \<open>The draws\<close>

text \<open>\<open>drawn\<close> are the results of \<open>RAND_bytes\<close> so far. The other two calls of an encryption draw nothing.\<close>

definition rng_contract :: "('e, 'h) libs \<Rightarrow> ('e \<Rightarrow> bytes list) \<Rightarrow> bool" where
  "rng_contract L drawn \<longleftrightarrow>
     (\<forall>n rc out e e'. rand_bytes (lb_cipher L) n e = ((rc, out), e') \<longrightarrow>
        drawn e' = drawn e @ (if rc = 1 then [out] else []) \<and> (rc = 1 \<longrightarrow> int (length out) = n)) \<and>
     (\<forall>e. drawn (snd (cipher_ctx_new (lb_cipher L) e)) = drawn e) \<and>
     (\<forall>e. drawn (snd (lb_clock L e)) = drawn e)"

text \<open>The nonce that travels in a frame.\<close>

definition nonce_of :: "proto \<Rightarrow> bytes \<Rightarrow> bytes option" where
  "nonce_of B f =
     (case parse_envelope B f (c_int (length f)) of
        None \<Rightarrow> None
      | Some en \<Rightarrow> map_option cm_nonce (parse_chat B (ev_payload_e2e en) (c_int (length (ev_payload_e2e en)))))"

lemma random_nonce_draws:
  assumes "rng_contract L drawn" and "random_nonce (lb_cipher L) w = (Inr nonce, w')"
  shows "drawn (env w') = drawn (env w) @ [nonce] \<and> length nonce = NONCE_SIZE"
proof -
  obtain rc out e where r: "rand_bytes (lb_cipher L) (c_int NONCE_SIZE) (env w) = ((rc, out), e)"
    by (metis prod.collapse)
  then have rc: "rc = 1" "nonce = fill NONCE_SIZE out" "env w' = e"
    using assms(2) by (auto simp: random_nonce_def io_run split: if_splits)
  have "drawn e = drawn (env w) @ [out]" "int (length out) = c_int NONCE_SIZE"
    using assms(1) r rc(1) unfolding rng_contract_def by fastforce+
  then show ?thesis using rc by (simp add: NONCE_SIZE_def)
qed

lemma encrypt_draws:
  fixes w w' :: "('e, 'x) engine_world_scheme"
  assumes R: "rng_contract L drawn" and P: "proto_contract (lb_proto L)" and "ascii sender" and "ascii to"
    and run: "encryptAndSerializeMessage L plain sender to w = (Inr frame, w')"
  shows "\<exists>n. drawn (env w') = drawn (env w) @ [n] \<and> nonce_of (lb_proto L) frame = Some n"
proof -
  let ?g = "\<lambda>w :: ('e, 'x) engine_world_scheme. drawn (env w)"
  obtain nonce w1 ct w2 now w3 inner now' where
    n: "random_nonce (lb_cipher L) w = (Inr nonce, w1)" and
    ct: "session_encrypt (lb_cipher L) (session_key w1) (bytes_of plain) nonce w1 = (Inr ct, w2)" and
    now: "env_io (lb_clock L) w2 = (Inr now, w3)" "env_io (lb_clock L) w3 = (Inr now', w')" and
    ser: "ser_chat (lb_proto L) \<lparr>cm_sender_id = sender, cm_encrypted_content = ct,
       cm_nonce = nonce, cm_timestamp_unix = now\<rparr> = Some inner"
      "ser_envelope (lb_proto L) \<lparr>ev_version = kVersion, ev_to_username = to, ev_sender_pubkey = [],
       ev_payload_e2e = inner, ev_client_timestamp = now'\<rparr> = Some frame"
    using run unfolding encryptAndSerializeMessage_def report_Inr by (auto simp: io_Inr)
  have "silent ?g (cipher_ctx_new (lb_cipher L))" "silent ?g (lb_clock L)" "heap_blind ?g"
    using R by (simp_all add: rng_contract_def silent_env heap_blind_env)
  then have still: "keeps ?g (session_encrypt (lb_cipher L) k p x)" "keeps ?g (env_io (lb_clock L))" for k p x
    unfolding session_encrypt_def AESGCM_new_def aes_encrypt_def encrypt_body_def split_def by (intro keeps_intros; simp)+
  have "drawn (env w') = drawn (env w1)"
    using still(1) [THEN keepsD, OF ct] still(2) [THEN keepsD, OF now(1)] still(2) [THEN keepsD, OF now(2)] by simp
  moreover have "nonce_of (lb_proto L) frame = Some nonce"
    using proto_contractD(4) [OF P ser(2)] proto_contractD(3) [OF P ser(1)] assms(3,4) by (simp add: nonce_of_def)
  ultimately show ?thesis using random_nonce_draws [OF R n] by simp
qed

section \<open>The frames of an engine\<close>

text \<open>
  The frames that are made by an engine, in order, with anything between them: other calls, failed ones, another session,
  another part of the process or of the outside world, as long as the record of the draws is only added to.
\<close>

inductive encrypts ::
  "('e, 'h) libs \<Rightarrow> ('e \<Rightarrow> bytes list) \<Rightarrow> 'e engine_world \<Rightarrow> bytes list \<Rightarrow> 'e engine_world \<Rightarrow> bool"
  for L :: "('e, 'h) libs" and drawn :: "'e \<Rightarrow> bytes list" where
  start: "encrypts L drawn w [] w"
| made: "encrypts L drawn w fs w1 \<Longrightarrow> encryptAndSerializeMessage L plain sender to w1 = (Inr f, w2) \<Longrightarrow>
    ascii sender \<Longrightarrow> ascii to \<Longrightarrow> encrypts L drawn w (fs @ [f]) w2"
| between: "encrypts L drawn w fs w1 \<Longrightarrow> drawn (env w2) = drawn (env w1) @ ev \<Longrightarrow> encrypts L drawn w fs w2"

lemma encrypts_draws:
  assumes "encrypts L drawn w fs w'" and R: "rng_contract L drawn" and P: "proto_contract (lb_proto L)"
  shows "\<exists>ns ds. drawn (env w') = drawn (env w) @ ds \<and> subseq ns ds \<and> map (nonce_of (lb_proto L)) fs = map Some ns"
  using assms(1)
proof (induction rule: encrypts.induct)
  case (start w)
  then show ?case by (intro exI [of _ "[]"]) simp
next
  case (made w fs w1 plain sender to f w2)
  then obtain ns ds where old: "drawn (env w1) = drawn (env w) @ ds" "subseq ns ds"
    "map (nonce_of (lb_proto L)) fs = map Some ns" by blast
  obtain n where "drawn (env w2) = drawn (env w1) @ [n]" "nonce_of (lb_proto L) f = Some n"
    using encrypt_draws [OF R P made.hyps(3,4,2)] by blast
  with old show ?case by (intro exI [of _ "ns @ [n]"] exI [of _ "ds @ [n]"]) (simp add: list_emb_append_mono)
next
  case (between w fs w1 w2 ev)
  then obtain ns ds where "drawn (env w1) = drawn (env w) @ ds" "subseq ns ds"
    "map (nonce_of (lb_proto L)) fs = map Some ns" by blast
  with between.hyps(2) show ?case
    by (intro exI [of _ ns] exI [of _ "ds @ ev"]) (simp add: list_emb_prefix)
qed

text \<open>C13: no nonce is used twice under a key: as long as what \<open>RAND_bytes\<close> has given to the two ends of a session is
  without repetitions, so are the nonces of all frames that either of them ever makes, whatever happens between two
  messages. Each frame carries a nonce, and each nonce is one of these draws.\<close>

theorem nonces_never_repeat:
  assumes "rng_contract L drawn" and "rng_contract L drawn'" and "proto_contract (lb_proto L)"
    and "encrypts L drawn w fs w'" and "encrypts L drawn' v gs v'"
    and "distinct (drawn (env w') @ drawn' (env v'))"
  shows "distinct (map (nonce_of (lb_proto L)) (fs @ gs)) \<and>
    set (map (nonce_of (lb_proto L)) (fs @ gs)) \<subseteq> Some ` set (drawn (env w') @ drawn' (env v'))"
proof -
  let ?n = "nonce_of (lb_proto L)"
  obtain ns ds where A: "drawn (env w') = drawn (env w) @ ds" "subseq ns ds" "map ?n fs = map Some ns"
    using encrypts_draws [OF assms(4,1,3)] by blast
  obtain ms es where B: "drawn' (env v') = drawn' (env v) @ es" "subseq ms es" "map ?n gs = map Some ms"
    using encrypts_draws [OF assms(5,2,3)] by blast
  have sub: "subseq (ns @ ms) (ds @ es)" using A(2) B(2) by (rule list_emb_append_mono)
  have "distinct (ds @ es)" using assms(6) A(1) B(1) by auto
  then have "distinct (ns @ ms)" using sub by (metis subseq_conv_nths distinct_nthsI)
  moreover have "set (ns @ ms) \<subseteq> set (ds @ es)" using list_emb_set [OF sub] by blast
  moreover have "map ?n (fs @ gs) = map Some (ns @ ms)" using A(3) B(3) by simp
  ultimately show ?thesis using A(1) B(1) by (auto simp: distinct_map)
qed

end
