(* ===== verification/Nonce_Witnesses.thy ===== *)
theory Nonce_Witnesses
  imports Loop_Witnesses Nonces
begin

text \<open>Two messages of an engine whose \<open>RAND_bytes\<close> counts, on the concrete libraries of Reference-Lib.\<close>

definition n_fresh :: "int \<Rightarrow> bytes list \<Rightarrow> bytes" where
  "n_fresh n ds = replicate (nat n - 1) 0 @ [of_nat (length ds)]"

definition n_cipher :: "(bytes list, tobj) evp_cipher" where
  "n_cipher = t_cipher\<lparr>rand_bytes := (\<lambda>n ds. if 0 < n then ((1, n_fresh n ds), ds @ [n_fresh n ds]) else ((0, []), ds))\<rparr>"

definition n_libs :: "(bytes list, tobj) libs" where "n_libs = b_libs\<lparr>lb_cipher := n_cipher\<rparr>"

definition n_state :: "bytes list \<Rightarrow> bytes list engine_world" where
  "n_state ds = (l_engine ds)\<lparr>session_key := t_key, session_ready := True\<rparr>"

lemma n_rng: "rng_contract n_libs (\<lambda>ds. ds)"
  by (auto simp: rng_contract_def n_libs_def n_cipher_def n_fresh_def t_cipher_def of_nat_diff Suc_le_eq)

lemma n_body: "encrypt_body n_cipher k p n ctx = encrypt_body t_cipher k p n ctx"
  by (simp add: encrypt_body_def n_cipher_def)

lemma n_aes: "aes_encrypt n_cipher k p n w = aes_encrypt t_cipher k p n w"
  unfolding aes_encrypt_def n_body by (simp add: n_cipher_def)

lemma n_encrypt:
  obtains frame where "encryptAndSerializeMessage n_libs ''hi'' ''gui'' ''peer'' (n_state ds) =
    (Inr frame, n_state (ds @ [n_fresh 12 ds]))"
proof -
  have len: "length (n_fresh 12 ds) = 12" by (simp add: n_fresh_def)
  have draw: "random_nonce n_cipher (n_state ds) = (Inr (n_fresh 12 ds), n_state (ds @ [n_fresh 12 ds]))"
    by (simp add: random_nonce_def n_cipher_def io_run NONCE_SIZE_def n_state_def l_engine_def n_fresh_def)
  have enc: "session_encrypt n_cipher t_key (bytes_of ''hi'') (n_fresh 12 ds) (n_state es) =
      (Inr (gcm_E t_gcm t_key (n_fresh 12 ds) (bytes_of ''hi'') @
        gcm_T t_gcm t_key (n_fresh 12 ds) (gcm_E t_gcm t_key (n_fresh 12 ds) (bytes_of ''hi''))), n_state es)" for es
    using len by (simp add: session_encrypt_eq n_aes t_aes_encrypt NONCE_SIZE_def)
  have fields: "lb_cipher n_libs = n_cipher" "lb_proto n_libs = t_proto" "lb_clock n_libs e = (1700000000, e)"
    "session_ready (n_state es)" "session_key (n_state es) = t_key" "env (n_state es) = es" "(n_state es)\<lparr>env := es'\<rparr> = n_state es'" for e es es'
    by (simp_all add: n_libs_def n_state_def l_engine_def)
  show ?thesis
    by (rule that [of "projr (fst (encryptAndSerializeMessage n_libs ''hi'' ''gui'' ''peer'' (n_state ds)))"])
       (simp add: encryptAndSerializeMessage_def report_def io_run require_io_def draw enc fields
         t_proto_def put_fields_def put_field_length Let_def t_gcm_def TAG_SIZE_def len)
qed

lemma n_distinct: "env (n_state [n_fresh 12 [], n_fresh 12 [n_fresh 12 []]]) = [replicate 11 0 @ [0], replicate 11 0 @ [1]]"
  by (simp add: n_state_def l_engine_def n_fresh_def numeral_eq_Suc)

lemma n_no_draws: "env (n_state []) = []" by (simp add: n_state_def l_engine_def)

lemma nonces_never_repeat_witness:
  "\<exists>f g w. encrypts n_libs (\<lambda>ds. ds) (n_state []) [f, g] w \<and> nonce_of t_proto f \<noteq> nonce_of t_proto g"
proof -
  let ?d = "[n_fresh 12 []]" and ?d2 = "[n_fresh 12 [], n_fresh 12 [n_fresh 12 []]]"
  obtain f where f: "encryptAndSerializeMessage n_libs ''hi'' ''gui'' ''peer'' (n_state []) = (Inr f, n_state ([] @ ?d))"
    by (rule n_encrypt [of "[]"]) simp
  obtain g where g: "encryptAndSerializeMessage n_libs ''hi'' ''gui'' ''peer'' (n_state ?d) = (Inr g, n_state ?d2)"
    by (rule n_encrypt [of ?d]) simp
  have "encrypts n_libs (\<lambda>ds. ds) (n_state []) ([] @ [f]) (n_state ?d)"
    by (rule encrypts.made [OF encrypts.start f [unfolded append_Nil]]) (simp_all add: ascii_def)
  then have "encrypts n_libs (\<lambda>ds. ds) (n_state []) (([] @ [f]) @ [g]) (n_state ?d2)"
    by (rule encrypts.made [OF _ g]) (simp_all add: ascii_def)
  then have two: "encrypts n_libs (\<lambda>ds. ds) (n_state []) [f, g] (n_state ?d2)" by simp
  have draws: "distinct (env (n_state ?d2) @ env (n_state []))" unfolding n_distinct n_no_draws by simp
  have lib: "lb_proto n_libs = t_proto" by (simp add: n_libs_def)
  have proto: "proto_contract (lb_proto n_libs)" unfolding lib by (rule t_proto_contract)
  have "distinct (map (nonce_of (lb_proto n_libs)) ([f, g] @ []))"
    by (rule nonces_never_repeat [OF n_rng n_rng proto two encrypts.start draws, THEN conjunct1])
  then have "nonce_of t_proto f \<noteq> nonce_of t_proto g" unfolding lib by simp
  with two show ?thesis by blast
qed

end
