(* ===== verification/Gui_Talk.thy ===== *)
theory Gui_Talk
  imports Gui Tcp_Demo Talk
begin

text \<open>
  Two instances of the GUI over TCP, down to the bytes: one connects, the other one hosts, and each reports what was
  sent with the other.
\<close>

section \<open>Calls that fail\<close>

text \<open>\<open>asio::write\<close> and \<open>asio::read\<close> when they throw: a part of the bytes may have been written or read.\<close>

definition partial_contract :: "('s, 'ep) asio \<Rightarrow> ('s \<Rightarrow> bytes) \<Rightarrow> ('s \<Rightarrow> bytes) \<Rightarrow> bool" where
  "partial_contract A wrote taken \<longleftrightarrow>
     (\<forall>b s. prefix (wrote s) (wrote (snd (asio_write A b s))) \<and> taken (snd (asio_write A b s)) = taken s) \<and>
     (\<forall>n s. prefix (taken s) (taken (snd (asio_read A n s))) \<and> wrote (snd (asio_read A n s)) = wrote s)"

lemma partial_send:
  assumes "partial_contract A wrote taken" and "tcp_send A f s = (ok, s')"
  shows "prefix (wrote s) (wrote s') \<and> taken s' = taken s"
proof -
  have P: "prefix (wrote s) (wrote s') \<and> taken s' = taken s" if "asio_write A b s = (ok, s')" for b s ok s'
    using assms(1) that unfolding partial_contract_def by (metis snd_conv)
  obtain ok1 s1 where s1: "asio_write A (be32 (c_uint32 (length f))) s = (ok1, s1)" by fastforce
  from assms(2) s1 consider "s' = s1" | "asio_write A f s1 = (ok, s')"
    by (auto simp: tcp_send_def Let_def split: bool.splits if_splits)
  then show ?thesis
  proof cases
    case 1
    with P [OF s1] show ?thesis by simp
  next
    case 2
    from P [OF s1] P [OF this] show ?thesis by (auto intro: prefix_order.order_trans)
  qed
qed

lemma partial_recv:
  assumes "partial_contract A wrote taken" and "tcp_recv A s = (r, s')"
  shows "prefix (taken s) (taken s') \<and> wrote s' = wrote s"
proof -
  have P: "prefix (taken s) (taken s') \<and> wrote s' = wrote s" if "asio_read A n s = (r, s')" for n s r s'
    using assms(1) that unfolding partial_contract_def by (metis snd_conv)
  obtain r1 s1 where s1: "asio_read A 4 s = (r1, s1)" by fastforce
  from assms(2) s1 consider "s' = s" | "s' = s1" | n r2 where "asio_read A n s1 = (r2, s')"
    by (auto simp: tcp_recv_def Let_def split: await.splits option.splits prod.splits if_splits)
  then show ?thesis
  proof cases
    case 3
    from P [OF s1] P [OF this] show ?thesis by (auto intro: prefix_order.order_trans)
  qed (use P [OF s1] in auto)
qed

section \<open>What a session reports\<close>

text \<open>The texts that were posted to the worker, and what it told about the frames it received: a message, or the status line
  of a frame that was dropped.\<close>

fun texts_sent :: "worker_act list \<Rightarrow> string list" where
  "texts_sent [] = []"
| "texts_sent (RunSlot (SendMessage x) # acts) = x # texts_sent acts"
| "texts_sent (_ # acts) = texts_sent acts"

fun told :: "signal list \<Rightarrow> (string + string) list" where
  "told [] = []"
| "told (MessageReceived p # s) = Inr p # told s"
| "told (Status l # s) = Inl l # told s"
| "told (_ # s) = told s"

definition no_error :: "signal list \<Rightarrow> bool" where
  "no_error s \<longleftrightarrow> list_all (\<lambda>x. case x of Error m \<Rightarrow> False | _ \<Rightarrow> True) s"

lemma told_append [simp]: "told (s @ t) = told s @ told t"
  by (induction s rule: told.induct) simp_all

lemma no_error_simps [simp]: "no_error []" "no_error (s @ t) = (no_error s \<and> no_error t)" "\<not> no_error [Error m]"
  by (simp_all add: no_error_def)

lemma texts_sent_append [simp]: "texts_sent (as @ bs) = texts_sent as @ texts_sent bs"
  by (induction as rule: texts_sent.induct) simp_all

definition told_of :: "('e, 'h) libs \<Rightarrow> bytes \<Rightarrow> bytes \<Rightarrow> string + string \<Rightarrow> bool" where
  "told_of L key f r \<longleftrightarrow> (\<exists>r0. read_of L key f r0 \<and> r = map_sum (\<lambda>err. ''Dropping message: '' @ err) id r0)"

text \<open>The steps of one session: no slot that starts another one.\<close>

definition in_session :: "worker_act \<Rightarrow> bool" where
  "in_session a \<longleftrightarrow> (case a of RunSlot (SendMessage x) \<Rightarrow> True | RunSlot DisconnectFromPeer \<Rightarrow> True | RunSlot _ \<Rightarrow> False | _ \<Rightarrow> True)"

abbreviation sock :: "('s, 'o) tcp_env worker \<Rightarrow> 's" where
  "sock w \<equiv> te_sock (net w)"

abbreviation stream :: "bytes list \<Rightarrow> bytes" where
  "stream fs \<equiv> concat (map tcp_encode fs)"

text \<open>
  A worker \<open>w\<close> whose session began in \<open>w0\<close>, when \<open>out0\<close> and \<open>inp0\<close> had been sent and received: the frames it received since
  then are what it told about, and the frames it sent are those of the texts, unless it reported an error.
\<close>

definition received_since ::
  "(('s, 'o) tcp_env, 'h) libs \<Rightarrow> ('s \<Rightarrow> bytes) \<Rightarrow> bytes \<Rightarrow> bytes list \<Rightarrow> signal list \<Rightarrow> ('s, 'o) tcp_env worker \<Rightarrow> bool" where
  "received_since L taken key inp0 s w \<longleftrightarrow>
     (\<exists>inp. list_all2 (told_of L key) inp (told s) \<and> list_all (\<lambda>f. length f < 2 ^ 32) inp \<and>
        prefix (stream (inp0 @ inp)) (taken (sock w)) \<and> (wk_rx w = RxRunning \<longrightarrow> taken (sock w) = stream (inp0 @ inp)))"

definition sent_since ::
  "(('s, 'o) tcp_env, 'h) libs \<Rightarrow> ('s \<Rightarrow> bytes) \<Rightarrow> bytes \<Rightarrow> bytes list \<Rightarrow> string list \<Rightarrow> signal list \<Rightarrow> ('s, 'o) tcp_env worker \<Rightarrow> bool" where
  "sent_since L wrote key out0 xs s w \<longleftrightarrow> prefix (stream out0) (wrote (sock w)) \<and>
     (no_error s \<longrightarrow> (\<exists>out. list_all2 (frame_of L ''gui'' ''peer'' key) out xs \<and> wrote (sock w) = stream (out0 @ out)))"

definition session_since ::
  "(('s, 'o) tcp_env, 'h) libs \<Rightarrow> ('s \<Rightarrow> bytes) \<Rightarrow> ('s \<Rightarrow> bytes) \<Rightarrow> bytes list \<Rightarrow> bytes list \<Rightarrow>
     ('s, 'o) tcp_env worker \<Rightarrow> string list \<Rightarrow> ('s, 'o) tcp_env worker \<Rightarrow> bool" where
  "session_since L wrote taken out0 inp0 w0 xs w \<longleftrightarrow>
     session_key (wk_engine w) = session_key (wk_engine w0) \<and> session_ready (wk_engine w) \<and>
     wk_at w \<in> {Ready, Joining None} \<and>
     wk_mode w \<noteq> WS \<and> (wk_connected w \<or> wk_rx w = RxRunning \<longrightarrow> wk_mode w = TCP) \<and>
     (\<exists>s. wk_signals w = wk_signals w0 @ s \<and> received_since L taken (session_key (wk_engine w0)) inp0 s w \<and>
        sent_since L wrote (session_key (wk_engine w0)) out0 xs s w)"

section \<open>One worker\<close>

lemma send_told:
  fixes A :: "('s, 'ep) asio" and w :: "('s, 'o) tcp_env worker"
  assumes P: "partial_contract A wrote taken" and S: "stream_contract A wrote taken" and Q: "libs_quiet wire L"
    and mode: "wk_connected w \<longrightarrow> wk_mode w = TCP"
  obtains g s where "send_message L (tcp_transport A) W x w = w\<lparr>wk_engine := g, wk_signals := wk_signals w @ s\<rparr>"
    and "told s = []" and "session_key g = session_key (wk_engine w)" and "session_ready g = session_ready (wk_engine w)"
    and "taken (te_sock (env g)) = taken (sock w)" and "prefix (wrote (sock w)) (wrote (te_sock (env g)))"
    and "no_error s \<longrightarrow> (\<exists>f. frame_of L ''gui'' ''peer'' (session_key (wk_engine w)) f x \<and>
      wrote (te_sock (env g)) = wrote (sock w) @ tcp_encode f)"
proof (cases "wk_connected w")
  case False
  with that [where g = "wk_engine w" and s = "[Error ''Not connected.'']"] show ?thesis by (simp add: send_message_def emit_def)
next
  case True
  obtain r g where enc: "encryptAndSerializeMessage L x ''gui'' ''peer'' (wk_engine w) = (r, g)" by fastforce
  have still: "session_key g = session_key (wk_engine w)" "session_ready g = session_ready (wk_engine w)"
    using more_fields(3,4) [OF encryptAndSerialize_keeps [of L x "''gui''" "''peer''" "wk_engine w"]] enc by simp_all
  have wired: "te_sock (env g) = sock w"
    using encrypt_quiet [OF Q, of x "''gui''" "''peer''" "wk_engine w"] enc by (simp add: wire_def)
  show ?thesis
  proof (cases r)
    case (Inl err)
    with True enc still wired that [where g = g and s = "[Error (''Send error: '' @ err)]"] show ?thesis
      by (simp add: send_message_def emit_def set_engine_def)
  next
    case (Inr f)
    obtain ok e where e: "tc_send (tcp_transport A) f (env g) = (ok, e)" by fastforce
    then have sock: "tcp_send A f (te_sock (env g)) = (ok, te_sock e)"
      by (auto simp: tcp_transport_def on_socket_def split: prod.splits)
    have "send_message L (tcp_transport A) W x w = w\<lparr>wk_engine := g\<lparr>env := e\<rparr>,
        wk_signals := wk_signals w @ (if ok then [] else [Error ''Send failed''])\<rparr>"
      using True mode enc Inr e by (simp add: send_message_def set_engine_def set_net_def emit_def)
    moreover have "no_error (if ok then [] else [Error ''Send failed'']) \<longrightarrow>
        (\<exists>f. frame_of L ''gui'' ''peer'' (session_key (wk_engine w)) f x \<and> wrote (te_sock e) = wrote (sock w) @ tcp_encode f)"
    proof (cases ok)
      case True
      have "frame_of L ''gui'' ''peer'' (session_key (wk_engine w)) f x" using enc Inr unfolding frame_of_def by blast
      with True stream_send [OF S, of f "te_sock (env g)" "te_sock e"] sock wired show ?thesis by auto
    qed simp
    ultimately show ?thesis
      using that [where g = "g\<lparr>env := e\<rparr>" and s = "if ok then [] else [Error ''Send failed'']"] still wired partial_send [OF P sock]
      by simp
  qed
qed

lemma receive_told:
  fixes A :: "('s, 'ep) asio" and w :: "('s, 'o) tcp_env worker"
  assumes P: "partial_contract A wrote taken" and S: "stream_contract A wrote taken" and Q: "libs_quiet wire L"
    and mode: "wk_mode w = TCP" and ready: "session_ready (wk_engine w)"
  obtains e where "recv_iteration L (tcp_transport A) W w =
      (set_net e w)\<lparr>wk_connected := False, wk_running := False, wk_rx := RxEnding\<rparr>"
    and "prefix (taken (sock w)) (taken (te_sock e))" and "wrote (te_sock e) = wrote (sock w)"
  | g h f where "recv_iteration L (tcp_transport A) W w = w\<lparr>wk_engine := g, wk_signals := wk_signals w @ [h]\<rparr>"
    and "list_all2 (told_of L (session_key (wk_engine w))) [f] (told [h])" and "no_error [h]" and "length f < 2 ^ 32"
    and "session_key g = session_key (wk_engine w)" and "session_ready g"
    and "taken (te_sock (env g)) = taken (sock w) @ tcp_encode f" and "wrote (te_sock (env g)) = wrote (sock w)"
proof -
  obtain r e where e: "tc_recv (tcp_transport A) (net w) = (r, e)" by fastforce
  show ?thesis
  proof (cases r)
    case None
    have "te_sock e = sock w \<or> te_sock e = snd (tcp_recv A (sock w))"
      using e None by (auto simp: tcp_transport_def split: prod.splits await.splits option.splits)
    then have "prefix (taken (sock w)) (taken (te_sock e)) \<and> wrote (te_sock e) = wrote (sock w)"
      using partial_recv [OF P, of "sock w"] by (metis prod.collapse prefix_order.order_refl)
    with None e mode that(1) [where e = e] show ?thesis by (simp add: recv_iteration_def)
  next
    case (Some f)
    have sock: "tcp_recv A (sock w) = (Ret (Some f), te_sock e)"
      using e Some by (auto simp: tcp_transport_def split: prod.splits await.splits option.splits)
    obtain r2 g where dec: "parseAndDecryptMessage L f ((wk_engine w)\<lparr>env := e\<rparr>) = (r2, g)" by fastforce
    have still: "session_key g = session_key (wk_engine w)" "session_ready g"
      using more_fields(3,4) [OF parseAndDecrypt_keeps [of L f "(wk_engine w)\<lparr>env := e\<rparr>"]] dec ready by simp_all
    have wired: "te_sock (env g) = te_sock e"
      using parse_quiet [OF Q, of f "(wk_engine w)\<lparr>env := e\<rparr>"] dec by (simp add: wire_def)
    let ?h = "case r2 of Inl err \<Rightarrow> Status (''Dropping message: '' @ err) | Inr plain \<Rightarrow> MessageReceived plain"
    have "recv_iteration L (tcp_transport A) W w = w\<lparr>wk_engine := g, wk_signals := wk_signals w @ [?h]\<rparr>"
      using e Some mode dec
      by (cases r2) (simp_all add: recv_iteration_def set_net_def set_engine_def emit_def)
    moreover have "read_of L (session_key (wk_engine w)) f r2"
      unfolding read_of_def using dec ready by (intro exI [of _ "(wk_engine w)\<lparr>env := e\<rparr>"] exI [of _ g]) simp
    then have "list_all2 (told_of L (session_key (wk_engine w))) [f] (told [?h])"
      by (cases r2) (auto simp: told_of_def intro: exI [of _ r2])
    moreover have "no_error [?h]" by (cases r2) (simp_all add: no_error_def)
    moreover note stream_recv [OF S sock]
    ultimately show ?thesis using that(2) [where g = g and h = ?h and f = f] still wired by simp
  qed
qed

lemma session_step:
  fixes A :: "('s, 'ep) asio" and w0 :: "('s, 'o) tcp_env worker"
  assumes P: "partial_contract A wrote taken" and S: "stream_contract A wrote taken" and Q: "libs_quiet wire L"
    and I: "session_since L wrote taken out0 inp0 w0 xs w" and a: "in_session a"
    and step: "worker_step L U (tcp_transport A) W w a w'"
  shows "session_since L wrote taken out0 inp0 w0 (xs @ texts_sent [a]) w'"
proof -
  let ?k = "session_key (wk_engine w0)"
  have key: "session_key (wk_engine w) = ?k" "session_ready (wk_engine w)" "wk_at w \<in> {Ready, Joining None}"
    and mode: "wk_mode w \<noteq> WS" "wk_connected w \<or> wk_rx w = RxRunning \<longrightarrow> wk_mode w = TCP"
    using I by (auto simp: session_since_def)
  obtain s where s: "wk_signals w = wk_signals w0 @ s" and rcv: "received_since L taken ?k inp0 s w"
    and snt: "sent_since L wrote ?k out0 xs s w"
    using I by (auto simp: session_since_def)
  have quiet: "session_since L wrote taken out0 inp0 w0 xs v"
    if "wk_signals v = wk_signals w @ s'" "told s' = []" "no_error s'" "session_key (wk_engine v) = session_key (wk_engine w)"
      "session_ready (wk_engine v) = session_ready (wk_engine w)" "wrote (sock v) = wrote (sock w)"
      "prefix (taken (sock w)) (taken (sock v))" "wk_rx v = RxRunning \<longrightarrow> wk_rx w = RxRunning \<and> taken (sock v) = taken (sock w)"
      "wk_at v \<in> {Ready, Joining None}" "wk_mode v \<noteq> WS" "wk_connected v \<or> wk_rx v = RxRunning \<longrightarrow> wk_mode v = TCP" for v s'
  proof -
    have "received_since L taken ?k inp0 (s @ s') v"
      using rcv that(2,7,8) unfolding received_since_def by (auto intro: prefix_order.order_trans)
    moreover have "sent_since L wrote ?k out0 xs (s @ s') v"
      using snt that(3,6) by (simp add: sent_since_def)
    ultimately show ?thesis using that(1,4,5,9-11) key(1,2) s by (simp add: session_since_def)
  qed
  show ?thesis
    using step
  proof (cases rule: worker_step.cases)
    case (slot x)
    then consider (msg) l where "x = SendMessage l" | (bye) "x = DisconnectFromPeer"
      using a by (auto simp: in_session_def split: slot.splits)
    then show ?thesis
    proof cases
      case msg
      have tcp: "wk_connected w \<longrightarrow> wk_mode w = TCP" using mode by blast
      obtain g s' where w': "send_message L (tcp_transport A) W l w = w\<lparr>wk_engine := g, wk_signals := wk_signals w @ s'\<rparr>"
        and parts: "told s' = []" "session_key g = session_key (wk_engine w)" "session_ready g = session_ready (wk_engine w)"
          "taken (te_sock (env g)) = taken (sock w)" "prefix (wrote (sock w)) (wrote (te_sock (env g)))"
          "no_error s' \<longrightarrow> (\<exists>f. frame_of L ''gui'' ''peer'' (session_key (wk_engine w)) f l \<and>
            wrote (te_sock (env g)) = wrote (sock w) @ tcp_encode f)"
        by (rule send_told [OF P S Q tcp])
      have w'_eq: "w' = w\<lparr>wk_engine := g, wk_signals := wk_signals w @ s'\<rparr>" using slot msg w' by simp
      have "sent_since L wrote ?k out0 (xs @ [l]) (s @ s') w'"
        unfolding sent_since_def
      proof (intro conjI impI)
        show "prefix (stream out0) (wrote (sock w'))"
          using snt parts(5) by (auto simp: sent_since_def w'_eq intro: prefix_order.order_trans)
        assume "no_error (s @ s')"
        then obtain out f where "list_all2 (frame_of L ''gui'' ''peer'' ?k) out xs" "wrote (sock w) = stream (out0 @ out)"
          "frame_of L ''gui'' ''peer'' ?k f l" "wrote (te_sock (env g)) = wrote (sock w) @ tcp_encode f"
          using snt parts(6) key(1) by (auto simp: sent_since_def)
        then show "\<exists>out. list_all2 (frame_of L ''gui'' ''peer'' ?k) out (xs @ [l]) \<and> wrote (sock w') = stream (out0 @ out)"
          by (intro exI [of _ "out @ [f]"]) (simp add: w'_eq list_all2_appendI)
      qed
      moreover have "received_since L taken ?k inp0 (s @ s') w'"
        using rcv parts(1,4) by (simp add: received_since_def w'_eq)
      ultimately have "session_since L wrote taken out0 inp0 w0 (xs @ [l]) w'"
        unfolding session_since_def using parts(2,3) key mode s by (intro conjI exI [of _ "s @ s'"]) (simp_all add: w'_eq)
      with slot msg show ?thesis by simp
    next
      case bye
      let ?d = "disconnect_begin (tcp_transport A) W w"
      have "session_since L wrote taken out0 inp0 w0 xs (?d\<lparr>wk_at := Joining None\<rparr>)"
        by (rule quiet [where s' = "[]"])
           (use mode in \<open>simp_all add: disconnect_begin_def set_net_def tcp_transport_def stream_close [OF S] Let_def\<close>)
      with slot bye show ?thesis by simp
    qed
  next
    case receive
    with mode have tcp: "wk_mode w = TCP" by simp
    from P S Q tcp key(2) show ?thesis
    proof (cases rule: receive_told [where W = W])
      case (1 e)
      with receive have w': "w' = (set_net e w)\<lparr>wk_connected := False, wk_running := False, wk_rx := RxEnding\<rparr>" by simp
      have "session_since L wrote taken out0 inp0 w0 xs w'"
        by (rule quiet [where s' = "[]"]) (use 1 mode key in \<open>simp_all add: w' set_net_def\<close>)
      with receive show ?thesis by simp
    next
      case (2 g h f)
      with receive have w': "w' = w\<lparr>wk_engine := g, wk_signals := wk_signals w @ [h]\<rparr>" by simp
      obtain inp where inp: "list_all2 (told_of L ?k) inp (told s)" "list_all (\<lambda>f. length f < 2 ^ 32) inp"
        "taken (sock w) = stream (inp0 @ inp)"
        using rcv receive by (auto simp: received_since_def)
      have "list_all2 (told_of L ?k) (inp @ [f]) (told (s @ [h]))"
        using list_all2_appendI [OF inp(1)] 2(2) key(1) by simp
      then have "received_since L taken ?k inp0 (s @ [h]) w'"
        unfolding received_since_def using inp 2(4,7) by (intro exI [of _ "inp @ [f]"]) (simp add: w')
      moreover have "sent_since L wrote ?k out0 xs (s @ [h]) w'"
        using snt 2(3,8) by (simp add: sent_since_def w')
      ultimately have "session_since L wrote taken out0 inp0 w0 xs w'"
        unfolding session_since_def using 2(5,6) key mode s by (intro conjI exI [of _ "s @ [h]"]) (simp_all add: w')
      with receive show ?thesis by simp
    qed
  next
    case join_none
    have "session_since L wrote taken out0 inp0 w0 xs ((disconnect_end w)\<lparr>wk_at := Ready\<rparr>)"
      by (rule quiet [where s' = "if wk_connected w then [Disconnected] else []"])
         (simp_all add: disconnect_end_def emit_def no_error_def Let_def)
    with join_none show ?thesis by simp
  next
    case (join_some x)
    with key(3) show ?thesis by simp
  next
    case leave
    have "session_since L wrote taken out0 inp0 w0 xs (recv_leave w)"
      by (rule quiet [where s' = "[Disconnected]"])
         (use mode key in \<open>simp_all add: recv_leave_def emit_def no_error_def\<close>)
    with leave show ?thesis by simp
  qed
qed

lemma session_run:
  assumes "run (worker_step L U (tcp_transport A) W) w acts w'" and "list_all in_session acts"
    and "session_since L wrote taken out0 inp0 w0 xs w"
    and "partial_contract A wrote taken" and "stream_contract A wrote taken" and "libs_quiet wire L"
  shows "session_since L wrote taken out0 inp0 w0 (xs @ texts_sent acts) w'"
  using assms(1-3)
proof (induction arbitrary: xs rule: run.induct)
  case (run_Cons w a w1 acts w')
  then have "session_since L wrote taken out0 inp0 w0 (xs @ texts_sent [a]) w1"
    using session_step [OF assms(4-6) run_Cons.prems(2) _ run_Cons.hyps(1)] by simp
  from run_Cons.IH [OF _ this] run_Cons.prems(1)
  have "session_since L wrote taken out0 inp0 w0 (xs @ texts_sent ([a] @ acts)) w'"
    unfolding texts_sent_append by (simp del: append_assoc add: append_assoc [symmetric])
  then show ?case by simp
qed simp

text \<open>How a session starts.\<close>

lemma established_parts:
  "wk_engine (established m msg peer w) = wk_engine w" "wk_connected (established m msg peer w)"
  "wk_mode (established m msg peer w) = m" "wk_at (established m msg peer w) = wk_at w"
  by (simp_all add: established_def emit_def Let_def)

lemma unlock_parts:
  assumes "unlock L pw w = (ok, v)"
  shows "wk_connected v = wk_connected w" and "wk_at v = wk_at w"
  using quiet_unlock [of w L pw] assms by (simp_all add: quiet_part_def)

lemma connect_established:
  assumes "worker_step L U T W w (RunSlot (StartConnect endpoint pw)) w'" and "\<not> wk_connected w" and "wk_connected w'"
  obtains host port e e' g g' peer msg v where "tc_connect T host port e = (True, e')" and "env g = e'"
    and "runClientHandshake L (tcp_send_fn T) (tcp_recv_fn T) g = (Inr peer, g')"
    and "w' = established TCP msg peer (set_engine g' v)" and "wk_at v = Ready"
proof -
  have at: "wk_at w = Ready" and w': "w' = connect_body L U T endpoint pw w"
    using assms(1,2) by (auto elim: worker_slotE)
  obtain host port where ep: "parseEndpoint U endpoint = Some (host, port)"
    using w' assms(2,3) by (cases "parseEndpoint U endpoint") (auto simp: connect_body_def emit_def)
  obtain ok v where v: "unlock L pw w = (ok, v)" by fastforce
  note parts = unlock_parts [OF v]
  have ok: ok using w' ep v parts assms(2,3) by (cases ok) (auto simp: connect_body_def)
  let ?v = "emit (Status (qt_arg U (qt_arg U ''Connecting to %1:%2 ...'' host) (to_string (unat port)))) v"
  obtain ok2 e where e: "tc_connect T host port (net ?v) = (ok2, e)" by fastforce
  have ok2: ok2
    using w' ep v ok e parts assms(2,3) by (cases ok2) (simp_all add: connect_body_def Let_def, simp add: emit_def set_net_def)
  obtain r g' where g': "runClientHandshake L (tcp_send_fn T) (tcp_recv_fn T) (wk_engine (set_net e ?v)) = (r, g')" by fastforce
  obtain peer where peer: "r = Inr peer"
    using w' ep v ok e ok2 g' parts assms(2,3)
    by (cases r) (simp_all add: connect_body_def Let_def, simp add: emit_def set_net_def set_engine_def)
  have "w' = established TCP ''Handshake complete. Session established (client/TCP).'' peer (set_engine g' ?v)"
    using w' ep v ok e ok2 g' peer by (simp add: connect_body_def Let_def)
  moreover have "env (wk_engine (set_net e ?v)) = e" "wk_at ?v = Ready" using parts(2) at by (simp_all add: set_net_def emit_def)
  ultimately show ?thesis using that [OF _ _ g' [unfolded peer]] e ok2 by simp
qed

lemma host_established:
  assumes "worker_step L U T W w (RunSlot (StartHost port pw)) w'" and "\<not> wk_connected w" and "wk_connected w'"
  obtains e e' g g' peer msg v where "tc_listen_and_accept T port e = (True, e')" and "env g = e'"
    and "runServerHandshake L (tcp_send_fn T) (tcp_recv_fn T) g = (Inr peer, g')"
    and "w' = established TCP msg peer (set_engine g' v)" and "wk_at v = Ready"
proof -
  have at: "wk_at w = Ready" and w': "w' = host_body L T port pw w"
    using assms(1,2) by (auto elim: worker_slotE)
  obtain ok v where v: "unlock L pw w = (ok, v)" by fastforce
  note parts = unlock_parts [OF v]
  have ok: ok using w' v parts assms(2,3) by (cases ok) (auto simp: host_body_def)
  let ?v = "emit (Status (''Hosting on port '' @ to_string (unat port) @ '' ...'')) v"
  obtain ok2 e where e: "tc_listen_and_accept T port (net ?v) = (ok2, e)" by fastforce
  have ok2: ok2
    using w' v ok e parts assms(2,3) by (cases ok2) (simp_all add: host_body_def Let_def, simp add: emit_def set_net_def)
  obtain r g' where g': "runServerHandshake L (tcp_send_fn T) (tcp_recv_fn T) (wk_engine (set_net e ?v)) = (r, g')" by fastforce
  obtain peer where peer: "r = Inr peer"
    using w' v ok e ok2 g' parts assms(2,3)
    by (cases r) (simp_all add: host_body_def Let_def, simp add: emit_def set_net_def set_engine_def)
  have "w' = established TCP ''Handshake complete. Session established (host/TCP).'' peer (set_engine g' ?v)"
    using w' v ok e ok2 g' peer by (simp add: host_body_def Let_def)
  moreover have "env (wk_engine (set_net e ?v)) = e" "wk_at ?v = Ready" using parts(2) at by (simp_all add: set_net_def emit_def)
  ultimately show ?thesis using that [OF _ _ g' [unfolded peer]] e ok2 by simp
qed

lemma session_since_start:
  assumes "on_wire wrote taken (env g) out0 inp0" and "session_ready g" and "wk_at v = Ready"
    and "w = established TCP msg peer (set_engine g v)"
  shows "session_since L wrote taken out0 inp0 w [] w"
  using assms established_parts [of TCP msg peer "set_engine g v"]
  by (auto simp: session_since_def received_since_def sent_since_def on_wire_def set_engine_def)

section \<open>Two workers\<close>

lemma told_frames:
  assumes "gcm_contract (lb_cipher L) view G" and "proto_contract (lb_proto L)"
    and "list_all2 (frame_of L ''gui'' ''peer'' key) fs ls" and "list_all2 (told_of L key) fs rs"
    and "list_all (\<lambda>l. length l < 2 ^ 31) ls"
  shows "rs = map Inr ls"
  using assms(3-5)
proof (induction fs arbitrary: ls rs)
  case (Cons f fs)
  then obtain l ls' r rs' where ls: "ls = l # ls'" "rs = r # rs'" "frame_of L ''gui'' ''peer'' key f l" "told_of L key f r"
    "list_all2 (frame_of L ''gui'' ''peer'' key) fs ls'" "list_all2 (told_of L key) fs rs'"
    by (auto simp: list_all2_Cons1)
  moreover from ls(4) obtain r0 where "read_of L key f r0" "r = map_sum (\<lambda>err. ''Dropping message: '' @ err) id r0"
    unfolding told_of_def by blast
  moreover from read_of_frame [OF assms(1,2) _ _ _ ls(3) this(1)] have "r0 = Inr l"
    using Cons.prems(3) ls(1) by (simp add: ascii_def)
  ultimately show ?case using Cons.IH Cons.prems(3) by simp
qed simp

lemma frames_short:
  assumes "gcm_contract (lb_cipher L) view G" and "proto_contract (lb_proto L)" and "ascii to"
    and "list_all2 (frame_of L sender to key) fs ls" and "list_all (\<lambda>l. length l < 2 ^ 31) ls"
  shows "list_all (\<lambda>f. length f < 2 ^ 32) fs"
  using assms(4,5)
proof (induction fs arbitrary: ls)
  case (Cons f fs)
  then obtain l ls' where "ls = l # ls'" "frame_of L sender to key f l" "list_all2 (frame_of L sender to key) fs ls'"
    by (auto simp: list_all2_Cons1)
  with frame_of_length [OF assms(1-3), of l sender key f] Cons show ?case by auto
qed simp

text \<open>What one side is told, when its stream is a beginning of what the other one wrote.\<close>

lemma session_delivers:
  assumes "gcm_contract (lb_cipher L) view G" and "proto_contract (lb_proto L)"
    and "session_since L wrote taken out0 inp0 w0 xs w" and "session_since L wrote' taken' out0' out0 v0 ys v"
    and "session_key (wk_engine v0) = session_key (wk_engine w0)"
    and "prefix (taken' (sock v)) (wrote (sock w))" and "list_all (\<lambda>f. length f < 2 ^ 32) out0"
    and "list_all (\<lambda>x. length x < 2 ^ 31) xs" and "no_error (drop (length (wk_signals w0)) (wk_signals w))"
  shows "\<exists>ls. told (drop (length (wk_signals v0)) (wk_signals v)) = map Inr ls \<and> prefix ls xs"
proof -
  let ?k = "session_key (wk_engine w0)"
  obtain s where "wk_signals w = wk_signals w0 @ s" "sent_since L wrote ?k out0 xs s w"
    using assms(3) by (auto simp: session_since_def)
  then obtain out where out: "list_all2 (frame_of L ''gui'' ''peer'' ?k) out xs" "wrote (sock w) = stream (out0 @ out)"
    using assms(9) by (auto simp: sent_since_def)
  obtain t where t: "wk_signals v = wk_signals v0 @ t" "received_since L taken' ?k out0 t v"
    using assms(4,5) by (auto simp: session_since_def)
  then obtain inp where inp: "list_all2 (told_of L ?k) inp (told t)" "list_all (\<lambda>f. length f < 2 ^ 32) inp"
    "prefix (stream (out0 @ inp)) (taken' (sock v))"
    by (auto simp: received_since_def)
  have "list_all (\<lambda>f. length f < 2 ^ 32) out"
    by (rule frames_short [OF assms(1,2) _ out(1) assms(8)]) (simp add: ascii_def)
  moreover have "prefix (stream (out0 @ inp)) (stream (out0 @ out))"
    using prefix_order.order_trans [OF inp(3) assms(6)] unfolding out(2) .
  ultimately have "prefix (out0 @ inp) (out0 @ out)"
    using stream_prefix [of "out0 @ inp" "out0 @ out"] inp(2) assms(7) by simp
  then have pre: "prefix inp out" by simp
  define ls where "ls = take (length inp) xs"
  have ls: "prefix ls xs" "list_all2 (frame_of L ''gui'' ''peer'' ?k) inp ls"
    using prefix_list_all2 [OF pre out(1)] by (simp_all add: ls_def)
  have "told t = map Inr ls"
    by (rule told_frames [OF assms(1,2) ls(2) inp(1)]) (use assms(8) in \<open>auto simp: ls_def list_all_iff dest: in_set_takeD\<close>)
  with ls(1) t(1) show ?thesis by auto
qed

lemma first_frame:
  assumes "prefix (stream [f]) b" and "prefix (stream [g]) b" and "length f < 2 ^ 32" and "length g < 2 ^ 32"
  shows "f = g"
proof -
  have "prefix (stream [f]) (stream [g]) \<or> prefix (stream [g]) (stream [f])"
    using prefix_same_cases [OF assms(1,2)] .
  then have "prefix [f] [g] \<or> prefix [g] [f]"
    using stream_prefix [of "[f]" "[g]"] stream_prefix [of "[g]" "[f]"] assms(3,4) by auto
  then show ?thesis by auto
qed

lemma session_since_streams:
  assumes "session_since L wrote taken out0 inp0 w0 xs w"
  shows "prefix (stream out0) (wrote (sock w))" and "prefix (stream inp0) (taken (sock w))"
    and "session_key (wk_engine w) = session_key (wk_engine w0)"
  using assms by (auto simp: session_since_def sent_since_def received_since_def dest: append_prefixD)

text \<open>C8: two users of the GUI over TCP, down to the bytes: one connected, the other one hosted. Nothing is assumed of the
  connection but that what either process reads is a beginning of what the other one wrote. Whatever the slots and threads of
  the two workers do in this session, its keys are equal, and as long as the one side has not reported an error, the
  other one has told its user exactly the texts that were sent, as they were typed, in order, from the first one up to
  where it has read, and has dropped nothing. This holds in both directions at once.\<close>

theorem gui_chat_over_tcp:
  assumes "kem_contract (lb_kem L)" and "hkdf_contract (lb_hkdf L) vh H" and "gcm_contract (lb_cipher L) view G"
    and "proto_contract (lb_proto L)" and "libs_quiet wire L"
    and "stream_contract A wrote taken" and "partial_contract A wrote taken"
    and "stream_contract A' wrote' taken'" and "partial_contract A' wrote' taken'"
    and "worker_step L U (tcp_transport A) W a0 (RunSlot (StartConnect endpoint pw)) a1" and "\<not> wk_connected a0" and "wk_connected a1"
    and "worker_step L U (tcp_transport A') W' b0 (RunSlot (StartHost port pw')) b1" and "\<not> wk_connected b0" and "wk_connected b1"
    and "run (worker_step L U (tcp_transport A) W) a1 acts a" and "list_all in_session acts"
    and "run (worker_step L U (tcp_transport A') W') b1 acts' b" and "list_all in_session acts'"
    and "prefix (taken' (sock b)) (wrote (sock a))" and "prefix (taken (sock a)) (wrote' (sock b))"
    and "list_all (\<lambda>x. length x < 2 ^ 31) (texts_sent acts @ texts_sent acts')"
  shows "session_key (wk_engine a) = session_key (wk_engine b) \<and>
    (no_error (drop (length (wk_signals a1)) (wk_signals a)) \<longrightarrow>
      (\<exists>ls. told (drop (length (wk_signals b1)) (wk_signals b)) = map Inr ls \<and> prefix ls (texts_sent acts))) \<and>
    (no_error (drop (length (wk_signals b1)) (wk_signals b)) \<longrightarrow>
      (\<exists>ls. told (drop (length (wk_signals a1)) (wk_signals a)) = map Inr ls \<and> prefix ls (texts_sent acts')))"
proof -
  obtain host p e e' g g' peer msg v where a: "tc_connect (tcp_transport A) host p e = (True, e')" "env g = e'"
    "runClientHandshake L (tcp_send_fn (tcp_transport A)) (tcp_recv_fn (tcp_transport A)) g = (Inr peer, g')"
    "a1 = established TCP msg peer (set_engine g' v)" "wk_at v = Ready"
    by (rule connect_established [OF assms(10-12)])
  obtain d d' h h' peer' msg' u where b: "tc_listen_and_accept (tcp_transport A') port d = (True, d')" "env h = d'"
    "runServerHandshake L (tcp_send_fn (tcp_transport A')) (tcp_recv_fn (tcp_transport A')) h = (Inr peer', h')"
    "b1 = established TCP msg' peer' (set_engine h' u)" "wk_at u = Ready"
    by (rule host_established [OF assms(13-15)])
  have fresh: "on_wire wrote taken (env g) [] []" "on_wire wrote' taken' (env h) [] []"
    using fresh_on_wire(1) [OF assms(6) a(1)] fresh_on_wire(2) [OF assms(8) b(1)] a(2) b(2) by simp_all
  obtain hello response where c: "te_log (env g') = te_log (env g) @ [Sent hello, Received response]"
    "on_wire wrote taken (env g') [hello] [response]" "length hello < 2 ^ 32"
    by (rule client_on_wire [OF assms(6,5,4) a(3) fresh(1)])
  obtain hello' response' where s: "te_log (env h') = te_log (env h) @ [Received hello', Sent response']"
    "on_wire wrote' taken' (env h') [response'] [hello']" "length response' < 2 ^ 32"
    by (rule server_on_wire [OF assms(8,5,4) b(3) fresh(2)])
  have "session_since L wrote taken [hello] [response] a1 ([] @ texts_sent acts) a"
    using session_run [OF assms(16,17) session_since_start [OF c(2) handshake_ready(1) [OF a(3)] a(5,4)] assms(7,6,5)] .
  then have SA: "session_since L wrote taken [hello] [response] a1 (texts_sent acts) a" by simp
  have "session_since L wrote' taken' [response'] [hello'] b1 ([] @ texts_sent acts') b"
    using session_run [OF assms(18,19) session_since_start [OF s(2) handshake_ready(2) [OF b(3)] b(5,4)] assms(9,8,5)] .
  then have SB: "session_since L wrote' taken' [response'] [hello'] b1 (texts_sent acts') b" by simp
  have len: "length response < 2 ^ 32" "length hello' < 2 ^ 32" using c(2) s(2) by (simp_all add: on_wire_def)
  have eq: "hello' = hello" "response' = response"
    using first_frame [OF prefix_order.order_trans [OF session_since_streams(2) [OF SB] assms(20)] session_since_streams(1) [OF SA] len(2) c(3)]
      first_frame [OF session_since_streams(1) [OF SB] prefix_order.order_trans [OF session_since_streams(2) [OF SA] assms(21)] s(3) len(1)]
    by simp_all
  have "session_key g' = session_key h'"
    using handshake_agree [OF assms(1,2,4) tcp_transport_contract wire_quiet [OF assms(5)] tcp_transport_contract wire_quiet [OF assms(5)]
        a(3) b(3) c(1) s(1) [unfolded eq]] by simp
  then have key: "session_key (wk_engine a1) = session_key (wk_engine b1)"
    using a(4) b(4) by (simp add: established_parts)
  have short: "list_all (\<lambda>x. length x < 2 ^ 31) (texts_sent acts)" "list_all (\<lambda>x. length x < 2 ^ 31) (texts_sent acts')"
    using assms(22) by simp_all
  have "list_all (\<lambda>f. length f < 2 ^ 32) [hello]" "list_all (\<lambda>f. length f < 2 ^ 32) [response]" using c(3) len(1) by simp_all
  then show ?thesis
    using session_delivers [OF assms(3,4) SA SB [unfolded eq] key [symmetric] assms(20) _ short(1)]
      session_delivers [OF assms(3,4) SB [unfolded eq] SA key assms(21) _ short(2)]
      session_since_streams(3) [OF SA] session_since_streams(3) [OF SB] key by simp
qed

end
