(* ===== verification/Gui_Talk_Witnesses.thy ===== *)
theory Gui_Talk_Witnesses
  imports Demo_Witnesses Gui_Talk
begin

text \<open>Two GUIs on the concrete libraries of Reference-Lib, over sockets with prepared input: one of them sends a message.\<close>

definition g_wo :: "(sock, unit) tcp_env ws_obj" where
  "g_wo = \<lparr>wo_new = id, wo_connect_url = (\<lambda>_ e. (True, e)), wo_send = (\<lambda>_ e. (True, e)), wo_recv = (\<lambda>e. (None, e)), wo_waits = (\<lambda>_. False),
     wo_close = id, wo_reset = id\<rparr>"

definition g_start :: "bytes \<Rightarrow> (sock, unit) tcp_env worker" where
  "g_start inp = worker_init (l_blank (d_env inp [] [] []))"

definition g_run :: "slot \<Rightarrow> (sock, unit) tcp_env worker \<Rightarrow> (sock, unit) tcp_env worker" where
  "g_run = run_slot b_libs b_qt (tcp_transport d_asio) g_wo"

definition g_client :: "(sock, unit) tcp_env worker" where
  "g_client = g_run (StartConnect ''h:5555'' ''pw'') (g_start (tcp_encode b_response))"

definition g_server :: "bytes \<Rightarrow> (sock, unit) tcp_env worker" where
  "g_server r = g_run (StartHost 5555 ''pw'') (g_start (tcp_encode b_hello @ r))"

abbreviation g_client_env :: "(sock, unit) tcp_env" where
  "g_client_env \<equiv> d_env [] (tcp_encode b_hello) (tcp_encode b_response) [Sent b_hello, Received b_response]"

abbreviation g_server_env :: "bytes \<Rightarrow> (sock, unit) tcp_env" where
  "g_server_env r \<equiv> d_env r (tcp_encode b_response) (tcp_encode b_hello) [Received b_hello, Sent b_response]"

lemma g_partial: "partial_contract d_asio sk_wrote sk_taken"
  by (simp add: partial_contract_def d_asio_def)

lemma g_client:
  "wk_engine g_client = d_session g_client_env" "wk_connected g_client" "wk_mode g_client = TCP" "wk_at g_client = Ready"
  "wk_rx g_client = RxRunning" "\<not> wk_aborted g_client"
  by (simp_all add: g_client_def g_run_def d_tcp_def [symmetric] connect_body_def b_endpoint unlock_def d_identity set_engine_def set_net_def
      emit_def worker_init_def g_start_def established_def d_client_run d_calls d_env_of Let_def)

lemma g_server:
  "wk_engine (g_server r) = d_session (g_server_env r)" "wk_connected (g_server r)" "wk_mode (g_server r) = TCP"
  "wk_at (g_server r) = Ready" "wk_rx (g_server r) = RxRunning" "\<not> wk_aborted (g_server r)"
  by (simp_all add: g_server_def g_run_def d_tcp_def [symmetric] host_body_def unlock_def d_identity set_engine_def set_net_def
      emit_def worker_init_def g_start_def established_def d_server_run d_calls d_env_of Let_def)

abbreviation g_step :: "(sock, unit) tcp_env worker \<Rightarrow> worker_act \<Rightarrow> (sock, unit) tcp_env worker \<Rightarrow> bool" where
  "g_step \<equiv> worker_step b_libs b_qt (tcp_transport d_asio) g_wo"

lemma g_slot: "wk_at w = Ready \<Longrightarrow> \<not> wk_aborted w \<Longrightarrow> g_step w (RunSlot s) (g_run s w)"
  unfolding g_run_def by (rule worker_step.slot)

lemma gui_chat_over_tcp_witness:
  "\<exists>f a b. run g_step g_client [RunSlot (SendMessage ''hello'')] a \<and> run g_step (g_server (tcp_encode f)) [RxIteration] b \<and>
     told (drop (length (wk_signals (g_server (tcp_encode f)))) (wk_signals b)) = [Inr ''hello'']"
proof -
  let ?A = "tcp_transport d_asio :: (sock, unit) tcp_env tcp_obj"
  obtain f where f: "encryptAndSerializeMessage b_libs ''hello'' ''gui'' ''peer'' (d_session g_client_env) = (Inr f, d_session g_client_env)"
    by (rule b_encrypt [where w = "d_session g_client_env" and body = "''hello''" and sid = "''gui''" and uid = "''peer''"])
       (simp_all add: d_env_of)
  then have frame: "frame_of (b_libs :: ((sock, unit) tcp_env, tobj) libs) ''gui'' ''peer'' t_key f ''hello''"
    unfolding frame_of_def by (intro exI [of _ "d_session g_client_env"]) (simp add: d_env_of)
  have len: "length f < 2 ^ 32"
    using frame_of_length [OF _ _ _ _ frame] t_gcm_contract t_proto_contract by (fastforce simp: ascii_def)
  let ?b1 = "g_server (tcp_encode f)"
  define a where "a = g_run (SendMessage ''hello'') g_client"
  define b where "b = recv_iteration b_libs ?A g_wo ?b1"
  have a: "net a = d_env [] (tcp_encode b_hello @ tcp_encode f) (tcp_encode b_response) [Sent b_hello, Received b_response, Sent f]"
    "wk_signals a = wk_signals g_client"
    using f by (simp_all add: a_def g_run_def d_tcp_def [symmetric] send_message_def g_client set_engine_def set_net_def d_calls d_env_of)
  have got: "tc_recv ?A (g_server_env (tcp_encode f)) = (Some f, d_env [] (tcp_encode b_response) (tcp_encode b_hello @ tcp_encode f)
      [Received b_hello, Sent b_response, Received f])" (is "_ = (_, ?e)")
    using d_calls(4) [OF len, of "[]"] by (simp add: d_tcp_def)
  obtain e where dec: "parseAndDecryptMessage b_libs f (d_session ?e) = (Inr ''hello'', (d_session ?e)\<lparr>env := e\<rparr>)"
    using b_decrypt [OF f, of "d_session ?e"] by (auto simp: d_env_of ascii_def)
  have wired: "wire e = wire ?e" using parse_quiet [OF b_libs_still, of wire f "d_session ?e"] dec by (simp add: d_env_of)
  have b: "net b = e" "wk_signals b = wk_signals ?b1 @ [MessageReceived ''hello'']"
    using dec by (simp_all add: b_def recv_iteration_def g_server set_engine_def set_net_def emit_def got d_env_of)
  have "g_step g_client (RunSlot (SendMessage ''hello'')) a" unfolding a_def by (rule g_slot [OF g_client(4,6)])
  moreover have "\<not> recv_waits ?A g_wo ?b1"
    using d_recv [OF _ len, of "te_sock (g_server_env (tcp_encode f))" "[]"]
    by (simp add: recv_waits_def g_server d_env_of tcp_transport_def d_env_def)
  then have "g_step ?b1 RxIteration b" unfolding b_def by (rule worker_step.receive [OF g_server(6,5)])
  ultimately have runs: "run g_step g_client [RunSlot (SendMessage ''hello'')] a" "run g_step ?b1 [RxIteration] b" by blast+
  have starts: "g_step (g_start (tcp_encode b_response)) (RunSlot (StartConnect ''h:5555'' ''pw'')) g_client"
    "g_step (g_start (tcp_encode b_hello @ tcp_encode f)) (RunSlot (StartHost 5555 ''pw'')) ?b1"
    unfolding g_client_def g_server_def by (rule g_slot; simp add: g_start_def worker_init_def)+
  have "no_error (drop (length (wk_signals g_client)) (wk_signals a)) \<longrightarrow>
      (\<exists>ls. told (drop (length (wk_signals ?b1)) (wk_signals b)) = map Inr ls \<and> prefix ls (texts_sent [RunSlot (SendMessage ''hello'')]))"
    using wired
    by (intro gui_chat_over_tcp [where vh = t_hview and H = t_H and view = t_gview and G = t_gcm, OF _ _ _ _ b_libs_still d_stream g_partial
          d_stream g_partial starts(1) _ g_client(2) starts(2) _ g_server(2) runs(1) _ runs(2), THEN conjunct2, THEN conjunct1])
       (simp_all add: t_contracts t_gcm_contract t_proto_contract g_start_def worker_init_def in_session_def a b(1) wire_def d_env_def)
  then obtain ls where "told (drop (length (wk_signals ?b1)) (wk_signals b)) = map Inr ls" "prefix ls [''hello'']"
    using a(2) by auto
  then have "told (drop (length (wk_signals ?b1)) (wk_signals b)) = [Inr ''hello'']" using b(2) by auto
  with runs show ?thesis by blast
qed

end
