(* ===== verification/Wakeup.thy ===== *)
theory Wakeup
  imports Transport Steps
begin

text \<open>
  The condition variable behind \<open>recv\<close>: \<open>cv.wait\<close> with its predicate against a close in another thread, at the
  granularity of the mutex. \<^verbatim>\<open>tools/engine_loopback_test.cpp\<close> closes a channel under the mutex,
  \<open>WebSocketTransport::close\<close> in \<^verbatim>\<open>ws_transport.cpp\<close> does not take it.
\<close>

section \<open>The two threads\<close>

text \<open>The thread in \<open>recv\<close>: before it has the mutex, with it before the test, after a test that failed, asleep without
  it, returned. The wait gives the mutex up and falls asleep in one step; it does not wake up without being notified.\<close>

datatype waiter = Locking | Testing | Falling | Asleep | Returned

text \<open>The thread that closes: before it takes the mutex, before the assignment, before \<open>notify_all\<close>, done.\<close>

datatype closer = ToLock | ToSet | ToNotify | Done

record cv_state =
  cv_channel :: channel
  cv_mutex :: bool
  cv_waiter :: waiter
  cv_closer :: closer

definition cv_init :: cv_state where
  "cv_init = \<lparr>cv_channel = \<lparr>ch_q = [], ch_closed = False\<rparr>, cv_mutex = False, cv_waiter = Locking, cv_closer = ToLock\<rparr>"

datatype cv_act = LockWait | Test | Sleep | BeginClose | SetClosed | NotifyAll

text \<open>\<open>locked\<close>: the closing thread holds the mutex from its first step to its last.\<close>

fun cv_next :: "bool \<Rightarrow> cv_state \<Rightarrow> cv_act \<Rightarrow> cv_state option" where
  "cv_next locked s LockWait =
     (if cv_waiter s = Locking \<and> \<not> cv_mutex s then Some (s\<lparr>cv_waiter := Testing, cv_mutex := True\<rparr>) else None)"
| "cv_next locked s Test =
     (if cv_waiter s \<noteq> Testing then None
      else if ch_q (cv_channel s) \<noteq> [] \<or> ch_closed (cv_channel s)
      then Some (s\<lparr>cv_waiter := Returned, cv_mutex := False\<rparr>)
      else Some (s\<lparr>cv_waiter := Falling\<rparr>))"
| "cv_next locked s Sleep =
     (if cv_waiter s = Falling then Some (s\<lparr>cv_waiter := Asleep, cv_mutex := False\<rparr>) else None)"
| "cv_next locked s BeginClose =
     (if cv_closer s \<noteq> ToLock then None
      else if locked then (if cv_mutex s then None else Some (s\<lparr>cv_closer := ToSet, cv_mutex := True\<rparr>))
      else Some (s\<lparr>cv_closer := ToSet\<rparr>))"
| "cv_next locked s SetClosed =
     (if cv_closer s = ToSet
      then Some (s\<lparr>cv_channel := (cv_channel s)\<lparr>ch_closed := True\<rparr>, cv_closer := ToNotify\<rparr>) else None)"
| "cv_next locked s NotifyAll =
     (if cv_closer s \<noteq> ToNotify then None
      else (let s = (if cv_waiter s = Asleep then s\<lparr>cv_waiter := Locking\<rparr> else s);
                s = (if locked then s\<lparr>cv_mutex := False\<rparr> else s)
            in Some (s\<lparr>cv_closer := Done\<rparr>)))"

definition cv_step :: "bool \<Rightarrow> cv_state \<Rightarrow> cv_act \<Rightarrow> cv_state \<Rightarrow> bool" where
  "cv_step locked s a s' \<longleftrightarrow> cv_next locked s a = Some s'"

section \<open>With the mutex\<close>

definition cv_inv :: "cv_state \<Rightarrow> bool" where
  "cv_inv s \<longleftrightarrow>
     cv_mutex s = (cv_waiter s \<in> {Testing, Falling} \<or> cv_closer s \<in> {ToSet, ToNotify}) \<and>
     \<not> (cv_waiter s \<in> {Testing, Falling} \<and> cv_closer s \<in> {ToSet, ToNotify}) \<and>
     ch_closed (cv_channel s) = (cv_closer s \<in> {ToNotify, Done}) \<and>
     (cv_waiter s = Falling \<longrightarrow> \<not> ch_closed (cv_channel s)) \<and>
     (cv_waiter s = Asleep \<longrightarrow> cv_closer s \<noteq> Done)"

lemma cv_inv_step: "cv_inv s \<Longrightarrow> cv_step True s a s' \<Longrightarrow> cv_inv s'"
  by (cases a) (auto simp: cv_step_def cv_inv_def Let_def split: if_splits)

interpretation cv: step_invariant "cv_step True" cv_init cv_inv
  by unfold_locales (simp add: cv_inv_def cv_init_def, rule cv_inv_step)

lemma cv_progress:
  assumes "cv_inv s" and "cv_waiter s \<noteq> Returned"
  shows "\<exists>a s'. cv_step True s a s'"
proof (cases "cv_waiter s")
  case Locking
  have "cv_step True s LockWait (s\<lparr>cv_waiter := Testing, cv_mutex := True\<rparr>)" if "\<not> cv_mutex s"
    using that Locking by (simp add: cv_step_def)
  moreover have "\<exists>a s'. cv_step True s a s'" if "cv_closer s = ToSet"
    using that by (auto simp: cv_step_def intro!: exI [of _ SetClosed])
  moreover have "\<exists>a s'. cv_step True s a s'" if "cv_closer s = ToNotify"
    using that by (auto simp: cv_step_def Let_def intro!: exI [of _ NotifyAll])
  ultimately show ?thesis using assms(1) Locking unfolding cv_inv_def by (cases "cv_closer s") auto
next
  case Testing
  then show ?thesis by (auto simp: cv_step_def intro!: exI [of _ Test])
next
  case Falling
  then show ?thesis by (auto simp: cv_step_def intro!: exI [of _ Sleep])
next
  case Asleep
  have "\<exists>a s'. cv_step True s a s'" if "cv_closer s = ToLock"
    using that Asleep assms(1) by (auto simp: cv_step_def cv_inv_def intro!: exI [of _ BeginClose])
  moreover have "\<exists>a s'. cv_step True s a s'" if "cv_closer s = ToSet"
    using that by (auto simp: cv_step_def intro!: exI [of _ SetClosed])
  moreover have "\<exists>a s'. cv_step True s a s'" if "cv_closer s = ToNotify"
    using that by (auto simp: cv_step_def Let_def intro!: exI [of _ NotifyAll])
  ultimately show ?thesis using assms(1) Asleep unfolding cv_inv_def by (cases "cv_closer s") simp_all
qed (use assms(2) in simp)

section \<open>Without it\<close>

text \<open>The close falls between the test and the sleep.\<close>

definition lost_acts :: "cv_act list" where
  "lost_acts = [LockWait, Test, BeginClose, SetClosed, NotifyAll, Sleep]"

definition lost_state :: cv_state where
  "lost_state = \<lparr>cv_channel = \<lparr>ch_q = [], ch_closed = True\<rparr>, cv_mutex = False, cv_waiter = Asleep, cv_closer = Done\<rparr>"

lemma lost_run: "run (cv_step False) cv_init lost_acts lost_state"
  by (simp add: lost_acts_def run_Cons_simp cv_step_def cv_init_def lost_state_def)

lemma lost_stuck: "\<not> cv_step False lost_state a s"
  by (cases a) (simp_all add: cv_step_def lost_state_def)

text \<open>C40: closing an empty channel always lets the thread that waits in \<open>recv\<close> return if, and only if, the closing thread
  holds the mutex: without it there is an execution that ends with the channel closed, both threads without a further step and
  one of them asleep in \<open>recv\<close>.\<close>

theorem close_wakes_iff_locked:
  "(\<nexists>acts s. run (cv_step locked) cv_init acts s \<and> (\<nexists>a s'. cv_step locked s a s') \<and> cv_waiter s \<noteq> Returned) = locked"
proof (cases locked)
  case True
  then show ?thesis using cv.reach_inv cv_progress by auto
next
  case False
  have "cv_waiter lost_state \<noteq> Returned" by (simp add: lost_state_def)
  with False show ?thesis using lost_run lost_stuck by auto
qed

end
