(* ===== verification/Gui_Close.thy ===== *)
theory Gui_Close
  imports Gui Tcp_Demo Wakeup
begin

text \<open>
  The end of the GUI over its own transports: \<open>~EngineWorker\<close> joins the receiving thread, which may be in
  \<open>TcpTransport::recv\<close> or in \<open>WebSocketTransport::recv\<close>.
\<close>

section \<open>The transports of the worker\<close>

text \<open>
  The outside of a GUI next to its TCP socket: the members of its WebSocketTransport, and where in \<open>recv\<close> the receiving thread
  is when the next \<open>close\<close> falls. \<open>Falling\<close>: it has found the inbox empty and falls asleep only after \<open>notify_all\<close>.
\<close>

record ('q, 'x) qt_net =
  qn_ws :: "'q ws_transport"
  qn_waiter :: waiter
  qn_rest :: 'x

type_synonym ('s, 'q, 'x) gui_env = "('s, ('q, 'x) qt_net) tcp_env"

text \<open>QWebSocket, and \<open>connect_url\<close> with its event loop.\<close>

record ('q, 'e) qt_socket =
  qs_fresh :: 'q
  qs_connect_url :: "string \<Rightarrow> 'e \<Rightarrow> bool \<times> 'e"
  qs_send :: "bytes \<Rightarrow> int \<Rightarrow> 'q \<Rightarrow> int \<times> 'q"
  qs_close :: "'q \<Rightarrow> 'q"

text \<open>What an unlocked close makes of the waiting thread; \<open>after_close_run\<close> derives it from the steps of the two threads. A
  thread that found a frame in the inbox has left the wait.\<close>

fun after_close :: "waiter \<Rightarrow> waiter" where
  "after_close Asleep = Locking"
| "after_close Falling = Asleep"
| "after_close r = r"

lemma after_close_run:
  assumes "cv_closer s = ToLock"
  shows "\<exists>acts s'. run (cv_step False) s acts s' \<and> cv_closer s' = Done \<and> ch_closed (cv_channel s') \<and>
    cv_waiter s' = after_close (cv_waiter s)"
proof -
  let ?acts = "[BeginClose, SetClosed, NotifyAll] @ (if cv_waiter s = Falling then [Sleep] else [])"
  have "\<exists>s'. run (cv_step False) s ?acts s' \<and> cv_closer s' = Done \<and> ch_closed (cv_channel s') \<and> cv_waiter s' = after_close (cv_waiter s)"
    using assms by (cases "cv_waiter s") (simp_all add: run_Cons_simp cv_step_def Let_def)
  then show ?thesis by blast
qed

definition set_ws :: "'q ws_transport \<Rightarrow> ('s, 'q, 'x) gui_env \<Rightarrow> ('s, 'q, 'x) gui_env" where
  "set_ws w e = e\<lparr>te_outside := (te_outside e)\<lparr>qn_ws := w\<rparr>\<rparr>"

definition close_ws :: "('q, ('s, 'q, 'x) gui_env) qt_socket \<Rightarrow> ('s, 'q, 'x) gui_env \<Rightarrow> ('s, 'q, 'x) gui_env" where
  "close_ws S e =
     (let e = set_ws (ws_close (qs_close S) (qn_ws (te_outside e))) e in
      e\<lparr>te_outside := (te_outside e)\<lparr>qn_waiter :=
        if ws_inbox (qn_ws (te_outside e)) = [] then after_close (qn_waiter (te_outside e)) else Returned\<rparr>\<rparr>)"

text \<open>A thread that missed the notification of a close sleeps on; otherwise \<open>recv\<close> waits as \<open>ws_recv\<close> says.\<close>

definition ws_object :: "('q, ('s, 'q, 'x) gui_env) qt_socket \<Rightarrow> ('s, 'q, 'x) gui_env ws_obj" where
  "ws_object S = \<lparr>
     wo_new = set_ws \<lparr>ws_connected = False, ws_closed = False, ws_inbox = [], ws_socket = qs_fresh S\<rparr>,
     wo_connect_url = qs_connect_url S,
     wo_send = (\<lambda>f e. case ws_send (qs_send S) f (qn_ws (te_outside e)) of (ok, w) \<Rightarrow> (ok, set_ws w e)),
     wo_recv = (\<lambda>e. case ws_recv (qn_ws (te_outside e)) of (Blocked, w) \<Rightarrow> (None, e) | (Ret r, w) \<Rightarrow> (r, set_ws w e)),
     wo_waits = (\<lambda>e. ws_closed (qn_ws (te_outside e)) \<and> qn_waiter (te_outside e) = Asleep \<or>
       fst (ws_recv (qn_ws (te_outside e))) = Blocked),
     wo_close = close_ws S,
     wo_reset = close_ws S\<rparr>"

section \<open>They drain after a close\<close>

text \<open>A socket of asio that was closed: no read gives data; it throws, or it was begun before and does not return.\<close>

definition closed_contract :: "('s, 'ep) asio \<Rightarrow> ('s \<Rightarrow> bool) \<Rightarrow> bool" where
  "closed_contract A shut \<longleftrightarrow>
     (\<forall>s. shut (asio_close A s)) \<and>
     (\<forall>n s. shut s \<and> 0 < n \<longrightarrow> shut (snd (asio_read A n s)) \<and> (\<forall>b. fst (asio_read A n s) \<noteq> Ret (Some b)))"

definition gui_wire :: "('s, 'q, 'x) gui_env \<Rightarrow> 's \<times> 'q ws_transport \<times> waiter" where
  "gui_wire e = (te_sock e, qn_ws (te_outside e), qn_waiter (te_outside e))"

lemma closed_recv:
  assumes "closed_contract A shut" and "shut s"
  shows "shut (snd (tcp_recv A s))" and "fst (tcp_recv A s) \<noteq> Ret (Some f)"
proof -
  obtain r s1 where r: "asio_read A 4 s = (r, s1)" by fastforce
  have "shut (snd (asio_read A 4 s))" "\<And>b. fst (asio_read A 4 s) \<noteq> Ret (Some b)"
    using assms unfolding closed_contract_def by (metis zero_less_numeral)+
  with r have s1: "shut s1" "\<And>b. r \<noteq> Ret (Some b)" by simp_all
  show "shut (snd (tcp_recv A s))" "fst (tcp_recv A s) \<noteq> Ret (Some f)"
    using r s1 assms(2) by (auto simp: tcp_recv_def split: await.split option.split)
qed

lemma tcp_drains:
  assumes C: "closed_contract A shut" and Q: "libs_quiet gui_wire L"
  shows "drains L (tc_close (tcp_transport A)) (tc_recv (tcp_transport A)) (\<lambda>e. shut (te_sock e)) (\<lambda>_. 0)"
  unfolding drains_def
proof (intro conjI allI impI)
  show "shut (te_sock (tc_close (tcp_transport A) e))" for e :: "('a, 'q, 'x) gui_env"
    using C by (simp add: tcp_transport_def tcp_close_def closed_contract_def)
  fix e :: "('a, 'q, 'x) gui_env"
  assume shut: "shut (te_sock e)"
  note step = closed_recv [OF C shut]
  show "shut (te_sock (snd (tc_recv (tcp_transport A) e)))"
    using step(1) shut by (auto simp: tcp_transport_def split: prod.split await.split option.split)
  assume "fst (tc_recv (tcp_transport A) e) \<noteq> None"
  then show "(0 :: nat) < 0" using step(2) by (auto simp: tcp_transport_def split: prod.splits await.splits option.splits)
next
  show "libs_quiet (\<lambda>e. (shut (te_sock e), 0 :: nat)) L"
    using libs_quiet_of [OF Q, of "\<lambda>x. (shut (fst x), 0 :: nat)"] by (simp add: gui_wire_def)
qed

lemma ws_recv_closed:
  assumes "ws_closed w"
  shows "\<exists>r w'. ws_recv w = (Ret r, w') \<and> ws_closed w' \<and> (r \<noteq> None \<longrightarrow> length (ws_inbox w') < length (ws_inbox w))"
  using assms by (cases "ws_inbox w") (simp_all add: ws_recv_def)

lemma ws_drains:
  fixes S :: "('q, ('s, 'q, 'x) gui_env) qt_socket" and L :: "(('s, 'q, 'x) gui_env, 'h) libs"
  assumes Q: "libs_quiet gui_wire L"
  shows "drains L (wo_close (ws_object S)) (wo_recv (ws_object S)) (\<lambda>e. ws_closed (qn_ws (te_outside e)))
    (\<lambda>e. length (ws_inbox (qn_ws (te_outside e))))"
  unfolding drains_def
proof (intro conjI allI impI)
  show "ws_closed (qn_ws (te_outside (wo_close (ws_object S) e)))" for e :: "('s, 'q, 'x) gui_env"
    by (simp add: ws_object_def close_ws_def set_ws_def ws_close_def Let_def)
  fix e :: "('s, 'q, 'x) gui_env"
  assume "ws_closed (qn_ws (te_outside e))"
  from ws_recv_closed [OF this] obtain r w' where r: "ws_recv (qn_ws (te_outside e)) = (Ret r, w')" "ws_closed w'"
    "r \<noteq> None \<longrightarrow> length (ws_inbox w') < length (ws_inbox (qn_ws (te_outside e)))" by blast
  then show "ws_closed (qn_ws (te_outside (snd (wo_recv (ws_object S) e))))" by (simp add: ws_object_def set_ws_def)
  assume "fst (wo_recv (ws_object S) e) \<noteq> None"
  with r show "length (ws_inbox (qn_ws (te_outside (snd (wo_recv (ws_object S) e))))) < length (ws_inbox (qn_ws (te_outside e)))"
    by (simp add: ws_object_def set_ws_def)
next
  show "libs_quiet (\<lambda>e. (ws_closed (qn_ws (te_outside e)), length (ws_inbox (qn_ws (te_outside e))))) L"
    using libs_quiet_of [OF Q, of "\<lambda>x. (ws_closed (fst (snd x)), length (ws_inbox (fst (snd x))))"] by (simp add: gui_wire_def)
qed

section \<open>The join\<close>

text \<open>What the receiving thread leaves as it is while the worker is being destroyed: the mode, and where the close met it.\<close>

definition left_alone :: "('s, 'q, 'x) gui_env worker \<Rightarrow> mode \<times> bool \<times> waiter" where
  "left_alone w = (wk_mode w, wk_ws w, qn_waiter (te_outside (net w)))"

lemma waiter_kept:
  assumes Q: "libs_quiet gui_wire L"
  shows "left_alone (recv_iteration L (tcp_transport A) (ws_object S) w) = left_alone w"
proof -
  let ?T = "tcp_transport A" and ?W = "ws_object S"
  obtain r e where re: "worker_recv ?T ?W w = (r, e)" by fastforce
  then have e: "qn_waiter (te_outside e) = qn_waiter (te_outside (net w))"
    by (auto simp: worker_recv_def tcp_transport_def ws_object_def set_ws_def
        split: if_splits prod.splits await.splits option.splits)
  show ?thesis
  proof (cases r)
    case None
    with re e show ?thesis by (simp add: recv_iteration_def worker_recv_def set_net_def left_alone_def)
  next
    case (Some f)
    obtain r2 g where dec: "parseAndDecryptMessage L f ((wk_engine w)\<lparr>env := e\<rparr>) = (r2, g)" by fastforce
    have "gui_wire (env g) = gui_wire e" using parse_quiet [OF Q, of f "(wk_engine w)\<lparr>env := e\<rparr>"] dec by simp
    then have "qn_waiter (te_outside (env g)) = qn_waiter (te_outside (net w))" using e by (simp add: gui_wire_def)
    with re Some dec show ?thesis
      by (cases r2) (simp_all add: recv_iteration_def worker_recv_def [symmetric] set_net_def set_engine_def emit_def left_alone_def)
  qed
qed

lemma left_alone_step:
  assumes Q: "libs_quiet gui_wire L" and "gui_step L Qt (tcp_transport A) (ws_object S) H g a g'"
    and "gu_at g = Deleting \<and> left_alone (gu_worker g) = x \<or> gu_at g = Gone"
    and "gu_at g = Deleting \<longrightarrow> wk_at (gu_worker g) \<noteq> Ready"
  shows "gu_at g' = Deleting \<and> left_alone (gu_worker g') = x \<or> gu_at g' = Gone"
  using assms(2)
proof (cases rule: gui_step.cases)
  case (thread b v)
  show ?thesis
    using thread(4)
  proof (cases rule: worker_step.cases)
    case receive
    with thread assms(3) show ?thesis by (auto simp: waiter_kept [OF Q])
  next
    case leave
    with thread assms(3) show ?thesis by (auto simp: left_alone_def recv_leave_def emit_def)
  qed (use thread assms(3) in auto)
qed (use assms(3,4) in auto)

lemma left_alone_run:
  assumes Q: "libs_quiet gui_wire L"
  shows "run (gui_step L Qt (tcp_transport A) (ws_object S) H) g acts g' \<Longrightarrow>
    gu_at g = Deleting \<and> left_alone (gu_worker g) = x \<or> gu_at g = Gone \<Longrightarrow>
    run (gui_step L Qt (tcp_transport A) (ws_object S) H) (gui_init H ts e) acts0 g \<Longrightarrow>
    gu_at g' = Deleting \<and> left_alone (gu_worker g') = x \<or> gu_at g' = Gone"
proof (induction arbitrary: acts0 rule: run.induct)
  case (run_Cons g a g1 acts g')
  have "gu_at g = Deleting \<longrightarrow> wk_at (gu_worker g) \<noteq> Ready"
    using gui_run_parts [OF run_Cons.prems(2)] by (simp add: gui_parts_def)
  from left_alone_step [OF Q run_Cons.hyps(1) run_Cons.prems(1) this]
  show ?case by (rule run_Cons.IH) (rule run_snoc [OF run_Cons.prems(2) run_Cons.hyps(1)])
qed simp

text \<open>Where the first close leaves the three.\<close>

lemma delete_leaves:
  "left_alone (worker_delete (tcp_transport A) (ws_object S) w) = (wk_mode w, wk_ws w,
     if wk_mode w = WS \<and> wk_ws w
     then (if ws_inbox (qn_ws (te_outside (net w))) = [] then after_close (qn_waiter (te_outside (net w))) else Returned)
     else qn_waiter (te_outside (net w)))"
  by (simp add: left_alone_def worker_delete_def disconnect_begin_def set_net_def tcp_transport_def ws_object_def close_ws_def
      set_ws_def ws_close_def Let_def)

lemma after_close_Asleep: "(after_close r = Asleep) = (r = Falling)"
  by (cases r) simp_all

text \<open>C34: once the worker is being destroyed, with its own transports, at most three more steps than there are frames in the
  inbox of its WebSocket follow, and none of them calls \<open>std::terminate\<close>. They end with the thread joined, the session reported
  as over and the program gone, with two exceptions, in which \<open>~EngineWorker\<close> never leaves the join and the window never
  closes: over TCP, when a read that was begun before the socket was closed does not return; through the relay, when the close
  fell between the test of the empty inbox in \<open>recv\<close> and the sleep, the lost wakeup of \<open>close_wakes_iff_locked\<close>. Of asio it is
  assumed that a closed socket gives no data, of the callbacks of the libraries that they leave the connections alone.\<close>

theorem gui_shutdown:
  assumes "closed_contract A shut" and "libs_quiet gui_wire L"
    and "run (gui_step L Qt (tcp_transport A) (ws_object S) H) (gui_init H ts e) acts0 g0"
    and "gui_step L Qt (tcp_transport A) (ws_object S) H g0 LeaveLoop g"
    and "run (gui_step L Qt (tcp_transport A) (ws_object S) H) g acts g'"
  shows "length acts \<le> length (ws_inbox (qn_ws (te_outside (net (gu_worker g0))))) + 3 \<and> \<not> wk_aborted (gu_worker g') \<and>
    (if gu_at g' = Gone then wk_rx (gu_worker g') = NoThread \<and> \<not> wk_connected (gu_worker g') \<and>
       (\<nexists>a g2. gui_step L Qt (tcp_transport A) (ws_object S) H g' a g2)
     else (\<nexists>a g2. gui_step L Qt (tcp_transport A) (ws_object S) H g' a g2) =
       (wk_rx (gu_worker g') = RxRunning \<and>
        (if wk_mode (gu_worker g0) = TCP then fst (tcp_recv A (te_sock (net (gu_worker g')))) = Blocked
         else wk_mode (gu_worker g0) = WS \<and> wk_ws (gu_worker g0) \<and>
           ws_inbox (qn_ws (te_outside (net (gu_worker g0)))) = [] \<and> qn_waiter (te_outside (net (gu_worker g0))) = Falling)))"
proof -
  let ?T = "tcp_transport A" and ?W = "ws_object S" and ?w0 = "gu_worker g0" and ?w' = "gu_worker g'"
  let ?box = "\<lambda>e. length (ws_inbox (qn_ws (te_outside e)))"
  let ?c = "by_mode (\<lambda>e. shut (te_sock e)) (\<lambda>e. ws_closed (qn_ws (te_outside e))) True"
  note steps = shutdown_steps [OF tcp_drains [OF assms(1,2)] ws_drains [OF assms(2)] assms(3-5)]
  have "by_mode (\<lambda>_. 0) ?box 0 (gu_worker g) \<le> ?box (net ?w0)"
    unfolding steps(6)
    by (simp add: by_mode_def worker_delete_def disconnect_begin_def set_net_def tcp_transport_def ws_object_def close_ws_def
        set_ws_def ws_close_def Let_def)
  then have len: "length acts \<le> ?box (net ?w0) + 3" using steps(1) by linarith
  have gone: "wk_rx ?w' = NoThread \<and> \<not> wk_connected ?w'" if "gu_at g' = Gone" using steps(4) that by (simp add: deleting_def)
  have stuck: "recv_waits ?T ?W ?w' =
      (if wk_mode ?w0 = TCP then fst (tcp_recv A (te_sock (net ?w'))) = Blocked
       else wk_mode ?w0 = WS \<and> wk_ws ?w0 \<and> ws_inbox (qn_ws (te_outside (net ?w0))) = [] \<and>
         qn_waiter (te_outside (net ?w0)) = Falling)" if "gu_at g' \<noteq> Gone" "wk_rx ?w' = RxRunning"
  proof -
    have "left_alone ?w' = left_alone (gu_worker g)"
      using left_alone_run [OF assms(2,5) _ run_snoc [OF assms(3,4)]] steps(5) that(1) by blast
    then have eqs: "wk_mode ?w' = wk_mode ?w0" "wk_ws ?w' = wk_ws ?w0"
      "qn_waiter (te_outside (net ?w')) = (if wk_mode ?w0 = WS \<and> wk_ws ?w0
         then (if ws_inbox (qn_ws (te_outside (net ?w0))) = [] then after_close (qn_waiter (te_outside (net ?w0))) else Returned)
         else qn_waiter (te_outside (net ?w0)))"
      unfolding steps(6) delete_leaves by (simp_all add: left_alone_def)
    have closed: "ws_closed (qn_ws (te_outside (net ?w')))" if "wk_mode ?w0 = WS" "wk_ws ?w0"
      using steps(4) \<open>gu_at g' \<noteq> Gone\<close> \<open>wk_rx ?w' = RxRunning\<close> that eqs(1,2) by (simp add: deleting_def by_mode_def)
    have "fst (ws_recv (qn_ws (te_outside (net ?w')))) \<noteq> Blocked" if "ws_closed (qn_ws (te_outside (net ?w')))"
      using ws_recv_closed [OF that] by auto
    with eqs closed show ?thesis
      by (auto simp: recv_waits_def tcp_transport_def ws_object_def after_close_Asleep)
  qed
  have "(if gu_at g' = Gone then wk_rx ?w' = NoThread \<and> \<not> wk_connected ?w' \<and> (\<nexists>a g2. gui_step L Qt ?T ?W H g' a g2)
     else (\<nexists>a g2. gui_step L Qt ?T ?W H g' a g2) =
       (wk_rx ?w' = RxRunning \<and>
        (if wk_mode ?w0 = TCP then fst (tcp_recv A (te_sock (net ?w'))) = Blocked
         else wk_mode ?w0 = WS \<and> wk_ws ?w0 \<and>
           ws_inbox (qn_ws (te_outside (net ?w0))) = [] \<and> qn_waiter (te_outside (net ?w0)) = Falling)))"
    using steps(3) gone stuck by (cases "gu_at g' = Gone"; cases "wk_rx ?w' = RxRunning") simp_all
  with len steps(2) show ?thesis by blast
qed

end
