(* ===== verification/Close_Witnesses.thy ===== *)
theory Close_Witnesses
  imports Demo_Witnesses Gui_Close
begin

text \<open>The end of a GUI that hosts a session through the relay, on the concrete libraries of Reference-Lib: with the close
  before and after the test of the inbox in \<open>recv\<close>.\<close>

type_synonym x_env = "(sock, unit, unit) gui_env"

text \<open>A closed socket has nothing more to read.\<close>

definition x_asio :: "(sock, unit) asio" where "x_asio = d_asio\<lparr>asio_close := (\<lambda>s. s\<lparr>sk_in := []\<rparr>)\<rparr>"

lemma x_closed: "closed_contract x_asio (\<lambda>s. sk_in s = [])"
  by (auto simp: closed_contract_def x_asio_def d_asio_def)

text \<open>The hello of the other side arrives while the event loop of \<open>connect_url\<close> runs.\<close>

definition x_qt :: "(unit, x_env) qt_socket" where
  "x_qt = \<lparr>qs_fresh = (),
     qs_connect_url = (\<lambda>_ e. (True, set_ws (ws_on_message b_hello (ws_on_connected (qn_ws (te_outside e)))) e)),
     qs_send = (\<lambda>b n q. (0, q)), qs_close = id\<rparr>"

abbreviation x_tcp :: "x_env tcp_obj" where "x_tcp \<equiv> tcp_transport x_asio"
abbreviation x_wo :: "x_env ws_obj" where "x_wo \<equiv> ws_object x_qt"

definition x_ws :: "bool \<Rightarrow> bytes list \<Rightarrow> unit ws_transport" where
  "x_ws up box = \<lparr>ws_connected = up, ws_closed = \<not> up, ws_inbox = box, ws_socket = ()\<rparr>"

definition x_net :: "unit ws_transport \<Rightarrow> waiter \<Rightarrow> x_env" where
  "x_net ws q = \<lparr>te_sock = \<lparr>sk_in = [], sk_wrote = [], sk_taken = []\<rparr>, te_stuck = False, te_log = [],
     te_outside = \<lparr>qn_ws = ws, qn_waiter = q, qn_rest = ()\<rparr>\<rparr>"

lemma x_calls:
  "wo_connect_url x_wo url (wo_new x_wo (x_net ws q)) = (True, x_net ((x_ws True [b_hello])\<lparr>ws_closed := False\<rparr>) q)"
  "wo_send x_wo f (x_net (x_ws True box) q) = (True, x_net (x_ws True box) q)"
  "wo_recv x_wo (x_net (x_ws True (f # box)) q) = (Some f, x_net (x_ws True box) q)"
  "wo_recv x_wo (x_net (x_ws False []) q) = (None, x_net (x_ws False []) q)"
  "wo_close x_wo (x_net (x_ws True []) q) = x_net (x_ws False []) (after_close q)"
  "wo_waits x_wo (x_net (x_ws False []) q) = (q = Asleep)"
  by (simp_all add: ws_object_def x_qt_def x_net_def x_ws_def set_ws_def ws_on_message_def ws_on_connected_def ws_send_def
      ws_recv_def close_ws_def ws_close_def Let_def)

lemma x_server_run:
  "runServerHandshake b_libs (ws_send_fn x_wo) (ws_recv_fn x_wo) (l_engine (x_net (x_ws True [b_hello]) q)) =
     (Inr (t_fp (t_id 43)), d_session (x_net (x_ws True []) q))"
proof -
  have calls: "env w = x_net (x_ws True box) q \<Longrightarrow> callback_io (ws_send_fn x_wo f) w = (Inr True, w)"
    "env w = x_net (x_ws True (f # box)) q \<Longrightarrow>
       callback_io (ws_recv_fn x_wo) w = (Inr (Some f), w\<lparr>env := x_net (x_ws True box) q\<rparr>)"
    for w :: "x_env engine_world" and f box
    by (simp_all add: callback_io_def io_run ws_send_fn_def ws_recv_fn_def x_calls flip: engine_world.surjective)
  show ?thesis
    using b_parse(1) b_ser(2) t_sig_valid [of 42]
    by (simp add: runServerHandshake_def serverHandshakeInternal_def server_reply_def with_kyber_def l_engine_def d_session_def
        calls io_run report_def require_io_def is_loaded_def kyber_destroy_def t_key_def b_response_msg_def b_hello_msg_def)
qed

definition x_step :: "x_env gui \<Rightarrow> gui_act \<Rightarrow> x_env gui \<Rightarrow> bool" where
  "x_step = gui_step b_libs b_qt x_tcp x_wo html"

definition x_start :: "waiter \<Rightarrow> x_env engine_world" where "x_start q = l_blank (x_net (x_ws False []) q)"

abbreviation x_slot :: slot where "x_slot \<equiv> StartRelayHost ''u'' ''r'' ''pw''"

definition x_worker :: "waiter \<Rightarrow> x_env worker" where
  "x_worker q = run_slot b_libs b_qt x_tcp x_wo x_slot (worker_init (x_start q))"

lemma x_worker:
  "wk_engine (x_worker q) = d_session (x_net (x_ws True []) q)" "wk_mode (x_worker q) = WS" "wk_ws (x_worker q)"
  "wk_at (x_worker q) = Ready" "wk_rx (x_worker q) = RxRunning" "\<not> wk_aborted (x_worker q)"
proof -
  have new: "wo_connect_url x_wo url (wo_new x_wo (x_net ws q)) = (True, x_net (x_ws True [b_hello]) q)" for url ws
    using x_calls(1) by (simp add: x_ws_def)
  show "wk_engine (x_worker q) = d_session (x_net (x_ws True []) q)" "wk_mode (x_worker q) = WS" "wk_ws (x_worker q)"
    "wk_at (x_worker q) = Ready" "wk_rx (x_worker q) = RxRunning" "\<not> wk_aborted (x_worker q)"
    by (simp_all add: x_worker_def relay_host_body_def unlock_def d_identity set_engine_def set_net_def emit_def worker_init_def
        x_start_def make_ws_def established_def x_server_run new d_env_of Let_def)
qed

text \<open>The user hosts a room; then the window is closed, and the worker's loop ends before it has taken the slot.\<close>

definition x_gui0 :: "waiter \<Rightarrow> x_env gui" where "x_gui0 q = gui_init html ''t'' (x_start q)"

definition x_click :: win_event where "x_click = ClickRelayHost (Some ''u'') (Some ''r'') (Some ''pw'')"

definition x_gui1 :: "waiter \<Rightarrow> x_env gui" where
  "x_gui1 q = (x_gui0 q)\<lparr>gu_window := on_event html b_qt (''t'', x_click) (gu_window (x_gui0 q)), gu_worker := x_worker q\<rparr>"

lemma x_run1: "run x_step (x_gui0 q) [User ''t'' x_click, Take x_slot] (x_gui1 q)"
proof -
  let ?v = "on_event html b_qt (''t'', x_click) (gu_window (x_gui0 q))"
  let ?g = "(x_gui0 q)\<lparr>gu_window := ?v, gu_posted := [x_slot]\<rparr>"
  have new: "drop (length (wi_requests (gu_window (x_gui0 q)))) (wi_requests ?v) = [x_slot]"
    by (simp add: x_gui0_def gui_init_def window_new_def x_click_def onRelayHost_def relay_dialog_def window_simps)
  have "x_step (x_gui0 q) (User ''t'' x_click) ((x_gui0 q)\<lparr>gu_window := ?v, gu_posted := gu_posted (x_gui0 q) @
      drop (length (wi_requests (gu_window (x_gui0 q)))) (wi_requests ?v)\<rparr>)"
    unfolding x_step_def by (rule gui_step.user) (simp_all add: x_gui0_def gui_init_def worker_init_def x_click_def)
  then have "x_step (x_gui0 q) (User ''t'' x_click) ?g" unfolding new by (simp add: x_gui0_def gui_init_def)
  moreover have "x_step ?g (Take x_slot) (?g\<lparr>gu_worker := x_worker q, gu_posted := []\<rparr>)"
    unfolding x_step_def x_worker_def
    by (intro gui_step.take_slot)
       (simp_all add: x_gui0_def gui_init_def worker_step.slot worker_init_def del: run_slot.simps)
  moreover have "?g\<lparr>gu_worker := x_worker q, gu_posted := []\<rparr> = x_gui1 q"
    by (simp add: x_gui1_def x_gui0_def gui_init_def)
  ultimately show ?thesis by auto
qed

definition x_closing :: "waiter \<Rightarrow> x_env gui" where
  "x_closing q = (x_gui1 q)\<lparr>gu_window := onDisconnect (gu_window (x_gui1 q)),
     gu_posted := gu_posted (x_gui1 q) @ [DisconnectFromPeer], gu_at := Closing\<rparr>"

definition x_deleting :: "waiter \<Rightarrow> x_env gui" where
  "x_deleting q = (x_closing q)\<lparr>gu_worker := worker_delete x_tcp x_wo (x_worker q), gu_posted := [], gu_at := Deleting\<rparr>"

lemma x_parts [simp]:
  "gu_at (x_gui1 q) = Open" "gu_worker (x_gui1 q) = x_worker q" "gu_at (x_closing q) = Closing"
  "gu_worker (x_closing q) = x_worker q" "gu_at (x_deleting q) = Deleting"
  "gu_worker (x_deleting q) = worker_delete x_tcp x_wo (x_worker q)"
  by (simp_all add: x_gui1_def x_gui0_def gui_init_def x_closing_def x_deleting_def)

lemma x_close: "run x_step (x_gui0 q) [User ''t'' x_click, Take x_slot, CloseWindow] (x_closing q)"
proof -
  have "x_step (x_gui1 q) CloseWindow (x_closing q)"
    unfolding x_step_def x_closing_def by (rule gui_step.close_window) (simp_all add: x_worker)
  from run_snoc [OF x_run1 this] show ?thesis by simp
qed

lemma x_leave: "x_step (x_closing q) LeaveLoop (x_deleting q)"
  using gui_step.leave_loop [of "x_closing q" b_libs b_qt x_tcp x_wo html] by (simp add: x_step_def x_deleting_def x_worker)

lemma x_deleted:
  "wk_rx (gu_worker (x_deleting q)) = RxRunning" "\<not> wk_aborted (gu_worker (x_deleting q))" "wk_mode (gu_worker (x_deleting q)) = WS"
  "wk_ws (gu_worker (x_deleting q))" "net (gu_worker (x_deleting q)) = x_net (x_ws False []) (after_close q)"
  by (simp_all add: worker_delete_def disconnect_begin_def set_net_def x_worker d_env_of x_calls Let_def)

text \<open>The close fell into the gap of \<open>recv\<close>: the program hangs. It fell before the test: the program ends.\<close>

lemma gui_shutdown_witness:
  "gu_at (x_deleting Falling) = Deleting \<and> (\<nexists>a g. x_step (x_deleting Falling) a g) \<and>
   (\<exists>w. run x_step (x_deleting Locking) [Thread RxIteration, Thread RxLeave, Deleted]
        ((x_deleting Locking)\<lparr>gu_worker := w, gu_at := Gone\<rparr>) \<and> wk_rx w = NoThread \<and> \<not> wk_connected w)"
proof -
  note shutdown = gui_shutdown [OF x_closed b_libs_still x_close [unfolded x_step_def x_gui0_def] x_leave [unfolded x_step_def]]
  have hang: "\<nexists>a g. x_step (x_deleting Falling) a g"
    using shutdown [of Falling "[]" "x_deleting Falling"] x_deleted(1) [of Falling]
    by (simp add: x_step_def x_worker d_env_of x_net_def x_ws_def del: x_parts(6))
  let ?w = "gu_worker (x_deleting Locking)"
  let ?w1 = "recv_iteration b_libs x_tcp x_wo ?w"
  let ?w3 = "worker_free x_wo (recv_leave ?w1)"
  let ?g = "\<lambda>w. (x_deleting Locking)\<lparr>gu_worker := w\<rparr>"
  have w1: "wk_rx ?w1 = RxEnding" "\<not> wk_aborted ?w1"
    using x_deleted [of Locking] by (simp_all add: recv_iteration_def set_net_def x_calls del: x_parts(6))
  have "\<not> recv_waits x_tcp x_wo ?w"
    using x_deleted [of Locking] by (simp add: recv_waits_def x_calls del: x_parts(6))
  then have "x_step (x_deleting Locking) (Thread RxIteration) (?g ?w1)"
    unfolding x_step_def by (intro gui_step.thread worker_step.receive) (simp_all add: x_deleted del: x_parts(6))
  moreover have "worker_step b_libs b_qt x_tcp x_wo ?w1 RxLeave (recv_leave ?w1)" by (rule worker_step.leave [OF w1(2,1)])
  then have "x_step (?g ?w1) (Thread RxLeave) (?g (recv_leave ?w1))"
    using gui_step.thread [where g = "?g ?w1" and a = RxLeave and v = "recv_leave ?w1" and H = html]
    by (simp add: x_step_def del: x_parts(6))
  moreover have "x_step (?g (recv_leave ?w1)) Deleted ((?g ?w3)\<lparr>gu_at := Gone\<rparr>)"
    using gui_step.deleted [where g = "?g (recv_leave ?w1)" and L = b_libs and Q = b_qt and T = x_tcp and W = x_wo and H = html] w1
    by (simp add: x_step_def recv_leave_def emit_def del: x_parts(6))
  ultimately have run: "run x_step (x_deleting Locking) [Thread RxIteration, Thread RxLeave, Deleted] ((?g ?w3)\<lparr>gu_at := Gone\<rparr>)" by blast
  from shutdown [OF run [unfolded x_step_def]] have "wk_rx ?w3 = NoThread \<and> \<not> wk_connected ?w3" by simp
  with run hang show ?thesis by auto
qed

end
