(* ===== verification/Chat_End.thy ===== *)
theory Chat_End
  imports Relay_Chat Beast
begin

text \<open>
  The end of the chat of \<^verbatim>\<open>relay_cli.cpp\<close> over the transport of \<^verbatim>\<open>beast_ws_transport.cpp\<close>, with the calls
  on the stream taken apart: \<open>rx\<close> can be inside \<open>ws->read\<close> while \<open>main\<close> closes the same stream and goes on to
  \<open>rx.join()\<close>.
\<close>

section \<open>The two threads on one stream\<close>

text \<open>
  \<open>main\<close>: before the test of \<open>running\<close>, in \<open>getline\<close>, after the loop, in \<open>close()\<close> before the call on the stream and
  before \<open>open = false\<close>, in the join, returned. \<open>rx\<close>: before the test, in \<open>recv\<close> before the test of \<open>open\<close>, in the
  read of a stream, returned.
\<close>

datatype chat_main_at = MTest | MLine | MAfter | MClose | MMark | MJoin | MEnd
datatype 'k reader_at = RTest | RCall | RRead 'k | RDone

record ('e, 'w, 'k) chat_end =
  ce_world :: "'e engine_world"
  ce_impl :: "('w, 'k) impl"
  ce_running :: bool
  ce_main :: chat_main_at
  ce_rx :: "'k reader_at"
  ce_printed :: "rx_line list"

definition ce_start :: "'e engine_world \<Rightarrow> ('w, 'k) impl \<Rightarrow> ('e, 'w, 'k) chat_end" where
  "ce_start w im =
     \<lparr>ce_world = w, ce_impl = im, ce_running = True, ce_main = MTest, ce_rx = RTest, ce_printed = []\<rparr>"

text \<open>The body of the loop over the lines; \<open>Inl\<close> is the message printed before the \<open>break\<close>.\<close>

definition beast_tx ::
  "('e, 'h) libs \<Rightarrow> ('w, 'k, 'ep) beast \<Rightarrow> string \<Rightarrow> 'e engine_world \<Rightarrow> ('w, 'k) impl
    \<Rightarrow> (string + unit) call \<times> 'e engine_world \<times> ('w, 'k) impl" where
  "beast_tx L B line w im =
     (if line = [] then (Returns (Inr ()), w, im)
      else case encryptAndSerializeMessage L line ''cli'' ''peer'' w of
        (Inl err, w) \<Rightarrow> (Returns (Inl (''Encrypt failed: '' @ err)), w, im)
      | (Inr frame, w) \<Rightarrow>
         (case beast_send B frame im of
            (r, im) \<Rightarrow> (map_call (\<lambda>ok. if \<not> ok then Inl ''Send failed'' else Inr ()) r, w, im)))"

text \<open>The call on the stream in \<open>Impl::close\<close>, and \<open>Impl::recv\<close> up to its read; \<open>None\<close> is the null dereference.\<close>

definition close_stream :: "('w, 'k, 'ep) beast \<Rightarrow> ('w, 'k) impl \<Rightarrow> ('w, 'k) impl" where
  "close_stream B im = (case current_stream im of Some k \<Rightarrow> im\<lparr>im_net := bw_close B k (im_net im)\<rparr> | None \<Rightarrow> im)"

definition mark_closed :: "('w, 'k) impl \<Rightarrow> ('w, 'k) impl" where
  "mark_closed im = im\<lparr>im_open := False\<rparr>"

definition enter_recv :: "('w, 'k) impl \<Rightarrow> 'k reader_at option" where
  "enter_recv im = (if \<not> im_open im then Some RDone else map_option RRead (current_stream im))"

lemma beast_close_parts: "beast_close B im = (if im_open im then mark_closed (close_stream B im) else im)"
  by (simp add: beast_close_def close_stream_def mark_closed_def current_stream_def Let_def split: option.split)

lemma beast_recv_parts:
  "beast_recv B im = (case enter_recv im of
     None \<Rightarrow> (NullDeref, im)
   | Some (RRead k) \<Rightarrow> (case bw_read B k (im_net im) of
         (Blocked, _) \<Rightarrow> (Waits, im) | (Ret r, w) \<Rightarrow> (Returns r, im\<lparr>im_net := w\<rparr>))
   | Some _ \<Rightarrow> (Returns None, im))"
  by (simp add: beast_recv_def enter_recv_def split: option.split)

datatype 'w ce_act =
    TestMain | TypeLine string | EndOfInput | Stop | CloseStream | MarkClosed | JoinReader
  | TestReader | EnterRecv | ReadFrame | Network 'w

text \<open>\<open>Network\<close>: whatever the other end, the relay and the timeouts of the stream do meanwhile.\<close>

inductive ce_step ::
  "('e, 'h) libs \<Rightarrow> ('w, 'k, 'ep) beast \<Rightarrow> ('e, 'w, 'k) chat_end \<Rightarrow> 'w ce_act \<Rightarrow> ('e, 'w, 'k) chat_end \<Rightarrow> bool"
  for L :: "('e, 'h) libs" and B :: "('w, 'k, 'ep) beast" where
  test_main: "ce_main c = MTest \<Longrightarrow>
    ce_step L B c TestMain (c\<lparr>ce_main := (if ce_running c then MLine else MAfter)\<rparr>)"
| type_line: "ce_main c = MLine \<Longrightarrow> beast_tx L B l (ce_world c) (ce_impl c) = (Returns r, w, im) \<Longrightarrow>
    ce_step L B c (TypeLine l) (c\<lparr>ce_world := w, ce_impl := im, ce_main := (case r of Inl m \<Rightarrow> MAfter | Inr u \<Rightarrow> MTest)\<rparr>)"
| end_of_input: "ce_main c = MLine \<Longrightarrow> ce_step L B c EndOfInput (c\<lparr>ce_main := MAfter\<rparr>)"
| stop: "ce_main c = MAfter \<Longrightarrow>
    ce_step L B c Stop (c\<lparr>ce_running := False, ce_main := (if im_open (ce_impl c) then MClose else MJoin)\<rparr>)"
| close_stream: "ce_main c = MClose \<Longrightarrow>
    ce_step L B c CloseStream (c\<lparr>ce_impl := close_stream B (ce_impl c), ce_main := MMark\<rparr>)"
| mark_closed: "ce_main c = MMark \<Longrightarrow>
    ce_step L B c MarkClosed (c\<lparr>ce_impl := mark_closed (ce_impl c), ce_main := MJoin\<rparr>)"
| join_reader: "ce_main c = MJoin \<Longrightarrow> ce_rx c = RDone \<Longrightarrow> ce_step L B c JoinReader (c\<lparr>ce_main := MEnd\<rparr>)"
| test_reader: "ce_rx c = RTest \<Longrightarrow> ce_step L B c TestReader (c\<lparr>ce_rx := (if ce_running c then RCall else RDone)\<rparr>)"
| enter_recv: "ce_rx c = RCall \<Longrightarrow> enter_recv (ce_impl c) = Some r \<Longrightarrow>
    ce_step L B c EnterRecv (c\<lparr>ce_rx := r, ce_running := (r \<noteq> RDone \<and> ce_running c)\<rparr>)"
| read_frame: "ce_rx c = RRead k \<Longrightarrow> bw_read B k (im_net (ce_impl c)) = (Ret (Some f), v) \<Longrightarrow>
    parseAndDecryptMessage L f (ce_world c) = (r, w) \<Longrightarrow>
    ce_step L B c ReadFrame (c\<lparr>ce_world := w, ce_impl := (ce_impl c)\<lparr>im_net := v\<rparr>, ce_rx := RTest,
      ce_printed := ce_printed c @ [case r of Inr plain \<Rightarrow> Peer plain | Inl err \<Rightarrow> Drop err]\<rparr>)"
| read_end: "ce_rx c = RRead k \<Longrightarrow> bw_read B k (im_net (ce_impl c)) = (Ret None, v) \<Longrightarrow>
    ce_step L B c ReadFrame (c\<lparr>ce_impl := (ce_impl c)\<lparr>im_net := v\<rparr>, ce_rx := RDone, ce_running := False\<rparr>)"
| network: "ce_step L B c (Network v) (c\<lparr>ce_impl := (ce_impl c)\<lparr>im_net := v\<rparr>\<rparr>)"

inductive_cases ce_stepE: "ce_step L B c a c'"

section \<open>The join\<close>

text \<open>A stream is there as long as \<open>open\<close> says so, and both flags are down when \<open>main\<close> joins.\<close>

definition ce_inv :: "('e, 'w, 'k) chat_end \<Rightarrow> bool" where
  "ce_inv c \<longleftrightarrow> open_ok (ce_impl c) \<and>
     (ce_main c \<in> {MClose, MMark, MJoin, MEnd} \<longrightarrow> \<not> ce_running c) \<and>
     (ce_main c \<in> {MJoin, MEnd} \<longrightarrow> \<not> im_open (ce_impl c)) \<and>
     (ce_main c = MEnd \<longrightarrow> ce_rx c = RDone)"

lemma beast_tx_keeps:
  assumes "beast_tx L B l w im = (r, w', im')"
  shows "\<exists>v. im' = im\<lparr>im_net := v\<rparr>"
proof -
  have "\<exists>v. snd (beast_send B f im) = im\<lparr>im_net := v\<rparr>" for f
    by (auto simp: beast_send_def split: option.split prod.split intro: exI [of _ "im_net im"])
  moreover have "\<exists>v. im = im\<lparr>im_net := v\<rparr>" by (rule exI [of _ "im_net im"]) simp
  ultimately show ?thesis
    using assms by (auto simp: beast_tx_def split: if_splits prod.splits sum.splits) (metis snd_conv)+
qed

lemma open_ok_net [simp]: "open_ok (im\<lparr>im_net := v\<rparr>) = open_ok im"
  by (simp add: open_ok_def current_stream_def split: option.split)

lemma ce_inv_step:
  assumes "ce_inv c" and "ce_step L B c a c'"
  shows "ce_inv c'"
  using assms(2)
proof (cases rule: ce_step.cases)
  case (type_line l r w im)
  obtain v where "im = (ce_impl c)\<lparr>im_net := v\<rparr>" using beast_tx_keeps [OF type_line(4)] by blast
  with type_line assms(1) show ?thesis by (simp add: ce_inv_def split: sum.split)
next
  case close_stream
  with assms(1) show ?thesis by (simp add: ce_inv_def close_stream_def split: option.split)
next
  case mark_closed
  with assms(1) show ?thesis by (simp add: ce_inv_def mark_closed_def open_ok_def)
qed (use assms(1) in \<open>auto simp: ce_inv_def\<close>)

lemma ce_reach_inv:
  assumes "open_ok im" and "run (ce_step L B) (ce_start w im) acts c"
  shows "ce_inv c"
proof -
  have "step_invariant (ce_step L B) (ce_start w im) ce_inv"
    by (rule step_invariant.intro) (simp add: ce_inv_def ce_start_def assms(1), rule ce_inv_step)
  from step_invariant.reach_inv [OF this assms(2)] show ?thesis .
qed

text \<open>How many steps the two threads can still make from the join on.\<close>

fun is_network :: "'w ce_act \<Rightarrow> bool" where
  "is_network (Network v) = True"
| "is_network _ = False"

fun reader_left :: "'k reader_at \<Rightarrow> nat" where
  "reader_left RDone = 0"
| "reader_left RTest = 1"
| "reader_left RCall = 1"
| "reader_left (RRead k) = 2"

definition ce_left :: "('e, 'w, 'k) chat_end \<Rightarrow> nat" where
  "ce_left c = (if ce_main c = MEnd then 0 else reader_left (ce_rx c) + 1)"

lemma join_step:
  assumes "ce_inv c" and "ce_main c \<in> {MJoin, MEnd}" and "ce_step L B c a c'"
  shows "ce_main c' \<in> {MJoin, MEnd} \<and> ce_left c' + (if is_network a then 0 else 1) \<le> ce_left c \<and>
    ((\<exists>k. ce_rx c' = RRead k) \<longrightarrow> (\<exists>k. ce_rx c = RRead k))"
  using assms(3)
proof (cases rule: ce_step.cases)
  case (enter_recv r)
  with assms(1,2) have "r = RDone" by (auto simp: enter_recv_def ce_inv_def)
  with enter_recv assms(2) assms(1) show ?thesis by (auto simp: ce_left_def ce_inv_def)
qed (use assms(1,2) in \<open>auto simp: ce_left_def ce_inv_def\<close>)

lemma join_run:
  "run (ce_step L B) c acts c' \<Longrightarrow> ce_inv c \<Longrightarrow> ce_main c \<in> {MJoin, MEnd} \<Longrightarrow>
     ce_inv c' \<and> ce_main c' \<in> {MJoin, MEnd} \<and> length (filter (Not \<circ> is_network) acts) + ce_left c' \<le> ce_left c \<and>
     ((\<exists>k. ce_rx c' = RRead k) \<longrightarrow> (\<exists>k. ce_rx c = RRead k))"
proof (induction rule: run.induct)
  case (run_Cons c a c1 acts c')
  note step = join_step [OF run_Cons.prems run_Cons.hyps(1)]
  from run_Cons.IH [OF ce_inv_step [OF run_Cons.prems(1) run_Cons.hyps(1)]] step show ?case by (auto split: if_splits)
qed simp

text \<open>What is still possible in the join.\<close>

lemma join_stuck:
  assumes "ce_inv c" and "ce_main c \<in> {MJoin, MEnd}"
  shows "(\<nexists>a c2. \<not> is_network a \<and> ce_step L B c a c2) =
    (ce_main c = MEnd \<or> (\<exists>k. ce_rx c = RRead k \<and> fst (bw_read B k (im_net (ce_impl c))) = Blocked))"
proof (cases "ce_main c = MEnd")
  case True
  with assms(1) have "ce_rx c = RDone" by (simp add: ce_inv_def)
  with True show ?thesis by (auto elim!: ce_stepE)
next
  case False
  with assms(2) have join: "ce_main c = MJoin" by simp
  have step: "?thesis" if "ce_step L B c a c2" "\<not> is_network a" "\<And>k. ce_rx c = RRead k \<Longrightarrow> fst (bw_read B k (im_net (ce_impl c))) \<noteq> Blocked" for a c2
    using that False by auto
  show ?thesis
  proof (cases "ce_rx c")
    case RTest
    then show ?thesis by (intro step [OF ce_step.test_reader]) simp_all
  next
    case RCall
    have "enter_recv (ce_impl c) = Some RDone" using assms(1) join by (simp add: enter_recv_def ce_inv_def)
    from step [OF ce_step.enter_recv [OF RCall this]] RCall show ?thesis by simp
  next
    case RDone
    then show ?thesis by (intro step [OF ce_step.join_reader [OF join]]) simp_all
  next
    case (RRead k)
    obtain r v where read: "bw_read B k (im_net (ce_impl c)) = (r, v)" by fastforce
    show ?thesis
    proof (cases r)
      case Blocked
      with read RRead join show ?thesis by (auto elim!: ce_stepE)
    next
      case (Ret fr)
      show ?thesis
      proof (cases fr)
        case None
        from step [OF ce_step.read_end [OF RRead read [unfolded Ret None]]] RRead read Ret show ?thesis by simp
      next
        case (Some f)
        obtain r2 w where "parseAndDecryptMessage L f (ce_world c) = (r2, w)" by fastforce
        from step [OF ce_step.read_frame [OF RRead read [unfolded Ret Some] this]] RRead read Ret show ?thesis by simp
      qed
    qed
  qed
qed

text \<open>C0: once \<open>main\<close> is in \<open>rx.join()\<close>, the two threads make at most three more steps, whatever happens on the network
  meanwhile, and then \<open>main\<close> has returned, with one exception: \<open>rx\<close> was already inside the read of the stream when \<open>main\<close>
  closed it, and that read does not return. Then the program hangs. A \<open>rx\<close> that was in no read does not begin one, and
  \<open>main\<close> returns. Nothing is assumed of the libraries.\<close>

theorem chat_end_joins:
  assumes "im_open im" and "current_stream im \<noteq> None"
    and "run (ce_step L B) (ce_start w im) acts0 c" and "ce_main c = MJoin" and "run (ce_step L B) c acts c'"
  shows "length (filter (Not \<circ> is_network) acts) \<le> 3 \<and>
    (\<nexists>a c2. \<not> is_network a \<and> ce_step L B c' a c2) =
      (ce_main c' = MEnd \<or> (\<exists>k. ce_rx c' = RRead k \<and> fst (bw_read B k (im_net (ce_impl c'))) = Blocked)) \<and>
    (ce_main c' = MEnd \<longrightarrow> ce_rx c' = RDone) \<and>
    ((\<exists>k. ce_rx c' = RRead k) \<longrightarrow> (\<exists>k. ce_rx c = RRead k))"
proof -
  have inv: "ce_inv c" using ce_reach_inv [OF _ assms(3)] assms(1,2) by (simp add: open_ok_def)
  have "ce_left c \<le> 3" using assms(4) by (cases "ce_rx c") (simp_all add: ce_left_def)
  with join_run [OF assms(5) inv] assms(4) join_stuck [of c' L B] show ?thesis by (auto simp: ce_inv_def)
qed

end
