(* ===== verification/Chat_Witnesses.thy ===== *)
theory Chat_Witnesses
  imports App_Witnesses Chat_End
begin

text \<open>The end of a chat whose reader is in a read when \<open>main\<close> closes the stream, with a stream that gives up a read when it
  is closed and with one that does not.\<close>

text \<open>The network says whether reads fail.\<close>

definition y_beast :: "bool \<Rightarrow> (bool, unit, unit) beast" where
  "y_beast wakes = \<lparr>bw_resolve = (\<lambda>_ _ v. (Some (), v)), bw_new_wss = Pair (), bw_new_ws = Pair (),
     bw_connect = (\<lambda>_ _ v. (True, v)), bw_tls = (\<lambda>_ v. (True, v)), bw_handshake = (\<lambda>_ _ _ v. (True, v)),
     bw_write = (\<lambda>_ _ v. (True, v)), bw_read = (\<lambda>_ v. (if v then Ret None else Blocked, v)),
     bw_close = (\<lambda>_ v. wakes)\<rparr>"

definition y_impl :: "(bool, unit) impl" where "y_impl = (impl_new False)\<lparr>im_ws := Some (), im_open := True\<rparr>"

definition y_start :: "(tenv, bool, unit) chat_end" where "y_start = ce_start (b_chatting []) y_impl"

definition y_joined :: "bool \<Rightarrow> (tenv, bool, unit) chat_end" where
  "y_joined wakes = y_start\<lparr>ce_impl := y_impl\<lparr>im_net := wakes, im_open := False\<rparr>, ce_running := False, ce_main := MJoin,
     ce_rx := RRead ()\<rparr>"

definition y_ended :: "(tenv, bool, unit) chat_end" where
  "y_ended = (y_joined True)\<lparr>ce_rx := RDone, ce_main := MEnd\<rparr>"

abbreviation y_step :: "bool \<Rightarrow> (tenv, bool, unit) chat_end \<Rightarrow> bool ce_act \<Rightarrow> (tenv, bool, unit) chat_end \<Rightarrow> bool" where
  "y_step wakes \<equiv> ce_step b_libs (y_beast wakes)"

lemma y_run: "run (y_step wakes) y_start [TestReader, EnterRecv, TestMain, EndOfInput, Stop, CloseStream, MarkClosed] (y_joined wakes)"
proof -
  let ?c1 = "y_start\<lparr>ce_rx := RCall\<rparr>"
  let ?c2 = "y_start\<lparr>ce_rx := RRead ()\<rparr>"
  let ?c6 = "?c2\<lparr>ce_running := False, ce_impl := y_impl\<lparr>im_net := wakes\<rparr>\<rparr>"
  note y = y_start_def ce_start_def y_impl_def impl_new_def
  have "y_step wakes y_start TestReader ?c1" using ce_step.test_reader [of y_start b_libs "y_beast wakes"] by (simp add: y)
  moreover have "y_step wakes ?c1 EnterRecv ?c2"
    using ce_step.enter_recv [of ?c1 "RRead ()" b_libs "y_beast wakes"] by (simp add: y enter_recv_def current_stream_def)
  moreover have "y_step wakes ?c2 TestMain (?c2\<lparr>ce_main := MLine\<rparr>)"
    using ce_step.test_main [of ?c2 b_libs "y_beast wakes"] by (simp add: y)
  moreover have "y_step wakes (?c2\<lparr>ce_main := MLine\<rparr>) EndOfInput (?c2\<lparr>ce_main := MAfter\<rparr>)"
    using ce_step.end_of_input [of "?c2\<lparr>ce_main := MLine\<rparr>" b_libs "y_beast wakes"] by simp
  moreover have "y_step wakes (?c2\<lparr>ce_main := MAfter\<rparr>) Stop (?c2\<lparr>ce_running := False, ce_main := MClose\<rparr>)"
    using ce_step.stop [of "?c2\<lparr>ce_main := MAfter\<rparr>" b_libs "y_beast wakes"] by (simp add: y)
  moreover have "y_step wakes (?c2\<lparr>ce_running := False, ce_main := MClose\<rparr>) CloseStream (?c6\<lparr>ce_main := MMark\<rparr>)"
    using ce_step.close_stream [of "?c2\<lparr>ce_running := False, ce_main := MClose\<rparr>" b_libs "y_beast wakes"]
    by (simp add: y close_stream_def current_stream_def y_beast_def)
  moreover have "y_step wakes (?c6\<lparr>ce_main := MMark\<rparr>) MarkClosed (y_joined wakes)"
    using ce_step.mark_closed [of "?c6\<lparr>ce_main := MMark\<rparr>" b_libs "y_beast wakes"] by (simp add: y_joined_def y mark_closed_def)
  ultimately show ?thesis by blast
qed

lemma chat_end_joins_witness:
  "(\<nexists>a c. \<not> is_network a \<and> y_step False (y_joined False) a c) \<and> ce_main (y_joined False) = MJoin \<and>
   run (y_step True) (y_joined True) [ReadFrame, JoinReader] y_ended \<and> (\<nexists>a c. \<not> is_network a \<and> y_step True y_ended a c)"
proof -
  note join = chat_end_joins [OF _ _ y_run [unfolded y_start_def]]
  have im: "im_open y_impl" "current_stream y_impl \<noteq> None" by (simp_all add: y_impl_def impl_new_def current_stream_def)
  have main: "ce_main (y_joined b) = MJoin" for b by (simp add: y_joined_def)
  have "y_step True (y_joined True) ReadFrame ((y_joined True)\<lparr>ce_rx := RDone\<rparr>)"
    using ce_step.read_end [of "y_joined True" "()" "y_beast True" True b_libs]
    by (simp add: y_joined_def y_beast_def y_start_def ce_start_def y_impl_def impl_new_def)
  moreover have "y_step True ((y_joined True)\<lparr>ce_rx := RDone\<rparr>) JoinReader y_ended"
    using ce_step.join_reader [of "(y_joined True)\<lparr>ce_rx := RDone\<rparr>" b_libs "y_beast True"]
    by (simp add: y_ended_def y_joined_def y_start_def ce_start_def)
  ultimately have run: "run (y_step True) (y_joined True) [ReadFrame, JoinReader] y_ended" by blast
  have "(\<nexists>a c. \<not> is_network a \<and> y_step False (y_joined False) a c)"
    using join [OF im main, of False "[]" "y_joined False"] by (simp add: y_joined_def y_beast_def)
  moreover have "(\<nexists>a c. \<not> is_network a \<and> y_step True y_ended a c)"
    using join [OF im main run] by (simp add: y_ended_def)
  ultimately show ?thesis using run main by blast
qed

end
