(* ===== verification/Gui_Relay.thy ===== *)
theory Gui_Relay
  imports Transport Steps
begin

text \<open>
  WebSocketTransport inside the worker thread of the GUI: \<open>connect_url\<close> with its own event loop, and the
  call of \<open>recv\<close> by a handshake that runs in a slot. The QWebSocket lives in that thread, so Qt calls the
  handlers of \<^verbatim>\<open>ws_transport.cpp\<close> only while the thread is in an event loop.
\<close>

section \<open>The worker thread and its socket\<close>

text \<open>
  \<open>EventLoop\<close>: between two slots. \<open>Connecting\<close>: in \<open>loop.exec()\<close> of \<open>connect_url\<close>. \<open>InRecv\<close>: in
  \<open>recv\<close>, called by the handshake after \<open>connect_url\<close> returned true. \<open>gr_net\<close> are the frames that
  reached the machine and were not yet handed to the handler, \<open>gr_posted\<close> the slots other threads have
  queued for this one.
\<close>

datatype gui_at = EventLoop | Connecting | InRecv

record 'q gui_relay =
  gr_at :: gui_at
  gr_ws :: "'q ws_transport"
  gr_net :: "bytes list"
  gr_posted :: nat

datatype gui_act =
    StartRelay
  | SocketConnected
  | SocketDisconnected
  | SocketError
  | FrameArrives bytes
  | DeliverFrame
  | ConnectReturns bool
  | RecvReturns
  | PostSlot
  | RunPosted

text \<open>A new WebSocketTransport on a socket in state \<open>q\<close>.\<close>

definition ws_new :: "'q \<Rightarrow> 'q ws_transport" where
  "ws_new q = \<lparr>ws_connected = False, ws_closed = False, ws_inbox = [], ws_socket = q\<rparr>"

text \<open>\<open>connect_url\<close>: opens the socket and runs a loop that is left when the socket has connected, was closed or
  failed, or after the timeout; the result is \<open>connected_\<close>.\<close>

definition connect_url_begin :: "('q \<Rightarrow> 'q) \<Rightarrow> 'q gui_relay \<Rightarrow> 'q gui_relay" where
  "connect_url_begin openf g =
     g\<lparr>gr_at := Connecting, gr_ws := (gr_ws g)\<lparr>ws_socket := openf (ws_socket (gr_ws g))\<rparr>\<rparr>"

definition connect_url_end :: "bool \<Rightarrow> 'q gui_relay \<Rightarrow> bool option" where
  "connect_url_end timed_out g =
     (if ws_connected (gr_ws g) \<or> ws_closed (gr_ws g) \<or> timed_out then Some (ws_connected (gr_ws g)) else None)"

fun gui_next :: "('q \<Rightarrow> 'q) \<Rightarrow> 'q gui_relay \<Rightarrow> gui_act \<Rightarrow> 'q gui_relay option" where
  "gui_next openf g StartRelay =
     (if gr_at g = EventLoop
      then Some (connect_url_begin openf (g\<lparr>gr_ws := ws_new (ws_socket (gr_ws g)), gr_net := []\<rparr>)) else None)"
| "gui_next openf g SocketConnected =
     (if gr_at g \<noteq> InRecv then Some (g\<lparr>gr_ws := ws_on_connected (gr_ws g)\<rparr>) else None)"
| "gui_next openf g SocketDisconnected =
     (if gr_at g \<noteq> InRecv then Some (g\<lparr>gr_ws := ws_on_disconnected (gr_ws g)\<rparr>) else None)"
| "gui_next openf g SocketError =
     (if gr_at g \<noteq> InRecv then Some (g\<lparr>gr_ws := ws_on_error (gr_ws g)\<rparr>) else None)"
| "gui_next openf g (FrameArrives f) = Some (g\<lparr>gr_net := gr_net g @ [f]\<rparr>)"
| "gui_next openf g DeliverFrame =
     (case gr_net g of
        [] \<Rightarrow> None
      | f # fs \<Rightarrow> if gr_at g \<noteq> InRecv
                  then Some (g\<lparr>gr_ws := ws_on_message f (gr_ws g), gr_net := fs\<rparr>) else None)"
| "gui_next openf g (ConnectReturns timed_out) =
     (if gr_at g = Connecting
      then (case connect_url_end timed_out g of
              None \<Rightarrow> None
            | Some ok \<Rightarrow> Some (g\<lparr>gr_at := (if ok then InRecv else EventLoop)\<rparr>))
      else None)"
| "gui_next openf g RecvReturns =
     (if gr_at g = InRecv
      then (case ws_recv (gr_ws g) of
              (Blocked, _) \<Rightarrow> None
            | (Ret r, w) \<Rightarrow> Some (g\<lparr>gr_at := EventLoop, gr_ws := w\<rparr>))
      else None)"
| "gui_next openf g PostSlot = Some (g\<lparr>gr_posted := gr_posted g + 1\<rparr>)"
| "gui_next openf g RunPosted =
     (if gr_at g \<noteq> InRecv \<and> gr_posted g > 0 then Some (g\<lparr>gr_posted := gr_posted g - 1\<rparr>) else None)"

definition gui_step :: "('q \<Rightarrow> 'q) \<Rightarrow> 'q gui_relay \<Rightarrow> gui_act \<Rightarrow> 'q gui_relay \<Rightarrow> bool" where
  "gui_step openf g a g' \<longleftrightarrow> gui_next openf g a = Some g'"

section \<open>The handshake of the relay mode waits for ever\<close>

definition stuck :: "'q gui_relay \<Rightarrow> bool" where
  "stuck g \<longleftrightarrow> gr_at g = InRecv \<and> ws_inbox (gr_ws g) = [] \<and> \<not> ws_closed (gr_ws g)"

lemma stuck_step: "stuck g \<Longrightarrow> gui_step openf g a g' \<Longrightarrow>
    stuck g' \<and> gr_posted g \<le> gr_posted g' \<and> (\<exists>fs. gr_net g' = gr_net g @ fs)"
  by (cases a) (auto simp: gui_step_def stuck_def ws_recv_def split: list.splits)

text \<open>C39: a handshake of the GUI's relay mode that calls \<open>recv\<close> before the peer's frame was delivered waits for ever:
  the frame may arrive at the machine, but the handler that would put it into the inbox belongs to the
  thread that waits, and so do the slots for sending and disconnecting.\<close>

theorem gui_relay_recv_never_returns:
  assumes "run (gui_step openf) g acts g'" and "gr_at g = InRecv" and "ws_inbox (gr_ws g) = []"
    and "\<not> ws_closed (gr_ws g)"
  shows "gr_at g' = InRecv \<and> ws_inbox (gr_ws g') = [] \<and> RecvReturns \<notin> set acts \<and> RunPosted \<notin> set acts \<and>
    (\<exists>fs. gr_net g' = gr_net g @ fs)"
proof -
  have "stuck g" using assms(2-4) by (simp add: stuck_def)
  with assms(1) have "stuck g' \<and> RecvReturns \<notin> set acts \<and> RunPosted \<notin> set acts \<and> (\<exists>fs. gr_net g' = gr_net g @ fs)"
  proof (induction rule: run.induct)
    case (run_Cons g a g1 as g')
    then have "stuck g1 \<and> (\<exists>fs. gr_net g1 = gr_net g @ fs)" using stuck_step by blast
    moreover have "a \<noteq> RecvReturns" "a \<noteq> RunPosted"
      using run_Cons.hyps(1) run_Cons.prems by (auto simp: gui_step_def stuck_def ws_recv_def)
    ultimately show ?case using run_Cons.IH by auto
  qed simp
  then show ?thesis by (simp add: stuck_def)
qed

text \<open>The usual order of events: the socket connects, the loop is left, the handshake waits, the answer arrives.\<close>

definition waiting :: "unit gui_relay" where
  "waiting = \<lparr>gr_at = InRecv, gr_ws = \<lparr>ws_connected = True, ws_closed = False, ws_inbox = [], ws_socket = ()\<rparr>,
     gr_net = [], gr_posted = 0\<rparr>"

lemma waiting_reached:
  "run (gui_step (\<lambda>q. q)) \<lparr>gr_at = EventLoop, gr_ws = ws_new (), gr_net = [], gr_posted = 0\<rparr>
     [StartRelay, SocketConnected, ConnectReturns False] waiting"
  by (simp add: run_Cons_simp gui_step_def connect_url_begin_def connect_url_end_def ws_new_def
      ws_on_connected_def waiting_def)

lemma gui_relay_recv_never_returns_witness:
  "gr_at (waiting\<lparr>gr_net := [[1, 2, 3]], gr_posted := 1\<rparr>) = InRecv"
proof -
  have "run (gui_step (\<lambda>q. q)) waiting [FrameArrives [1, 2, 3], PostSlot] (waiting\<lparr>gr_net := [[1, 2, 3]], gr_posted := 1\<rparr>)"
    by (simp add: run_Cons_simp gui_step_def waiting_def)
  from gui_relay_recv_never_returns [OF this] show ?thesis by (simp add: waiting_def)
qed

end
