(* ===== verification/Spec2Isabelle.thy ===== *)
theory Spec2Isabelle
  imports Witnesses Net_Witnesses Relay_Witnesses App_Witnesses Talk_Witnesses Loop_Witnesses Demo_Witnesses Gui_Witnesses Nonce_Witnesses Gui_Talk_Witnesses Close_Witnesses Chat_Witnesses Gui_Relay Wakeup
begin

text \<open>
  A model of the post-quantum messenger, its relay and its programs, and what can be proved of them.

  \<^bold>\<open>The program.\<close> Two users run a client each. A client unlocks or creates an Ed25519 identity in a file
  (\<^verbatim>\<open>identity.cpp\<close>), reaches the other one over TCP (\<^verbatim>\<open>tcp_transport.cpp\<close>) or through a room of a relay
  (\<^verbatim>\<open>beast_ws_transport.cpp\<close> or \<^verbatim>\<open>ws_transport.cpp\<close> towards \<^verbatim>\<open>relay_server.cpp\<close>), runs one signed Kyber
  handshake (\<^verbatim>\<open>connection_engine.cpp\<close>, \<^verbatim>\<open>kem_kyber.cpp\<close>, \<^verbatim>\<open>hkdf.cpp\<close>) and exchanges messages encrypted with
  AES-GCM (\<^verbatim>\<open>crypto.h\<close>, \<^verbatim>\<open>session.h\<close>). The programs around the engine are \<^verbatim>\<open>client.cpp\<close>, \<^verbatim>\<open>server.cpp\<close>,
  \<^verbatim>\<open>relay_cli.cpp\<close> and the GUI (\<^verbatim>\<open>gui/EngineWorker.cpp\<close>, \<^verbatim>\<open>gui/MainWindow.cpp\<close>).

  \<^bold>\<open>How it is modelled.\<close> A function is a HOL function that passes the state explicitly. In the engine and below
  it, an effect is \<open>io\<close>: a result or an exception, and a new world. The world (\<open>world\<close>, \<open>engine_world\<close>) holds
  the members of the C++ object, the library objects that must be freed by hand (\<open>live\<close>, \<open>double_freed\<close>) and
  the outside world \<open>env\<close>. Exceptions, error returns and \<open>err\<close> strings are values. Threads are labelled step
  relations whose steps are slots, loop iterations and the parts of a loop between two accesses to what the
  threads share; properties of them hold for every interleaving of the steps. OpenSSL, liboqs, protobuf, Boost, Qt,
  the file system and the network are parameters; what a theorem relies on is one of the hypotheses \<open>gcm_contract\<close>, \<open>ed_contract\<close>,
  \<open>kem_contract\<close>, \<open>hkdf_contract\<close>, \<open>proto_contract\<close>, \<open>transport_contract\<close>, \<open>asio_contract\<close>, \<open>libs_quiet\<close>,
  \<open>stream_contract\<close>, \<open>partial_contract\<close>, \<open>arrival_contract\<close>, \<open>rng_contract\<close>, \<open>files_quiet\<close>, \<open>fs_contract\<close>,
  \<open>pubkey_steady\<close>, \<open>closed_contract\<close> or \<open>escapes\<close>, each stating documented behaviour of that library, except that
  \<open>fs_contract\<close> idealises: it takes a file whose stream was \<open>good()\<close> as written, although \<open>create_profile\<close> asks before the
  buffer is flushed. No hypothesis says that cryptography cannot be broken: authenticity is stated as \<open>a signature over this message verified\<close>, \<open>this tag is the tag of that text\<close>.

  \<^bold>\<open>The theories.\<close>
  \<^item> Prelude, Cxx-String, Steps: bytes, C++ conversions and strings, the effect type with its calculus of
    balanced resources, runs, and the locales for invariants and simulations of step relations.
  \<^item> Crypto: \<open>AESGCMCrypto\<close> and \<open>Session\<close>. Key-Exchange: \<open>hkdf_sha256\<close> and \<open>KyberKEM\<close>. Identity:
    key generation, signatures, fingerprints. Profile: the identity file, \<open>create_profile\<close> and \<open>load_profile\<close>.
  \<^item> Engine: every member function of \<open>ConnectionEngine\<close> and the messages of the \<^verbatim>\<open>.proto\<close> files. Handshake:
    agreement and authentication. Messages: the reachable states of an engine, round trips, and the
    double free that a forged message causes. Limits: what the protocol does not authenticate. Nonces: the
    draws behind the nonces of a session. Talk: what the two ends of a chat make of each other's frames.
  \<^item> Transport: the TCP transport, the loopback channel and the inbox of \<open>WebSocketTransport\<close>, with a locale of
    frame queues. Wakeup: the condition variable behind \<open>recv\<close> against a close, at the level of the mutex. Loopback:
    \<^verbatim>\<open>tools/engine_loopback_test.cpp\<close>, two engines over two channels, one of them in a thread.
    Beast: \<open>BeastWebSocketTransport\<close>. Ws-Url: \<open>ws_join\<close>, \<open>parse_ws_url\<close>, and the relay's
    \<open>do_http\<close>, \<open>url_decode\<close>, \<open>get_query_value\<close>.
  \<^item> Relay: the threads of \<^verbatim>\<open>relay_server.cpp\<close> over \<open>g_rooms\<close>. Relay-Rooms: their invariant. Relay-Spec: rooms as
    sets of sessions, and the refinement. Relay-Props: delivery, order, the write race and the end of the
    process. Relay-Main: \<open>main\<close> with its acceptor around the threads.
  \<^item> Pins, Relay-Cli, Relay-Chat: \<^verbatim>\<open>relay_cli.cpp\<close>, its pins file with a locale of pin stores, arguments and
    session start, and the two threads of its chat. Chat-End: these threads on one Beast stream, with a read and the close of
    the stream as steps of their own. Relay-Talk: two of these clients and the relay between them. Tcp-Programs: \<^verbatim>\<open>client.cpp\<close> and \<^verbatim>\<open>server.cpp\<close>. Tcp-Demo: both over
    \<^verbatim>\<open>tcp_transport.cpp\<close> and the two byte streams of a connection. Moves: a handshake seen from its transport.
  \<^item> Worker, Worker-Props: the slots and the receiving thread of \<open>EngineWorker\<close>. Gui-Relay: the Qt event loop
    around \<open>WebSocketTransport\<close>. Window, Window-Props: \<open>MainWindow\<close>. Gui: both together as \<^verbatim>\<open>gui/main.cpp\<close> starts them, with the
    posted slots and the two destructors. Gui-Close: the destruction of the worker over both of its transports, with the close of
    \<open>WebSocketTransport\<close> as Wakeup has it. Gui-Talk: two workers over TCP, down to the bytes.
  \<^item> Reference-Lib: one concrete instance of all libraries, satisfying every contract. Witnesses, Net-Witnesses,
    Relay-Witnesses, App-Witnesses, Talk-Witnesses, Loop-Witnesses, Demo-Witnesses,
    Gui-Witnesses, Nonce-Witnesses, Gui-Talk-Witnesses, Close-Witnesses, Chat-Witnesses: each property applied to a run on concrete data.

  \<^bold>\<open>What is shown.\<close> Two engines that complete a handshake with the same transcript hold the same key and know
  each other's identity; nothing is sent or accepted before a signature verified; messages round-trip, and what is
  reported carried a valid tag; failed handshakes leave no session; no path leaks a library object, and exactly
  the rejected tags free one twice. No nonce is used twice unless \<open>RAND_bytes\<close> repeats itself. A frame can be replayed, reflected or given another envelope, and whoever relays a
  handshake that would succeed can put their own identity in the client's place, and it succeeds all the same. Identity files round-trip, truncated ones are refused,
  the public key in them is not authenticated. Frames survive the TCP transport below 4 GiB, and the effect of larger ones is exact; over it
  the demonstration programs deliver the typed line, leave no byte unread and never wait for each other, and two users
  of the GUI are told exactly what the other one sent, in order, up to the first error. The relay
  refines its specification, delivers once and in order, and can always finish a round; it also has a write race
  and can be stopped by one request or by idle connections. What one client of the relay prints of the other is, in
  order, what that one read and sent. The loopback program always returns, and with 0 only after it printed the
  message; its wait cannot miss a close, that of \<open>WebSocketTransport\<close> can. The query
  parser equals its specification. The command line client starts a
  chat only with the pinned peer, where keys have no white space in them (a room name with a blank is never found in the
  pins file, and every peer accepted), and prints only authentic text. From the join on its chat ends in three steps, unless
  the reader is in a read that the close of the stream does not end: then it hangs. In the GUI, requests are carried out in order, signals alternate, the label
  follows the worker, a line of the peer carried a valid tag, no text becomes markup. The
  destruction of the worker ends, unless a TCP read outlives the close of its socket or the close of the WebSocket is the one that the
  receiving thread misses: then the join waits for ever, and the process stays;
  reconnecting after the peer closed ends the process, and the relay mode waits for ever.

  \<^bold>\<open>Bounds.\<close> No definition uses fuel: loops recurse on the data they consume, with a measure where that is not
  structural (\<open>url_decode\<close>, \<open>query_loop\<close>, \<open>arg_loop\<close>). Lengths that pass through an \<open>int\<close> or a \<open>uint32_t\<close> are
  converted as C++ does, so some theorems assume texts below \<open>2 ^ 31\<close> bytes; ports are \<open>16 word\<close>.
  A blocking call that does not return is \<open>Blocked\<close> (channels, sockets, streams, WebSocket inbox), and the receiving thread has no
  step while its \<open>recv\<close> is (\<open>recv_waits\<close>); elsewhere it is a call that has not happened yet. The liveness theorems say which
  calls can always return.

  \<^bold>\<open>Not modelled.\<close> Progress output; titles, menus and layout of the widgets; the bytes of protobuf messages, TLS
  and the WebSocket protocol, which belong to libraries; data races inside one step, such as two threads assigning one
  \<open>std::string\<close>; a \<open>std::thread\<close> that cannot be created; \<open>std::bad_alloc\<close> between the allocation of a library object and the \<open>try\<close> that frees
  it; what two threads in calls of one Beast stream do to its memory; build files, scripts and deployment, which hold no
  program logic.
\<close>

end
